(* ===== verification/Csh_Prelude.thy ===== *)
theory Csh_Prelude
  imports Main "HOL-Library.Word" "HOL-Library.Sublist"
begin

text \<open>
  Shared vocabulary of the development: the faults a C program can run into, the conversions
  between C integer types, NUL-terminated character buffers, and the generic list lemmas the
  components share.

  A C string is a \<^typ>\<open>string\<close> without its terminating NUL; a C character array is a list of
  characters whose length is the size of the array. Where the code can read or write outside an
  array, dereference a null pointer or fail an assertion, the model returns \<^term>\<open>Inl f\<close> for the
  fault \<open>f\<close> instead of a value.
\<close>

named_theorems csh_step \<open>one-step equations of the modelled loops\<close>
named_theorems c_int_simps \<open>conversions between C integer types\<close>

section \<open>Faults\<close>

datatype fault = Out_Of_Bounds | Null_Deref | Assert_Failed | Double_Free

type_synonym 'a c_result = "fault + 'a"

definition no_fault :: "'a c_result \<Rightarrow> bool" where
  "no_fault r \<longleftrightarrow> (case r of Inl _ \<Rightarrow> False | Inr _ \<Rightarrow> True)"

lemma no_fault_simps [simp]: "no_fault (Inr x)" "\<not> no_fault (Inl f)"
  by (simp_all add: no_fault_def)

lemma no_fault_iff: "no_fault r \<longleftrightarrow> (\<exists>x. r = Inr x)"
  by (cases r) auto

text \<open>Distribution over branches, to decide faults without splitting the conditions.\<close>

lemma no_fault_if: "no_fault (if b then x else y) \<longleftrightarrow> (if b then no_fault x else no_fault y)"
  by simp

lemma no_fault_option:
  "no_fault (case x of None \<Rightarrow> a | Some v \<Rightarrow> f v) \<longleftrightarrow> (case x of None \<Rightarrow> no_fault a | Some v \<Rightarrow> no_fault (f v))"
  by (simp split: option.split)

lemma case_option_True: "(case x of None \<Rightarrow> True | Some v \<Rightarrow> True)"
  by (simp split: option.split)

lemmas no_fault_branches = no_fault_if no_fault_option case_option_True

section \<open>C integers\<close>

text \<open>
  The target is the LP64 model the program is built for: \<open>int\<close> has 32 bits, \<open>long\<close> and \<open>size_t\<close>
  have 64. A conversion to a narrower type keeps the low bits.
\<close>

abbreviation INT32_MAX :: int where "INT32_MAX \<equiv> 2147483647"
abbreviation INT32_MIN :: int where "INT32_MIN \<equiv> - 2147483648"
abbreviation LONG_MAX :: int where "LONG_MAX \<equiv> 9223372036854775807"
abbreviation LONG_MIN :: int where "LONG_MIN \<equiv> - 9223372036854775808"
abbreviation ULONG_MAX :: int where "ULONG_MAX \<equiv> 18446744073709551615"

definition to_int32 :: "int \<Rightarrow> int" where
  "to_int32 x = sint (word_of_int x :: 32 word)"

definition to_uint32 :: "int \<Rightarrow> int" where
  "to_uint32 x = uint (word_of_int x :: 32 word)"

lemma to_int32_eq: "to_int32 x = signed_take_bit 31 x"
  by (simp add: to_int32_def sint_sbintrunc')

lemma to_int32_id [c_int_simps]: "INT32_MIN \<le> x \<Longrightarrow> x \<le> INT32_MAX \<Longrightarrow> to_int32 x = x"
  by (simp add: to_int32_eq signed_take_bit_int_eq_self_iff)

lemma to_int32_bounds: "INT32_MIN \<le> to_int32 x" "to_int32 x \<le> INT32_MAX"
  using signed_take_bit_int_greater_eq_minus_exp [of 31 x] signed_take_bit_int_less_exp [of 31 x]
  by (simp_all add: to_int32_eq)

lemma to_uint32_eq: "to_uint32 x = x mod 4294967296"
  by (simp add: to_uint32_def uint_word_of_int)

lemma to_uint32_id [c_int_simps]: "0 \<le> x \<Longrightarrow> x < 4294967296 \<Longrightarrow> to_uint32 x = x"
  by (simp add: to_uint32_eq)

lemma to_uint32_to_int32 [simp]: "to_uint32 (to_int32 x) = to_uint32 x"
  by (simp add: to_uint32_def to_int32_def)

lemma to_int32_to_uint32 [simp]: "to_int32 (to_uint32 x) = to_int32 x"
  by (simp add: to_uint32_def to_int32_def)

lemma to_uint32_bounds: "0 \<le> to_uint32 x" "to_uint32 x < 4294967296"
  by (simp_all add: to_uint32_eq)

text \<open>\<open>size_t\<close> subtraction wraps around; both operands are below \<open>2 ^ 64\<close>.\<close>

definition size_minus :: "nat \<Rightarrow> nat \<Rightarrow> nat" where
  "size_minus a b = (if b \<le> a then a - b else a + 2 ^ 64 - b)"

lemma size_minus_le [simp]: "b \<le> a \<Longrightarrow> size_minus a b = a - b"
  by (simp add: size_minus_def)

section \<open>Character buffers\<close>

abbreviation NUL :: char where "NUL \<equiv> CHR 0x00"

text \<open>Writing bytes into an array.\<close>

definition write_at :: "char list \<Rightarrow> nat \<Rightarrow> char list \<Rightarrow> char list c_result" where
  "write_at buf off s =
     (if off + length s \<le> length buf then Inr (take off buf @ s @ drop (off + length s) buf) else Inl Out_Of_Bounds)"

text \<open>The C string a buffer holds, and the character of a C string at an index (NUL at its end).\<close>

definition c_string :: "char list \<Rightarrow> string" where
  "c_string buf = takeWhile (\<lambda>c. c \<noteq> NUL) buf"

definition char_at :: "string \<Rightarrow> nat \<Rightarrow> char" where
  "char_at s i = (if i < length s then s ! i else NUL)"

definition nul_free :: "string \<Rightarrow> bool" where
  "nul_free s \<longleftrightarrow> NUL \<notin> set s"

lemma nul_free_append [simp]: "nul_free (s @ t) \<longleftrightarrow> nul_free s \<and> nul_free t"
  by (auto simp: nul_free_def)

lemma nul_free_Nil [simp]: "nul_free []"
  by (simp add: nul_free_def)

lemma nul_free_Cons [simp]: "nul_free (c # s) \<longleftrightarrow> c \<noteq> NUL \<and> nul_free s"
  by (auto simp: nul_free_def)

lemma nul_free_take [simp]: "nul_free s \<Longrightarrow> nul_free (take n s)"
  by (auto simp: nul_free_def dest: in_set_takeD)

lemma nul_free_drop [simp]: "nul_free s \<Longrightarrow> nul_free (drop n s)"
  by (auto simp: nul_free_def dest: in_set_dropD)

lemma c_string_terminated:
  assumes "n < length buf" "buf ! n = NUL" "nul_free (take n buf)"
  shows "c_string buf = take n buf"
proof -
  have "buf = take n buf @ NUL # drop (Suc n) buf"
    using assms(1,2) by (metis id_take_nth_drop)
  then have "c_string buf = takeWhile (\<lambda>c. c \<noteq> NUL) (take n buf @ NUL # drop (Suc n) buf)"
    by (simp add: c_string_def)
  also have "\<dots> = take n buf"
    using assms(3) by (subst takeWhile_append2) (auto simp: nul_free_def)
  finally show ?thesis .
qed

lemma c_string_self [simp]: "nul_free s \<Longrightarrow> c_string s = s"
  by (auto simp: c_string_def nul_free_def)

lemma char_at_Cons_0 [simp]: "char_at (c # s) 0 = c"
  by (simp add: char_at_def)

lemma char_at_Cons_Suc [simp]: "char_at (c # s) (Suc i) = char_at s i"
  by (simp add: char_at_def)

section \<open>Lists\<close>

lemma take_update_snoc [simp]: "n < length xs \<Longrightarrow> take (Suc n) (xs[n := x]) = take n xs @ [x]"
  by (simp add: take_Suc_conv_app_nth)

lemma takeWhile_nothing: "(xs = [] \<or> \<not> P (hd xs)) \<Longrightarrow> takeWhile P xs = []"
  by (cases xs) auto

lemma dropWhile_nothing: "(xs = [] \<or> \<not> P (hd xs)) \<Longrightarrow> dropWhile P xs = xs"
  by (cases xs) auto

lemma takeWhile_all_append:
  "(\<forall>x \<in> set xs. P x) \<Longrightarrow> (ys = [] \<or> \<not> P (hd ys)) \<Longrightarrow> takeWhile P (xs @ ys) = xs"
  by (induction xs) (auto simp: takeWhile_nothing)

lemma dropWhile_all_append:
  "(\<forall>x \<in> set xs. P x) \<Longrightarrow> (ys = [] \<or> \<not> P (hd ys)) \<Longrightarrow> dropWhile P (xs @ ys) = ys"
  by (induction xs) (auto simp: dropWhile_nothing)

lemma nul_free_c_string [simp]: "nul_free (c_string s)"
  by (auto simp: nul_free_def c_string_def dest: set_takeWhileD)

lemma length_c_string: "length (c_string s) \<le> length s"
  by (simp add: c_string_def length_takeWhile_le)

lemma c_string_append_NUL: "c_string (s @ replicate n NUL) = c_string s"
  by (induction s) (auto simp: c_string_def takeWhile_nothing)

lemma c_string_NUL: "nul_free s \<Longrightarrow> c_string (s @ NUL # r) = s"
  by (induction s) (auto simp: c_string_def)

lemma c_string_decomp: "NUL \<in> set buf \<Longrightarrow> \<exists>r. buf = c_string buf @ NUL # r"
  by (induction buf) (auto simp: c_string_def)

text \<open>The first element of a list that satisfies a predicate, as the list walks of the code find it.\<close>

lemma find_map_fst: "map_option snd (find (\<lambda>p. fst p = k) xs) = map_of xs k"
  by (induction xs) auto

lemma map_of_rev: "distinct (map fst xs) \<Longrightarrow> map_of (rev xs) = map_of xs"
  by (subst map_of_inject_set) (simp_all flip: rev_map)

end
