(* ===== verification/C_Strings.thy ===== *)
theory C_Strings
  imports Csh_Prelude
begin

text \<open>
  The functions of the C library the program's parsing rests on, as the standard (and glibc,
  where the standard leaves it open) describes them: the character classes, \<open>strtol\<close>,
  \<open>strtoul\<close>, \<open>atoi\<close> with their end pointers and saturation, \<open>strtok_r\<close>, \<open>strchr\<close>, \<open>strrchr\<close>,
  \<open>strstr\<close>, \<open>strcasestr\<close>, \<open>strncmp\<close>, the decimal conversions of \<open>printf\<close> and the \<open>%d\<close> and
  \<open>%c\<close> conversions of \<open>sscanf\<close>. An end pointer is the suffix of the string it points to.
\<close>

section \<open>Character classes\<close>

definition code :: "char \<Rightarrow> nat" where
  "code c = of_char c"

definition isdigit :: "char \<Rightarrow> bool" where
  "isdigit c \<longleftrightarrow> 48 \<le> code c \<and> code c \<le> 57"

definition isspace :: "char \<Rightarrow> bool" where
  "isspace c \<longleftrightarrow> code c = 32 \<or> (9 \<le> code c \<and> code c \<le> 13)"

definition isupper :: "char \<Rightarrow> bool" where
  "isupper c \<longleftrightarrow> 65 \<le> code c \<and> code c \<le> 90"

definition tolower :: "char \<Rightarrow> char" where
  "tolower c = (if isupper c then char_of (code c + 32) else c)"

text \<open>The value of a digit in bases up to 36, as \<open>strtol\<close> reads it.\<close>

definition digit_value :: "char \<Rightarrow> nat option" where
  "digit_value c =
     (let n = code c in
      if 48 \<le> n \<and> n \<le> 57 then Some (n - 48)
      else if 65 \<le> n \<and> n \<le> 90 then Some (n - 55)
      else if 97 \<le> n \<and> n \<le> 122 then Some (n - 87)
      else None)"

definition in_base :: "nat \<Rightarrow> char \<Rightarrow> bool" where
  "in_base b c \<longleftrightarrow> (case digit_value c of None \<Rightarrow> False | Some d \<Rightarrow> d < b)"

lemma in_base_10 [simp]: "in_base 10 = isdigit"
  by (rule ext) (auto simp: in_base_def digit_value_def isdigit_def Let_def)

lemma isdigit_not_space: "isdigit c \<Longrightarrow> \<not> isspace c"
  by (auto simp: isdigit_def isspace_def)

lemma isdigit_not_NUL: "isdigit c \<Longrightarrow> c \<noteq> NUL"
  by (auto simp: isdigit_def code_def)

definition num_val :: "nat \<Rightarrow> string \<Rightarrow> nat" where
  "num_val b ds = foldl (\<lambda>n c. b * n + the (digit_value c)) 0 ds"

section \<open>\<open>strtol\<close>, \<open>strtoul\<close>, \<open>atoi\<close>\<close>

text \<open>
  The common scan: leading white space, an optional sign, in base 16 an optional \<open>0x\<close> (taken only
  when a hexadecimal digit follows), then the longest run of digits. \<open>None\<close> means that there is
  no number, in which case the end pointer is the start of the string.
\<close>

definition scan_sign :: "string \<Rightarrow> bool \<times> string" where
  "scan_sign t = (case t of
       [] \<Rightarrow> (False, t)
     | c # cs \<Rightarrow> if c = CHR ''-'' then (True, cs) else if c = CHR ''+'' then (False, cs) else (False, t))"

definition strip_0x :: "nat \<Rightarrow> string \<Rightarrow> string" where
  "strip_0x b s = (case s of
       z # x # d # r \<Rightarrow>
         if b = 16 \<and> z = CHR ''0'' \<and> (x = CHR ''x'' \<or> x = CHR ''X'') \<and> in_base 16 d
         then d # r else s
     | _ \<Rightarrow> s)"

lemma strip_0x_10 [simp]: "strip_0x 10 s = s"
  by (simp add: strip_0x_def split: list.splits)

definition strto_scan :: "nat \<Rightarrow> string \<Rightarrow> (bool \<times> nat \<times> string) option" where
  "strto_scan b s =
     (let (neg, t) = scan_sign (dropWhile isspace s);
          u = strip_0x b t;
          ds = takeWhile (in_base b) u
      in if ds = [] then None else Some (neg, num_val b ds, dropWhile (in_base b) u))"

definition strtol :: "nat \<Rightarrow> string \<Rightarrow> int \<times> string" where
  "strtol b s = (case strto_scan b s of
       None \<Rightarrow> (0, s)
     | Some (neg, m, rest) \<Rightarrow>
         (max LONG_MIN (min LONG_MAX (if neg then - int m else int m)), rest))"

definition strtoul :: "nat \<Rightarrow> string \<Rightarrow> int \<times> string" where
  "strtoul b s = (case strto_scan b s of
       None \<Rightarrow> (0, s)
     | Some (neg, m, rest) \<Rightarrow>
         (if int m > ULONG_MAX then ULONG_MAX
          else if neg then (- int m) mod 18446744073709551616 else int m, rest))"

definition atoi :: "string \<Rightarrow> int" where
  "atoi s = to_int32 (fst (strtol 10 s))"

section \<open>Searching, comparing and copying\<close>

text \<open>\<open>strncmp(a, b, n) == 0\<close> and \<open>strcmp(a, b) == 0\<close> on C strings.\<close>

definition strncmp_eq :: "string \<Rightarrow> string \<Rightarrow> nat \<Rightarrow> bool" where
  "strncmp_eq a b n \<longleftrightarrow> take n a = take n b"

text \<open>\<open>strncpy(dst, src, n)\<close>: the first \<open>n\<close> bytes of the destination, padded with NULs.\<close>

definition strncpy :: "char list \<Rightarrow> string \<Rightarrow> nat \<Rightarrow> char list" where
  "strncpy dst src n = take n src @ replicate (n - length src) NUL @ drop n dst"

text \<open>The suffix at the first (last) occurrence of a character, and its offset.\<close>

definition strchr :: "string \<Rightarrow> char \<Rightarrow> string option" where
  "strchr s c = (if c \<in> set s then Some (dropWhile (\<lambda>x. x \<noteq> c) s) else None)"

definition strrchr_index :: "string \<Rightarrow> char \<Rightarrow> nat option" where
  "strrchr_index s c =
     (if c \<in> set s then Some (length s - 1 - length (takeWhile (\<lambda>x. x \<noteq> c) (rev s))) else None)"

fun strstr :: "string \<Rightarrow> string \<Rightarrow> string option" where
  "strstr hay needle =
     (if prefix needle hay then Some hay
      else case hay of [] \<Rightarrow> None | _ # rest \<Rightarrow> strstr rest needle)"

declare strstr.simps [simp del]

definition strcasestr :: "string \<Rightarrow> string \<Rightarrow> string option" where
  "strcasestr hay needle = strstr (map tolower hay) (map tolower needle)"

text \<open>
  \<open>strtok_r\<close> on the remaining text: the next token and what remains after the delimiter that ended
  it. The first call also cuts the scanned string short: it then holds the skipped delimiters and
  the token.
\<close>

definition strtok_r :: "string \<Rightarrow> string \<Rightarrow> (string \<times> string) option" where
  "strtok_r s delims =
     (let t = dropWhile (\<lambda>c. c \<in> set delims) s
      in if t = [] then None
         else Some (takeWhile (\<lambda>c. c \<notin> set delims) t, drop 1 (dropWhile (\<lambda>c. c \<notin> set delims) t)))"

definition strtok_cut :: "string \<Rightarrow> string \<Rightarrow> string" where
  "strtok_cut s delims =
     takeWhile (\<lambda>c. c \<in> set delims) s @
     takeWhile (\<lambda>c. c \<notin> set delims) (dropWhile (\<lambda>c. c \<in> set delims) s)"

lemma strtok_r_shorter:
  "strtok_r s delims = Some (tok, rest) \<Longrightarrow> tok \<noteq> [] \<and> length tok + length rest \<le> length s"
proof -
  assume a: "strtok_r s delims = Some (tok, rest)"
  define t where "t = dropWhile (\<lambda>c. c \<in> set delims) s"
  from a have ne: "t \<noteq> []" and tok: "tok = takeWhile (\<lambda>c. c \<notin> set delims) t"
    and rest: "rest = drop 1 (dropWhile (\<lambda>c. c \<notin> set delims) t)"
    by (auto simp: strtok_r_def Let_def t_def split: if_splits)
  have "hd t \<notin> set delims" using ne hd_dropWhile [of "\<lambda>c. c \<in> set delims" s] by (simp add: t_def)
  then have "tok \<noteq> []" using ne tok by (cases t) auto
  moreover have "length tok + length (dropWhile (\<lambda>c. c \<notin> set delims) t) = length t"
    unfolding tok by (simp only: takeWhile_dropWhile_id flip: length_append)
  moreover have "length t \<le> length s" by (simp add: t_def length_dropWhile_le)
  ultimately show ?thesis by (simp add: rest)
qed

lemma strtok_r_token_free: "strtok_r s delims = Some (tok, rest) \<Longrightarrow> set tok \<inter> set delims = {}"
  by (auto simp: strtok_r_def Let_def dest: set_takeWhileD split: if_splits)

text \<open>All tokens of a string, as a \<open>strtok\<close> loop meets them.\<close>

function strtok_all :: "string \<Rightarrow> string \<Rightarrow> string list" where
  "strtok_all delims s =
     (case strtok_r s delims of None \<Rightarrow> [] | Some (tok, rest) \<Rightarrow> tok # strtok_all delims rest)"
  by pat_completeness auto
termination
  by (relation "measure (\<lambda>(d, s). length s)") (auto dest!: strtok_r_shorter simp flip: length_greater_0_conv)

declare strtok_all.simps [simp del]

section \<open>\<open>sscanf\<close> conversions\<close>

text \<open>
  \<open>%d\<close> skips white space and reads an optionally signed decimal number, converted as by
  \<open>strtol\<close> and stored as an \<open>int\<close>; \<open>%c\<close> takes the next character, white space included.
  \<open>None\<close> stands for a matching or input failure.
\<close>

definition scan_d :: "string \<Rightarrow> (int \<times> string) option" where
  "scan_d s = (case strto_scan 10 s of
       None \<Rightarrow> None
     | Some (neg, m, rest) \<Rightarrow> Some (to_int32 (fst (strtol 10 s)), rest))"

definition scan_c :: "string \<Rightarrow> (char \<times> string) option" where
  "scan_c s = (case s of [] \<Rightarrow> None | c # rest \<Rightarrow> Some (c, rest))"

section \<open>Decimal output\<close>

definition digit_char :: "nat \<Rightarrow> char" where
  "digit_char d = char_of (48 + d)"

fun show_nat :: "nat \<Rightarrow> string" where
  "show_nat n = (if n < 10 then [digit_char n] else show_nat (n div 10) @ [digit_char (n mod 10)])"

declare show_nat.simps [simp del]

definition show_int :: "int \<Rightarrow> string" where
  "show_int i = (if i < 0 then CHR ''-'' # show_nat (nat (- i)) else show_nat (nat i))"

lemma code_digit_char: "d < 10 \<Longrightarrow> code (digit_char d) = 48 + d"
  by (simp add: code_def digit_char_def)

lemma isdigit_digit_char: "d < 10 \<Longrightarrow> isdigit (digit_char d)"
  by (simp add: isdigit_def code_digit_char)

lemma digit_value_digit_char: "d < 10 \<Longrightarrow> digit_value (digit_char d) = Some d"
  by (simp add: digit_value_def code_digit_char)

lemma show_nat_digits: "\<forall>c \<in> set (show_nat n). isdigit c"
proof (induction n rule: show_nat.induct)
  case (1 n)
  then show ?case
    by (cases "n < 10") (auto simp: show_nat.simps [of n] isdigit_digit_char)
qed

lemma show_nat_nonempty [simp]: "show_nat n \<noteq> []"
  by (subst show_nat.simps) simp

lemma num_val_snoc: "num_val b (ds @ [c]) = b * num_val b ds + the (digit_value c)"
  by (simp add: num_val_def)

lemma num_val_show_nat [simp]: "num_val 10 (show_nat n) = n"
proof (induction n rule: show_nat.induct)
  case (1 n)
  show ?case
  proof (cases "n < 10")
    case True
    then show ?thesis
      by (simp add: show_nat.simps [of n] num_val_def digit_value_digit_char)
  next
    case False
    with 1 show ?thesis
      by (simp add: show_nat.simps [of n] num_val_snoc digit_value_digit_char)
  qed
qed

lemma nul_free_digits: "\<forall>c \<in> set s. isdigit c \<Longrightarrow> nul_free s"
  using isdigit_not_NUL by (auto simp: nul_free_def)

lemma nul_free_show_nat [simp]: "nul_free (show_nat n)"
  by (rule nul_free_digits) (rule show_nat_digits)

lemma hd_show_nat: "isdigit (hd (show_nat n))"
  using show_nat_digits [of n] by (cases "show_nat n") auto

lemma length_show_nat_le: "n < 10 ^ k \<Longrightarrow> 0 < k \<Longrightarrow> length (show_nat n) \<le> k"
proof (induction n arbitrary: k rule: show_nat.induct)
  case (1 n)
  show ?case
  proof (cases "n < 10")
    case True
    with 1 show ?thesis by (simp add: show_nat.simps [of n])
  next
    case False
    with 1(2,3) obtain j where k: "k = Suc (Suc j)"
      by (cases k; cases "k - 1") auto
    with 1(2) have "n div 10 < 10 ^ Suc j"
      by (simp add: less_mult_imp_div_less)
    with 1(1) [OF False, of "Suc j"] have "length (show_nat (n div 10)) \<le> Suc j"
      by simp
    with False k show ?thesis by (simp add: show_nat.simps [of n])
  qed
qed

section \<open>Reading back what was printed\<close>

lemma strto_scan_digits:
  assumes "ds \<noteq> []" "\<forall>c \<in> set ds. isdigit c" "rest = [] \<or> \<not> isdigit (hd rest)"
  shows "strto_scan 10 (ds @ rest) = Some (False, num_val 10 ds, rest)"
proof -
  obtain d ds' where ds: "ds = d # ds'" using assms(1) by (cases ds) auto
  have d: "isdigit d" using assms(2) ds by simp
  then have nsp: "\<not> isspace d" "d \<noteq> CHR ''-''" "d \<noteq> CHR ''+''"
    by (auto simp: isdigit_not_space) (auto simp: isdigit_def code_def)
  have "takeWhile isdigit (ds @ rest) = ds" "dropWhile isdigit (ds @ rest) = rest"
    using takeWhile_all_append [OF assms(2,3)] dropWhile_all_append [OF assms(2,3)] .
  with ds nsp show ?thesis
    by (simp add: strto_scan_def scan_sign_def)
qed

lemma strtol_digits:
  assumes "ds \<noteq> []" "\<forall>c \<in> set ds. isdigit c" "rest = [] \<or> \<not> isdigit (hd rest)"
    and "int (num_val 10 ds) \<le> LONG_MAX"
  shows "strtol 10 (ds @ rest) = (int (num_val 10 ds), rest)"
  using assms by (simp add: strtol_def strto_scan_digits)

lemma strtol_show_nat:
  assumes "int n \<le> LONG_MAX" "rest = [] \<or> \<not> isdigit (hd rest)"
  shows "strtol 10 (show_nat n @ rest) = (int n, rest)"
  using strtol_digits [OF show_nat_nonempty show_nat_digits assms(2)] assms(1) by simp

lemma strtol_show_nat_end: "int n \<le> LONG_MAX \<Longrightarrow> strtol 10 (show_nat n) = (int n, [])"
  using strtol_show_nat [of n "[]"] by simp

lemma strtoul_show_nat:
  assumes "int n \<le> ULONG_MAX" "rest = [] \<or> \<not> isdigit (hd rest)"
  shows "strtoul 10 (show_nat n @ rest) = (int n, rest)"
  using strto_scan_digits [OF show_nat_nonempty show_nat_digits assms(2)] assms(1)
  by (simp add: strtoul_def)

lemma atoi_show_nat:
  assumes "int n \<le> INT32_MAX" "rest = [] \<or> \<not> isdigit (hd rest)"
  shows "atoi (show_nat n @ rest) = int n"
  using strtol_show_nat [of n rest] assms by (simp add: atoi_def c_int_simps)

lemma strtol_bounds: "LONG_MIN \<le> fst (strtol b s)" "fst (strtol b s) \<le> LONG_MAX"
  by (auto simp: strtol_def split: option.splits)

lemma strtol_digit_nonneg:
  assumes "isdigit c"
  shows "0 \<le> fst (strtol 10 (c # s))"
proof -
  have "\<not> isspace c" "c \<noteq> CHR ''-''" "c \<noteq> CHR ''+''"
    using assms by (auto simp: isdigit_not_space) (auto simp: isdigit_def code_def)
  then show ?thesis
    by (auto simp: strtol_def strto_scan_def scan_sign_def Let_def split: option.splits if_splits)
qed

lemma scan_d_show_nat:
  "int n \<le> INT32_MAX \<Longrightarrow> rest = [] \<or> \<not> isdigit (hd rest) \<Longrightarrow> scan_d (show_nat n @ rest) = Some (int n, rest)"
  using strto_scan_digits [OF show_nat_nonempty show_nat_digits, of rest n] strtol_show_nat [of n rest]
  by (simp add: scan_d_def c_int_simps)

text \<open>The same for signed numbers.\<close>

lemma strto_scan_minus:
  assumes "ds \<noteq> []" "\<forall>c \<in> set ds. isdigit c" "rest = [] \<or> \<not> isdigit (hd rest)"
  shows "strto_scan 10 (CHR ''-'' # ds @ rest) = Some (True, num_val 10 ds, rest)"
proof -
  have "\<not> isspace CHR ''-''" by (simp add: isspace_def code_def)
  then show ?thesis
    using assms takeWhile_all_append [OF assms(2,3)] dropWhile_all_append [OF assms(2,3)]
    by (simp add: strto_scan_def scan_sign_def)
qed

lemma scan_d_show_int:
  assumes "INT32_MIN \<le> i" "i \<le> INT32_MAX" "rest = [] \<or> \<not> isdigit (hd rest)"
  shows "scan_d (show_int i @ rest) = Some (i, rest)"
proof (cases "i < 0")
  case True
  then have "strto_scan 10 (show_int i @ rest) = Some (True, nat (- i), rest)"
    using strto_scan_minus [OF show_nat_nonempty show_nat_digits assms(3), of "nat (- i)"]
    by (simp add: show_int_def)
  with True assms show ?thesis by (simp add: scan_d_def strtol_def c_int_simps)
next
  case False
  with assms scan_d_show_nat [of "nat i" rest] show ?thesis by (simp add: show_int_def)
qed

lemma show_int_nonempty [simp]: "show_int i \<noteq> []"
  by (simp add: show_int_def)

lemma show_int_chars: "\<forall>c \<in> set (show_int i). isdigit c \<or> c = CHR ''-''"
  using show_nat_digits by (auto simp: show_int_def)

lemma strtok_r_plain:
  assumes "t \<noteq> []" "set t \<inter> set delims = {}"
  shows "strtok_r (t @ rest) delims =
    Some (if rest = [] \<or> hd rest \<in> set delims then (t, drop 1 rest)
          else (takeWhile (\<lambda>c. c \<notin> set delims) (t @ rest), drop 1 (dropWhile (\<lambda>c. c \<notin> set delims) (t @ rest))))"
proof -
  have "dropWhile (\<lambda>c. c \<in> set delims) (t @ rest) = t @ rest"
    using assms by (cases t) auto
  moreover have "\<forall>c \<in> set t. c \<notin> set delims" using assms(2) by auto
  ultimately show ?thesis
    using assms(1) takeWhile_all_append [of t "\<lambda>c. c \<notin> set delims" rest]
      dropWhile_all_append [of t "\<lambda>c. c \<notin> set delims" rest]
    by (auto simp: strtok_r_def Let_def)
qed

lemma strtok_cut_plain:
  assumes "t \<noteq> []" "set t \<inter> set delims = {}" "rest = [] \<or> hd rest \<in> set delims"
  shows "strtok_cut (t @ rest) delims = t"
proof -
  have "dropWhile (\<lambda>c. c \<in> set delims) (t @ rest) = t @ rest" "takeWhile (\<lambda>c. c \<in> set delims) (t @ rest) = []"
    using assms(1,2) by (cases t; auto)+
  moreover have "\<forall>c \<in> set t. c \<notin> set delims" using assms(2) by auto
  ultimately show ?thesis
    using assms(3) takeWhile_all_append [of t "\<lambda>c. c \<notin> set delims" rest] by (simp add: strtok_cut_def)
qed

end
