(* ===== verification/Environment.thy ===== *)
theory Environment
  imports C_Strings
begin

text \<open>
  The variable store of \<open>src/environment.c\<close>: a singly linked list of name/value entries, searched
  from its head. \<open>csh_env\<close> is the list of the entries in list order. The operations are those of
  the C file; \<open>csh_expand_vars\<close> is modelled down to its growing output buffer, so that its writes
  can be shown to stay inside the buffer, and is related to a short reference definition.
  Allocation is assumed to succeed except where the code handles a failure (\<open>realloc\<close> in
  \<open>csh_copy_char_and_grow\<close>).
\<close>

section \<open>The interface of a variable store\<close>

text \<open>
  What the rest of the program relies on: \<open>getvar\<close> after a \<open>putvar\<close> or a \<open>delvar\<close>, on stores
  that satisfy the store's invariant.
\<close>

locale variable_store =
  fixes valid :: "'e \<Rightarrow> bool"
    and getvar :: "'e \<Rightarrow> string \<Rightarrow> string option"
    and putvar :: "'e \<Rightarrow> string \<Rightarrow> string \<Rightarrow> 'e"
    and delvar :: "'e \<Rightarrow> string \<Rightarrow> 'e"
  assumes valid_put: "valid e \<Longrightarrow> valid (putvar e n v)"
    and valid_del: "valid e \<Longrightarrow> valid (delvar e n)"
    and get_put: "getvar (putvar e n v) m = (if m = n then Some v else getvar e m)"
    and get_del: "valid e \<Longrightarrow> getvar (delvar e n) m = (if m = n then None else getvar e m)"
begin

text \<open>Putting back what a variable held before, or deleting it when it held nothing.\<close>

lemma valid_restore: "valid e \<Longrightarrow> valid (case old of None \<Rightarrow> delvar e n | Some v \<Rightarrow> putvar e n v)"
  by (simp add: valid_put valid_del split: option.split)

lemma get_restore:
  "valid e \<Longrightarrow> getvar (case old of None \<Rightarrow> delvar e n | Some v \<Rightarrow> putvar e n v) m =
     (if m = n then old else getvar e m)"
  by (simp add: get_put get_del split: option.split)

lemma put_put_same: "getvar (putvar (putvar e n v) n w) m = getvar (putvar e n w) m"
  by (simp add: get_put)

lemma put_put_commute:
  "n \<noteq> n' \<Longrightarrow> getvar (putvar (putvar e n v) n' w) m = getvar (putvar (putvar e n' w) n v) m"
  by (simp add: get_put)

end

section \<open>The store\<close>

type_synonym csh_env = "(string \<times> string) list"

definition csh_get_env_entry :: "csh_env \<Rightarrow> string \<Rightarrow> (string \<times> string) option" where
  "csh_get_env_entry env name = find (\<lambda>cur. fst cur = name) env"

definition csh_getvar :: "csh_env \<Rightarrow> string \<Rightarrow> string option" where
  "csh_getvar env name =
     (case csh_get_env_entry env name of None \<Rightarrow> None | Some cur \<Rightarrow> Some (snd cur))"

text \<open>Replacing the value of the entry found, in place.\<close>

fun set_value :: "csh_env \<Rightarrow> string \<Rightarrow> string \<Rightarrow> csh_env" where
  "set_value [] name value = []"
| "set_value (cur # rest) name value =
     (if fst cur = name then (fst cur, value) # rest else cur # set_value rest name value)"

definition csh_putvar :: "csh_env \<Rightarrow> string \<Rightarrow> string \<Rightarrow> csh_env" where
  "csh_putvar env name value =
     (case csh_get_env_entry env name of
        Some existing \<Rightarrow> set_value env name value
      | None \<Rightarrow> (name, value) # env)"

text \<open>\<open>SLIST_REMOVE\<close> of the entry found; the result code is 1 when there is none.\<close>

fun remove_entry :: "csh_env \<Rightarrow> string \<Rightarrow> csh_env" where
  "remove_entry [] name = []"
| "remove_entry (cur # rest) name = (if fst cur = name then rest else cur # remove_entry rest name)"

definition csh_delvar :: "csh_env \<Rightarrow> string \<Rightarrow> csh_env \<times> int" where
  "csh_delvar env name =
     (case csh_get_env_entry env name of
        Some var \<Rightarrow> (remove_entry env name, 0)
      | None \<Rightarrow> (env, 1))"

text \<open>\<open>csh_clearenv\<close> removes the first entry until the list is empty.\<close>

fun csh_clearenv :: "csh_env \<Rightarrow> csh_env" where
  "csh_clearenv [] = []"
| "csh_clearenv (var # rest) = csh_clearenv rest"

text \<open>\<open>csh_foreach_var\<close> calls back with every name, in list order, threading the callback's context.\<close>

definition csh_foreach_var :: "(string \<Rightarrow> 'c \<Rightarrow> 'c) \<Rightarrow> csh_env \<Rightarrow> 'c \<Rightarrow> 'c" where
  "csh_foreach_var cb env ctx = foldl (\<lambda>c cur. cb (fst cur) c) ctx env"

subsection \<open>The store is a map\<close>

text \<open>The invariant of the list: no name occurs twice.\<close>

definition env_inv :: "csh_env \<Rightarrow> bool" where
  "env_inv env \<longleftrightarrow> distinct (map fst env)"

lemma csh_getvar_map_of: "csh_getvar env name = map_of env name"
  unfolding csh_getvar_def csh_get_env_entry_def find_map_fst [symmetric]
  by (simp split: option.split)

lemma entry_None_iff: "csh_get_env_entry env name = None \<longleftrightarrow> name \<notin> fst ` set env"
  by (force simp: csh_get_env_entry_def find_None_iff)

lemma map_fst_set_value [simp]: "map fst (set_value env name value) = map fst env"
  by (induction env) auto

lemma map_of_set_value:
  "map_of (set_value env name value) m =
     (if m = name \<and> map_of env name \<noteq> None then Some value else map_of env m)"
  by (induction env) auto

lemma map_of_putvar:
  "map_of (csh_putvar env name value) m = (if m = name then Some value else map_of env m)"
proof (cases "csh_get_env_entry env name")
  case None
  then show ?thesis by (simp add: csh_putvar_def)
next
  case (Some cur)
  then have "map_of env name \<noteq> None"
    by (simp flip: csh_getvar_map_of add: csh_getvar_def)
  with Some show ?thesis by (auto simp: csh_putvar_def map_of_set_value)
qed

lemma set_remove_entry: "set (remove_entry env name) \<subseteq> set env"
  by (induction env) auto

lemma map_of_remove_entry:
  "env_inv env \<Longrightarrow> map_of (remove_entry env name) = (map_of env)(name := None)"
  unfolding env_inv_def
  by (induction env) (auto simp: fun_eq_iff map_of_eq_None_iff)

lemma distinct_remove_entry: "env_inv env \<Longrightarrow> env_inv (remove_entry env name)"
  unfolding env_inv_def
  by (induction env) (use set_remove_entry in force)+

lemma remove_entry_absent: "name \<notin> fst ` set env \<Longrightarrow> remove_entry env name = env"
  by (induction env) auto

lemma fst_csh_delvar: "fst (csh_delvar env name) = remove_entry env name"
  by (auto simp: csh_delvar_def entry_None_iff remove_entry_absent split: option.split)

lemma env_inv_putvar: "env_inv env \<Longrightarrow> env_inv (csh_putvar env name value)"
  by (auto simp: env_inv_def csh_putvar_def entry_None_iff split: option.split)

lemma env_inv_delvar: "env_inv env \<Longrightarrow> env_inv (fst (csh_delvar env name))"
  by (simp add: fst_csh_delvar distinct_remove_entry)

lemma csh_clearenv_Nil [simp]: "csh_clearenv env = []"
  by (induction env) auto

interpretation env_store: variable_store env_inv csh_getvar csh_putvar "\<lambda>e n. fst (csh_delvar e n)"
  by unfold_locales
     (auto simp: env_inv_putvar distinct_remove_entry csh_getvar_map_of map_of_putvar fst_csh_delvar
                 map_of_remove_entry)

section \<open>Expanding variable references\<close>

text \<open>
  \<open>csh_expand_vars\<close> copies its input to a heap buffer that grows by 16 bytes when it is full,
  replacing every \<open>$(name)\<close> by the value of the variable. The buffer is a list of characters of
  the allocated size; \<open>alloc\<close> tells whether a \<open>realloc\<close> to a given size succeeds, and \<open>junk\<close> is
  what the bytes a \<open>realloc\<close> adds hold. A write outside the buffer is a fault, and a buffer that
  is \<open>None\<close> is the null pointer. The length the code tracks, \<open>dest_len\<close>, leaves out the byte kept
  for the terminator.
\<close>

definition c_realloc :: "char \<Rightarrow> char list \<Rightarrow> nat \<Rightarrow> char list" where
  "c_realloc junk buf n = take n buf @ replicate (n - length buf) junk"

definition store_char :: "char list \<Rightarrow> nat \<Rightarrow> char \<Rightarrow> char list c_result" where
  "store_char buf at c = (if at < length buf then Inr (buf[at := c]) else Inl Out_Of_Bounds)"

definition csh_copy_char_and_grow ::
  "(nat \<Rightarrow> bool) \<Rightarrow> char \<Rightarrow> char list \<Rightarrow> nat \<Rightarrow> nat \<Rightarrow> char \<Rightarrow> (char list option \<times> nat) c_result" where
  "csh_copy_char_and_grow alloc junk dest at dest_len c =
     (if at = dest_len then
        let dest_len = dest_len + 16 in
        if alloc (dest_len + 1) then
          (case store_char (c_realloc junk dest (dest_len + 1)) at c of
             Inl f \<Rightarrow> Inl f
           | Inr dest \<Rightarrow> Inr (Some dest, dest_len))
        else Inr (None, dest_len)
      else
        (case store_char dest at c of
           Inl f \<Rightarrow> Inl f
         | Inr dest \<Rightarrow> Inr (Some dest, dest_len)))"

text \<open>The loop over the characters of a value; it stops when the buffer is gone.\<close>

fun copy_value ::
  "(nat \<Rightarrow> bool) \<Rightarrow> char \<Rightarrow> string \<Rightarrow> char list \<Rightarrow> nat \<Rightarrow> nat \<Rightarrow> (char list option \<times> nat \<times> nat) c_result"
where
  "copy_value alloc junk [] res res_len res_idx = Inr (Some res, res_len, res_idx)"
| "copy_value alloc junk (c # cs) res res_len res_idx =
     (case csh_copy_char_and_grow alloc junk res res_idx res_len c of
        Inl f \<Rightarrow> Inl f
      | Inr (None, res_len) \<Rightarrow> Inr (None, res_len, res_idx)
      | Inr (Some res, res_len) \<Rightarrow> copy_value alloc junk cs res res_len (Suc res_idx))"

text \<open>
  The main loop, from \<open>idx\<close>. The test \<open>idx < input_len - 2\<close> is the code's, in wrapping
  \<open>size_t\<close> arithmetic.
\<close>

function expand_loop ::
  "(nat \<Rightarrow> bool) \<Rightarrow> char \<Rightarrow> csh_env \<Rightarrow> string \<Rightarrow> nat \<Rightarrow> char list \<Rightarrow> nat \<Rightarrow> nat \<Rightarrow> nat \<Rightarrow> bool
     \<Rightarrow> (char list option \<times> nat) c_result"
where
  "expand_loop alloc junk env input idx res res_len res_idx var_s in_var =
     (if idx < length input then
        if \<not> in_var then
          if idx < size_minus (length input) 2 \<and> char_at input idx = CHR ''$'' \<and>
             char_at input (idx + 1) = CHR ''(''
          then expand_loop alloc junk env input (idx + 1) res res_len res_idx (idx + 2) True
          else
            (case csh_copy_char_and_grow alloc junk res res_idx res_len (char_at input idx) of
               Inl f \<Rightarrow> Inl f
             | Inr (None, res_len) \<Rightarrow> Inr (None, res_idx)
             | Inr (Some res, res_len) \<Rightarrow>
                 expand_loop alloc junk env input (idx + 1) res res_len (res_idx + 1) var_s False)
        else if char_at input idx = CHR '')'' then
          (let var_e = idx; var_name = take (var_e - var_s) (drop var_s input) in
           case csh_getvar env var_name of
             Some var_value \<Rightarrow>
               (case copy_value alloc junk var_value res res_len res_idx of
                  Inl f \<Rightarrow> Inl f
                | Inr (None, res_len, res_idx) \<Rightarrow> Inr (None, res_idx)
                | Inr (Some res, res_len, res_idx) \<Rightarrow>
                    expand_loop alloc junk env input (idx + 1) res res_len res_idx var_e False)
           | None \<Rightarrow> expand_loop alloc junk env input (idx + 1) res res_len res_idx var_e False)
        else expand_loop alloc junk env input (idx + 1) res res_len res_idx var_s True
      else Inr (Some res, res_idx))"
  by pat_completeness auto
termination
  by (relation "measure (\<lambda>(alloc, junk, env, input, idx, rest). length input - idx)") auto

declare expand_loop.simps [simp del]

definition csh_expand_vars ::
  "(nat \<Rightarrow> bool) \<Rightarrow> char \<Rightarrow> csh_env \<Rightarrow> string \<Rightarrow> char list option c_result" where
  "csh_expand_vars alloc junk env input =
     (case expand_loop alloc junk env input 0 (input @ [NUL]) (length input) 0 0 False of
        Inl f \<Rightarrow> Inl f
      | Inr (None, _) \<Rightarrow> Inr None
      | Inr (Some res, res_idx) \<Rightarrow>
          (case store_char res res_idx NUL of Inl f \<Rightarrow> Inl f | Inr res \<Rightarrow> Inr (Some res)))"

subsection \<open>The reference: what an expansion is\<close>

definition var_value :: "csh_env \<Rightarrow> string \<Rightarrow> string" where
  "var_value env name = (case csh_getvar env name of None \<Rightarrow> [] | Some v \<Rightarrow> v)"

text \<open>
  A reference starts at \<open>$(\<close> that is not the end of the input and runs to the next closing
  bracket; a reference that is never closed swallows the rest of the input.
\<close>

function expand_ref :: "csh_env \<Rightarrow> string \<Rightarrow> string" where
  "expand_ref env [] = []"
| "expand_ref env (c # s) =
     (if c = CHR ''$'' \<and> 2 \<le> length s \<and> hd s = CHR ''('' then
        (let name = takeWhile (\<lambda>x. x \<noteq> CHR '')'') (tl s);
             rest = dropWhile (\<lambda>x. x \<noteq> CHR '')'') (tl s)
         in if rest = [] then [] else var_value env name @ expand_ref env (tl rest))
      else c # expand_ref env s)"
  by pat_completeness auto
termination
proof (relation "measure (\<lambda>(env, s). length s)", goal_cases)
  case (2 env c s name rest)
  have "length (tl (dropWhile (\<lambda>x. x \<noteq> CHR '')'') (tl s))) \<le> length s"
    using length_dropWhile_le [of "\<lambda>x. x \<noteq> CHR '')''" "tl s"] by simp
  then show ?case by (simp add: 2)
qed auto

declare expand_ref.simps(2) [simp del]

subsection \<open>The loop computes the reference, inside its buffer\<close>

text \<open>
  The invariant of the buffer: one byte more than \<open>res_len\<close>, and the write position at most
  \<open>res_len\<close>. \<open>grown\<close> is the postcondition of a copying step: no fault, and unless the buffer was
  lost, the invariant holds and the bytes written are those expected.
\<close>

definition buf_inv :: "char list \<Rightarrow> nat \<Rightarrow> nat \<Rightarrow> bool" where
  "buf_inv res res_len res_idx \<longleftrightarrow> length res = res_len + 1 \<and> res_idx \<le> res_len"

definition grown :: "bool \<Rightarrow> string \<Rightarrow> (char list option \<times> nat \<times> nat) c_result \<Rightarrow> bool" where
  "grown sure out r = (case r of
       Inl f \<Rightarrow> False
     | Inr (None, len, n) \<Rightarrow> \<not> sure
     | Inr (Some b, len, n) \<Rightarrow> buf_inv b len n \<and> take n b = out)"

lemma copy_char_cases:
  assumes "buf_inv res len n"
  obtains (lost) len' where "csh_copy_char_and_grow alloc junk res n len c = Inr (None, len')"
      "\<exists>k. \<not> alloc k"
    | (stored) res' len' where "csh_copy_char_and_grow alloc junk res n len c = Inr (Some res', len')"
      "buf_inv res' len' (Suc n)" "take (Suc n) res' = take n res @ [c]"
proof (cases "n = len")
  case True
  let ?b = "c_realloc junk res (len + 16 + 1)"
  have b: "length ?b = len + 17" "n < length ?b" "take n ?b = take n res"
    using assms True by (simp_all add: c_realloc_def buf_inv_def)
  show thesis
  proof (cases "alloc (len + 16 + 1)")
    case ok: True
    show thesis
      by (rule stored [of "?b[n := c]" "len + 16"])
         (use True ok b in \<open>simp_all add: csh_copy_char_and_grow_def store_char_def buf_inv_def\<close>)
  next
    case False
    then show thesis
      by (intro lost [of "len + 16"]) (use True in \<open>auto simp: csh_copy_char_and_grow_def\<close>)
  qed
next
  case False
  show thesis
    by (rule stored [of "res[n := c]" len])
       (use False assms in \<open>simp_all add: csh_copy_char_and_grow_def store_char_def buf_inv_def\<close>)
qed

lemma copy_value_grown:
  assumes "buf_inv res len n"
  shows "grown (\<forall>k. alloc k) (take n res @ v) (copy_value alloc junk v res len n)"
  using assms
proof (induction v arbitrary: res len n)
  case Nil
  then show ?case by (simp add: grown_def)
next
  case (Cons c cs)
  from Cons.prems show ?case
  proof (cases rule: copy_char_cases [of res len n alloc junk c])
    case (lost len')
    then show ?thesis by (auto simp: grown_def)
  next
    case (stored res' len')
    from Cons.IH [OF stored(2)] stored(1,3) show ?thesis by simp
  qed
qed

text \<open>What a loop that stands inside a reference still produces: the name runs from \<open>var_s\<close>.\<close>

definition pending_ref :: "csh_env \<Rightarrow> string \<Rightarrow> nat \<Rightarrow> nat \<Rightarrow> string" where
  "pending_ref env input idx var_s =
     (let rest = dropWhile (\<lambda>x. x \<noteq> CHR '')'') (drop idx input)
      in if rest = [] then []
         else var_value env (take (length input - length rest - var_s) (drop var_s input)) @
              expand_ref env (tl rest))"

definition loop_done :: "bool \<Rightarrow> string \<Rightarrow> (char list option \<times> nat) c_result \<Rightarrow> bool" where
  "loop_done sure out r = (case r of
       Inl f \<Rightarrow> False
     | Inr (None, n) \<Rightarrow> \<not> sure
     | Inr (Some b, n) \<Rightarrow> n < length b \<and> take n b = out)"

lemma pending_ref_skip:
  assumes "idx < length input" "input ! idx \<noteq> CHR '')''"
  shows "pending_ref env input idx var_s = pending_ref env input (Suc idx) var_s"
  using assms by (simp add: pending_ref_def flip: Cons_nth_drop_Suc)

lemma pending_ref_close:
  assumes "idx < length input" "input ! idx = CHR '')''"
  shows "pending_ref env input idx var_s =
    var_value env (take (idx - var_s) (drop var_s input)) @ expand_ref env (drop (Suc idx) input)"
proof -
  have "drop idx input = CHR '')'' # drop (Suc idx) input"
    using assms by (simp flip: Cons_nth_drop_Suc)
  then show ?thesis using assms(1) by (simp add: pending_ref_def Let_def)
qed

lemma expand_ref_open:
  assumes "idx + 2 < length input" "input ! idx = CHR ''$''" "input ! (Suc idx) = CHR ''(''"
  shows "expand_ref env (drop idx input) = pending_ref env input (Suc idx) (idx + 2)"
proof -
  define t where "t = drop (idx + 2) input"
  let ?P = "\<lambda>x. x \<noteq> CHR '')''"
  have d: "drop idx input = CHR ''$'' # CHR ''('' # t"
    using assms Cons_nth_drop_Suc [of idx input] Cons_nth_drop_Suc [of "Suc idx" input]
    by (simp add: t_def)
  then have d1: "drop (Suc idx) input = CHR ''('' # t"
    using assms Cons_nth_drop_Suc [of "Suc idx" input] by (simp add: t_def)
  obtain n where n: "length input = idx + 2 + n" "n = length t" "1 \<le> n"
    using assms(1) by (auto simp: t_def)
  have "length (takeWhile ?P t) + length (dropWhile ?P t) = n"
    unfolding n(2) by (simp only: takeWhile_dropWhile_id flip: length_append)
  then have k: "length input - length (dropWhile ?P t) - (idx + 2) = length (takeWhile ?P t)"
    using n(1) by simp
  have "take (length input - length (dropWhile ?P t) - (idx + 2)) t = takeWhile ?P t"
    unfolding k by (rule takeWhile_eq_take [symmetric])
  moreover have "drop (idx + 2) input = t" "drop (Suc (Suc idx)) input = t"
    by (simp_all add: t_def)
  ultimately show ?thesis
    using n by (auto simp add: d d1 pending_ref_def expand_ref.simps(2) Let_def)
qed

text \<open>The loop's cases, with its guard decided, so that the proof below unfolds it once per case.\<close>

lemma expand_loop_end:
  "\<not> idx < length input \<Longrightarrow>
   expand_loop alloc junk env input idx res len n var_s in_var = Inr (Some res, n)"
  by (simp add: expand_loop.simps [of alloc junk env input idx])

lemma reference_start_iff:
  assumes "idx < length input"
  shows "idx < size_minus (length input) 2 \<and> char_at input idx = CHR ''$'' \<and>
      char_at input (idx + 1) = CHR ''('' \<longleftrightarrow>
    idx + 2 < length input \<and> input ! idx = CHR ''$'' \<and> input ! Suc idx = CHR ''(''"
  using assms by (cases "2 \<le> length input") (auto simp: char_at_def size_minus_def)

lemma expand_ref_copy:
  assumes "idx < length input"
    and "\<not> (idx + 2 < length input \<and> input ! idx = CHR ''$'' \<and> input ! Suc idx = CHR ''('')"
  shows "expand_ref env (drop idx input) = input ! idx # expand_ref env (drop (Suc idx) input)"
proof -
  have d: "drop idx input = input ! idx # drop (Suc idx) input"
    using assms(1) by (simp add: Cons_nth_drop_Suc)
  show ?thesis
    unfolding d expand_ref.simps(2)
    using assms by (auto simp: hd_drop_conv_nth)
qed

lemma expand_loop_correct:
  assumes "buf_inv res len n"
    and "in_var \<Longrightarrow> var_s \<le> Suc idx \<and> (var_s = Suc idx \<longrightarrow> idx < length input \<and> input ! idx \<noteq> CHR '')'')"
  shows "loop_done (\<forall>k. alloc k)
      (take n res @ (if in_var then pending_ref env input idx var_s else expand_ref env (drop idx input)))
      (expand_loop alloc junk env input idx res len n var_s in_var)"
  using assms
proof (induction alloc junk env input idx res len n var_s in_var rule: expand_loop.induct)
  case (1 alloc junk env input idx res len n var_s in_var)
  note IH_open = "1.IH"(1) and IH_copy = "1.IH"(2) and IH_unset = "1.IH"(3)
    and IH_value = "1.IH"(4) and IH_skip = "1.IH"(5)
  note unfold = expand_loop.simps [of alloc junk env input idx]
  consider (finished) "\<not> idx < length input"
    | (starting) "idx < length input" "\<not> in_var" "idx + 2 < length input"
        "input ! idx = CHR ''$''" "input ! Suc idx = CHR ''(''"
    | (copying) "idx < length input" "\<not> in_var"
        "\<not> (idx + 2 < length input \<and> input ! idx = CHR ''$'' \<and> input ! Suc idx = CHR ''('')"
    | (closing) "idx < length input" "in_var" "input ! idx = CHR '')''"
    | (inside) "idx < length input" "in_var" "input ! idx \<noteq> CHR '')''"
    by blast
  then show ?case
  proof cases
    case finished
    then show ?thesis
      using "1.prems" by (auto simp: expand_loop_end loop_done_def buf_inv_def pending_ref_def)
  next
    case starting
    note start = reference_start_iff [OF starting(1)]
    have "loop_done (\<forall>k. alloc k) (take n res @ pending_ref env input (idx + 1) (idx + 2))
        (expand_loop alloc junk env input (idx + 1) res len n (idx + 2) True)"
      using IH_open [OF starting(1,2)] starting start "1.prems"(1) by simp
    then show ?thesis
      using starting start by (simp add: unfold expand_ref_open)
  next
    case copying
    have no_start: "\<not> (idx < size_minus (length input) 2 \<and> char_at input idx = CHR ''$'' \<and>
        char_at input (idx + 1) = CHR ''('')"
      using reference_start_iff [OF copying(1)] copying(3) by blast
    from "1.prems"(1) show ?thesis
    proof (cases rule: copy_char_cases [of res len n alloc junk "input ! idx"])
      case (lost len')
      then show ?thesis
        using copying no_start by (auto simp: unfold loop_done_def char_at_def)
    next
      case (stored res' len')
      have "loop_done (\<forall>k. alloc k) (take (Suc n) res' @ expand_ref env (drop (idx + 1) input))
          (expand_loop alloc junk env input (idx + 1) res' len' (n + 1) var_s False)"
        using IH_copy [OF copying(1,2) no_start _ refl refl] stored copying(1)
        by (simp add: char_at_def)
      moreover have "expand_loop alloc junk env input idx res len n var_s False =
          expand_loop alloc junk env input (idx + 1) res' len' (n + 1) var_s False"
        unfolding unfold if_not_P [OF no_start] using copying(1) stored(1)
        by (simp add: char_at_def)
      ultimately show ?thesis
        using copying stored(3) by (simp add: expand_ref_copy)
    qed
  next
    case closing
    let ?name = "take (idx - var_s) (drop var_s input)"
    have pend: "pending_ref env input idx var_s =
        var_value env ?name @ expand_ref env (drop (idx + 1) input)"
      using closing by (simp add: pending_ref_close)
    show ?thesis
    proof (cases "csh_getvar env ?name")
      case None
      then show ?thesis
        using IH_unset [OF closing(1) _ _ refl refl None] closing "1.prems"(1) pend
        by (simp add: unfold char_at_def var_value_def Let_def)
    next
      case (Some v)
      have g: "grown (\<forall>k. alloc k) (take n res @ v) (copy_value alloc junk v res len n)"
        using "1.prems"(1) by (rule copy_value_grown)
      from g obtain b len' n' where cp: "copy_value alloc junk v res len n = Inr (b, len', n')"
        by (cases "copy_value alloc junk v res len n") (auto simp: grown_def)
      show ?thesis
      proof (cases b)
        case None
        with g cp closing Some show ?thesis
          by (simp add: unfold char_at_def grown_def loop_done_def Let_def)
      next
        case b: (Some res')
        note IH = IH_value [OF closing(1) _ _ refl refl Some cp refl b refl]
        from IH show ?thesis
          using g cp closing pend Some b
          by (simp add: unfold char_at_def grown_def var_value_def Let_def)
      qed
    qed
  next
    case inside
    then show ?thesis
      using IH_skip inside "1.prems"
      by (simp add: unfold char_at_def pending_ref_skip)
  qed
qed

lemma expand_vars_cases:
  obtains (lost) "csh_expand_vars alloc junk env input = Inr None" "\<exists>k. \<not> alloc k"
    | (expanded) buf where "csh_expand_vars alloc junk env input = Inr (Some buf)"
        "length (expand_ref env input) < length buf"
        "take (length (expand_ref env input)) buf = expand_ref env input"
        "buf ! length (expand_ref env input) = NUL"
proof -
  let ?out = "expand_ref env input"
  have "loop_done (\<forall>k. alloc k) (take 0 (input @ [NUL]) @ ?out)
      (expand_loop alloc junk env input 0 (input @ [NUL]) (length input) 0 0 False)"
    using expand_loop_correct [of "input @ [NUL]" "length input" 0 False 0 0 input alloc env junk]
    by (simp add: buf_inv_def)
  then obtain b n where d: "loop_done (\<forall>k. alloc k) ?out (Inr (b, n))"
    and l: "expand_loop alloc junk env input 0 (input @ [NUL]) (length input) 0 0 False = Inr (b, n)"
    by (cases "expand_loop alloc junk env input 0 (input @ [NUL]) (length input) 0 0 False")
       (auto simp: loop_done_def)
  show thesis
  proof (cases b)
    case None
    then show thesis using l d by (intro lost) (simp_all add: csh_expand_vars_def loop_done_def)
  next
    case (Some buf)
    then have n: "n < length buf" "take n buf = ?out"
      using d by (auto simp: loop_done_def)
    then have "length ?out = n" by (metis length_take min.absorb4)
    note n = n this
    show thesis
      by (rule expanded [of "buf[n := NUL]"])
         (use l Some n in \<open>simp_all add: csh_expand_vars_def store_char_def\<close>)
  qed
qed

lemma expand_vars_string:
  assumes "nul_free (expand_ref env input)"
  shows "\<exists>buf. csh_expand_vars (\<lambda>_. True) junk env input = Inr (Some buf) \<and> c_string buf = expand_ref env input"
proof (rule expand_vars_cases [of "\<lambda>_. True" junk env input])
  fix buf
  assume b: "csh_expand_vars (\<lambda>_. True) junk env input = Inr (Some buf)"
    "length (expand_ref env input) < length buf"
    "take (length (expand_ref env input)) buf = expand_ref env input"
    "buf ! length (expand_ref env input) = NUL"
  have "c_string buf = expand_ref env input"
    using c_string_terminated [OF b(2,4)] b(3) assms by simp
  with b(1) show ?thesis by blast
qed simp

section \<open>Properties\<close>

subsection \<open>The store\<close>

datatype env_op = Put_var string string | Del_var string | Clear_env

fun env_step :: "csh_env \<Rightarrow> env_op \<Rightarrow> csh_env" where
  "env_step env (Put_var n v) = csh_putvar env n v"
| "env_step env (Del_var n) = fst (csh_delvar env n)"
| "env_step env Clear_env = csh_clearenv env"

fun map_step :: "(string \<rightharpoonup> string) \<Rightarrow> env_op \<Rightarrow> (string \<rightharpoonup> string)" where
  "map_step m (Put_var n v) = m(n \<mapsto> v)"
| "map_step m (Del_var n) = m(n := None)"
| "map_step m Clear_env = Map.empty"

lemma env_step_inv: "env_inv env \<Longrightarrow> env_inv (env_step env op)"
  by (cases op) (simp_all add: env_inv_putvar env_inv_delvar, simp add: env_inv_def)

lemma env_step_refines:
  "env_inv env \<Longrightarrow> csh_getvar (env_step env op) = map_step (csh_getvar env) op"
  by (cases op)
     (auto simp: fun_eq_iff env_store.get_put env_store.get_del csh_getvar_map_of [of "[]"])

lemma env_run_refines:
  "env_inv env \<Longrightarrow> env_inv (foldl env_step env ops) \<and>
     csh_getvar (foldl env_step env ops) = foldl map_step (csh_getvar env) ops"
  by (induction ops arbitrary: env) (simp_all add: env_step_inv env_step_refines)

text \<open>
  C6: Starting from the empty store, any sequence of \<open>csh_putvar\<close>, \<open>csh_delvar\<close> and
  \<open>csh_clearenv\<close> leaves a list without duplicate names whose \<open>csh_getvar\<close> is the finite map
  obtained by the corresponding updates, deletions and resets: the linked list implements a map.
\<close>

theorem env_store_refines_map:
  "env_inv (foldl env_step [] ops) \<and>
   csh_getvar (foldl env_step [] ops) = foldl map_step Map.empty ops"
  using env_run_refines [of "[]" ops] by (simp add: env_inv_def csh_getvar_map_of [abs_def])

subsection \<open>Expansion\<close>

text \<open>
  C1: Whichever \<open>realloc\<close> calls fail, \<open>csh_expand_vars\<close> never writes outside its buffer, the terminating NUL
  included, and returns the null pointer only if an allocation failed; a buffer it returns holds the complete
  reference expansion of the input followed by a NUL: every \<open>$(name)\<close> is replaced by the value of the variable
  (by nothing if it is unset), once, and the rest is copied, whatever the input, the store and the contents of
  fresh memory.
\<close>

theorem csh_expand_vars_correct:
  "no_fault (csh_expand_vars alloc junk env input) \<and>
   (csh_expand_vars alloc junk env input = Inr None \<and> (\<exists>k. \<not> alloc k) \<or>
    (\<exists>buf. csh_expand_vars alloc junk env input = Inr (Some buf) \<and>
       take (length (expand_ref env input)) buf = expand_ref env input \<and>
       length (expand_ref env input) < length buf \<and> buf ! length (expand_ref env input) = NUL))"
  by (rule expand_vars_cases [of alloc junk env input]) auto

lemma expand_ref_literal: "CHR ''$'' \<notin> set s \<Longrightarrow> expand_ref env (s @ t) = s @ expand_ref env t"
  by (induction s) (auto simp: expand_ref.simps(2))

lemma expand_ref_reference:
  assumes "CHR '')'' \<notin> set n"
  shows "expand_ref env (''$('' @ n @ '')'' @ t) = var_value env n @ expand_ref env t"
proof -
  let ?P = "\<lambda>x. x \<noteq> CHR '')''"
  have "takeWhile ?P (n @ CHR '')'' # t) = n" "dropWhile ?P (n @ CHR '')'' # t) = CHR '')'' # t"
    using assms by (auto intro!: takeWhile_all_append dropWhile_all_append)
  then show ?thesis by (simp add: expand_ref.simps(2))
qed

lemma expand_reference:
  assumes "CHR ''$'' \<notin> set pre" "CHR '')'' \<notin> set n" "csh_getvar env n = Some v"
    and "nul_free pre" "nul_free v" "nul_free (expand_ref env post)"
  shows "\<exists>buf. csh_expand_vars (\<lambda>_. True) junk env (pre @ ''$('' @ n @ '')'' @ post) = Inr (Some buf) \<and>
    c_string buf = pre @ v @ expand_ref env post"
proof -
  have ref: "expand_ref env (pre @ ''$('' @ n @ '')'' @ post) = pre @ v @ expand_ref env post"
    using assms(1-3) expand_ref_literal [of pre env "''$('' @ n @ '')'' @ post"]
      expand_ref_reference [of n env post] by (simp add: var_value_def)
  then show ?thesis
    using expand_vars_string [of env "pre @ ''$('' @ n @ '')'' @ post" junk] assms(4-6) by simp
qed

text \<open>
  The expansion of a line that sets one reference between a text without \<open>$\<close> and any rest
  is the text, the value of the variable verbatim (a \<open>$(\<close> inside a value is not expanded again),
  and the expansion of the rest; the C string the caller reads is exactly that.
\<close>

theorem csh_expand_vars_reference:
  assumes "CHR ''$'' \<notin> set pre" "CHR '')'' \<notin> set n" "csh_getvar env n = Some v"
    and "nul_free pre" "nul_free v" "nul_free (expand_ref env post)"
  shows "\<exists>buf. csh_expand_vars (\<lambda>_. True) junk env (pre @ ''$('' @ n @ '')'' @ post) = Inr (Some buf) \<and>
    c_string buf = pre @ v @ expand_ref env post"
  using assms by (rule expand_reference)

theorem csh_expand_vars_reference_witness:
  "\<exists>buf. csh_expand_vars (\<lambda>_. True) NUL [(''JB'', ''a$(JB)'')] (''x '' @ ''$('' @ ''JB'' @ '')'' @ '' y'') =
      Inr (Some buf) \<and> c_string buf = ''x a$(JB) y''"
proof -
  have "expand_ref [(''JB'', ''a$(JB)'')] '' y'' = '' y''" by (simp add: expand_ref.simps(2))
  then show ?thesis
    using csh_expand_vars_reference
      [of "''x ''" "''JB''" "[(''JB'', ''a$(JB)'')]" "''a$(JB)''" "'' y''" NUL]
    by (simp add: csh_getvar_def csh_get_env_entry_def)
qed

end
