(* ===== verification/Known_Hosts.thy ===== *)
theory Known_Hosts
  imports Environment
begin

text \<open>
  The table of known hosts of \<open>src/known_hosts.c\<close>: a singly linked list of node addresses with a
  host name, newest first, and the resolution of a command argument that is an address or a name.
  \<open>known_hosts_add\<close> also defines an environment variable named after the host, so the state holds
  the variable store. A host is allocated with \<open>known_host_storage_size\<close> bytes, which an extension
  may enlarge; writing a host into less than \<open>sizeof(host_t)\<close> bytes is a fault.
\<close>

section \<open>The interface of a host table\<close>

text \<open>
  What saving and replaying a table relies on: \<open>name_of\<close> after an \<open>add\<close>. \<open>clip\<close> is what the table
  keeps of a name.
\<close>

locale host_table =
  fixes valid :: "'t \<Rightarrow> bool"
    and name_of :: "'t \<Rightarrow> int \<Rightarrow> string option"
    and add :: "'t \<Rightarrow> int \<Rightarrow> string \<Rightarrow> 't"
    and clip :: "string \<Rightarrow> string"
  assumes valid_add: "valid t \<Longrightarrow> a \<noteq> 0 \<Longrightarrow> valid (add t a n)"
    and name_of_add: "valid t \<Longrightarrow> a \<noteq> 0 \<Longrightarrow>
      name_of (add t a n) b = (if b = a then Some (clip n) else name_of t b)"
begin

lemma name_of_replay:
  "valid t \<Longrightarrow> (\<forall>p \<in> set es. fst p \<noteq> 0) \<Longrightarrow>
   valid (foldl (\<lambda>t p. add t (fst p) (snd p)) t es) \<and>
   name_of (foldl (\<lambda>t p. add t (fst p) (snd p)) t es) b =
     (case map_of (rev es) b of None \<Rightarrow> name_of t b | Some n \<Rightarrow> Some (clip n))"
proof (induction es arbitrary: t)
  case Nil
  then show ?case by simp
next
  case (Cons p es)
  have v: "valid (add t (fst p) (snd p))" using Cons.prems by (simp add: valid_add)
  show ?case
    using Cons.IH [OF v] Cons.prems
    by (auto simp: name_of_add map_of_append map_add_def split: option.split)
qed

end

text \<open>A host table that also resolves names: the newest host with a name wins.\<close>

locale host_directory = host_table valid name_of add clip
  for valid :: "'t \<Rightarrow> bool" and name_of :: "'t \<Rightarrow> int \<Rightarrow> string option"
    and add :: "'t \<Rightarrow> int \<Rightarrow> string \<Rightarrow> 't" and clip :: "string \<Rightarrow> string" +
  fixes node_of :: "'t \<Rightarrow> string \<Rightarrow> int"
  assumes node_of_add: "valid t \<Longrightarrow> a \<noteq> 0 \<Longrightarrow> node_of (add t a n) (clip n) = a"
    and node_of_sound: "valid t \<Longrightarrow> node_of t m \<noteq> - 1 \<Longrightarrow> \<exists>n. name_of t (node_of t m) = Some n"
begin

text \<open>Adding a host and then renaming another leaves the first name resolvable.\<close>

lemma directory_roundtrip:
  "valid t \<Longrightarrow> a \<noteq> 0 \<Longrightarrow> name_of (add t a n) (node_of (add t a n) (clip n)) = Some (clip n)"
  by (simp add: node_of_add name_of_add)

end

section \<open>The table\<close>

record host_s =
  host_node :: int
  host_name :: string

text \<open>\<open>HOSTNAME_MAXLEN\<close>, and \<open>sizeof(host_t)\<close>: an \<open>int\<close>, the name array, padding, a pointer.\<close>

abbreviation HOSTNAME_MAXLEN :: nat where "HOSTNAME_MAXLEN \<equiv> 50"
abbreviation SIZEOF_HOST :: int where "SIZEOF_HOST \<equiv> 64"

record hosts_state =
  known_hosts :: "host_s list"
  host_env :: csh_env
  known_host_storage_size :: int

definition known_host_set_storage_size :: "int \<Rightarrow> hosts_state \<Rightarrow> hosts_state" where
  "known_host_set_storage_size new_size st = st\<lparr>known_host_storage_size := to_uint32 new_size\<rparr>"

definition known_host_get_storage_size :: "hosts_state \<Rightarrow> int" where
  "known_host_get_storage_size st = known_host_storage_size st"

text \<open>The walk that removes every element with the address.\<close>

fun known_hosts_del :: "host_s list \<Rightarrow> int \<Rightarrow> host_s list" where
  "known_hosts_del [] host = []"
| "known_hosts_del (element # rest) host =
     (if host_node element = host then known_hosts_del rest host
      else element # known_hosts_del rest host)"

text \<open>
  \<open>mem\<close> tells whether \<open>calloc\<close> succeeds. The result is the new state and the host returned, \<open>None\<close>
  for the null pointer. \<open>calloc\<close> zeroes the name, so its 50th byte stays the terminator.
\<close>

definition new_host ::
  "bool \<Rightarrow> hosts_state \<Rightarrow> int \<Rightarrow> string \<Rightarrow> (hosts_state \<times> host_s option) c_result" where
  "new_host mem st addr new_name =
     (if \<not> mem then Inr (st, None)
      else if known_host_storage_size st < SIZEOF_HOST then Inl Out_Of_Bounds
      else
        (let buf = strncpy (replicate HOSTNAME_MAXLEN NUL) new_name (HOSTNAME_MAXLEN - 1);
             host = \<lparr>host_node = addr, host_name = c_string buf\<rparr>;
             address_str = show_int (host_node host)
         in Inr (st\<lparr>host_env := csh_putvar (host_env st) (host_name host) address_str,
                    known_hosts := host # known_hosts st\<rparr>, Some host)))"

definition known_hosts_add ::
  "bool \<Rightarrow> hosts_state \<Rightarrow> int \<Rightarrow> string \<Rightarrow> bool \<Rightarrow> (hosts_state \<times> host_s option) c_result" where
  "known_hosts_add mem st addr new_name override_existing =
     (if addr = 0 then Inr (st, None)
      else if override_existing then
        new_host mem (st\<lparr>known_hosts := known_hosts_del (known_hosts st) addr\<rparr>) addr new_name
      else
        (case find (\<lambda>host. host_node host = addr) (known_hosts st) of
           Some host \<Rightarrow> Inr (st, Some host)
         | None \<Rightarrow> new_host mem st addr new_name))"

text \<open>The result code and the caller's buffer, of which \<open>buflen\<close> bytes are written.\<close>

definition known_hosts_get_name ::
  "hosts_state \<Rightarrow> int \<Rightarrow> char list \<Rightarrow> nat \<Rightarrow> (int \<times> char list) c_result" where
  "known_hosts_get_name st find_host buf buflen =
     (case find (\<lambda>host. host_node host = find_host) (known_hosts st) of
        Some host \<Rightarrow>
          if length buf < buflen then Inl Out_Of_Bounds
          else Inr (1, strncpy buf (host_name host) buflen)
      | None \<Rightarrow> Inr (0, buf))"

definition known_hosts_get_node :: "hosts_state \<Rightarrow> string option \<Rightarrow> int" where
  "known_hosts_get_node st find_name =
     (case find_name of
        None \<Rightarrow> - 1
      | Some n \<Rightarrow>
          (case find (\<lambda>host. strncmp_eq n (host_name host) HOSTNAME_MAXLEN) (known_hosts st) of
             Some host \<Rightarrow> host_node host
           | None \<Rightarrow> - 1))"

text \<open>
  The return value and what is stored through \<open>res_ptr\<close>, \<open>None\<close> when nothing is. A number below
  16384 is an address (2), whatever its sign; else the argument is looked up as a name (1).
\<close>

definition get_host_by_addr_or_name :: "hosts_state \<Rightarrow> string \<Rightarrow> int \<times> int option" where
  "get_host_by_addr_or_name st arg =
     (let (node, rest) = strtol 10 arg in
      if node \<noteq> INT32_MAX \<and> node < 16384 \<and> rest = [] then (2, Some (to_int32 node))
      else
        (let node = known_hosts_get_node st (Some arg) in
         if 0 \<le> node then (1, Some (to_int32 node)) else (0, None)))"

text \<open>
  \<open>node_save\<close> writes one command line per host, to standard output or to the file if it can be
  opened (\<open>can_open\<close>).
\<close>

datatype out_file = Stdout | File string

definition save_line :: "host_s \<Rightarrow> string" where
  "save_line host = ''node add -n '' @ show_int (host_node host) @ '' '' @ host_name host @ [CHR 0x0A]"

fun save_lines :: "host_s list \<Rightarrow> string list c_result" where
  "save_lines [] = Inr []"
| "save_lines (host # rest) =
     (if host_node host = 0 then Inl Assert_Failed
      else (case save_lines rest of Inl f \<Rightarrow> Inl f | Inr ls \<Rightarrow> Inr (save_line host # ls)))"

definition node_save ::
  "(string \<Rightarrow> bool) \<Rightarrow> hosts_state \<Rightarrow> string option \<Rightarrow> (out_file \<times> string list) c_result" where
  "node_save can_open st filename =
     (let out = (case filename of
                   Some f \<Rightarrow> if can_open f then File f else Stdout
                 | None \<Rightarrow> Stdout)
      in case save_lines (known_hosts st) of Inl f \<Rightarrow> Inl f | Inr ls \<Rightarrow> Inr (out, ls))"

section \<open>Completion of a host name\<close>

text \<open>
  The shell's line is a NUL-terminated buffer of \<open>line_size\<close> bytes, of which the model keeps the C
  string; \<open>sl_length\<close> and \<open>sl_cursor\<close> are the shell's fields. \<open>token_off\<close> is the offset of the token
  in the line, which reaches to the end of the line. \<open>slash_prefix_length\<close>, the length of the common
  prefix of two strings, belongs to the shell library and is a parameter.
\<close>

record slash_line =
  sl_buffer :: string
  sl_length :: nat
  sl_cursor :: nat
  sl_line_size :: nat

definition set_line :: "slash_line \<Rightarrow> string \<Rightarrow> slash_line c_result" where
  "set_line line text =
     (if length text < sl_line_size line
      then Inr (line\<lparr>sl_buffer := text, sl_length := length text, sl_cursor := length text\<rparr>)
      else Inl Out_Of_Bounds)"

text \<open>
  The rewind: \<open>i\<close> is the offset of \<open>part_to_complete\<close> in the token. It stops behind a space, or at
  the start of the token, whose own first character is not looked at.
\<close>

fun rewind_to_space :: "string \<Rightarrow> nat \<Rightarrow> nat" where
  "rewind_to_space token 0 = 0"
| "rewind_to_space token (Suc i) =
     (if char_at token (Suc i) = CHR '' '' then Suc (Suc i) else rewind_to_space token i)"

definition matching_hosts :: "host_s list \<Rightarrow> string \<Rightarrow> host_s list" where
  "matching_hosts hosts part =
     rev (filter (\<lambda>element. strncmp_eq (host_name element) part (min (length part) (HOSTNAME_MAXLEN - 1))) hosts)"

text \<open>The pass over the matches: the shortest prefix common to two neighbours, and the second of
  those neighbours.\<close>

fun common_prefix ::
  "(string \<Rightarrow> string \<Rightarrow> nat) \<Rightarrow> host_s \<Rightarrow> host_s list \<Rightarrow> nat \<times> host_s option \<Rightarrow> nat \<times> host_s option" where
  "common_prefix slash_prefix_length prev [] acc = acc"
| "common_prefix slash_prefix_length prev (cur # rest) (prefix_len, completion) =
     (let cur_prefix = slash_prefix_length (host_name prev) (host_name cur) in
      common_prefix slash_prefix_length cur rest
        (if cur_prefix < prefix_len then (cur_prefix, Some cur) else (prefix_len, completion)))"

text \<open>
  A name is printed as the format string of \<open>slash_printf\<close>, which gets no further argument: \<open>%%\<close> prints one percent
  sign, any other conversion reads an argument that is not there.
\<close>

fun printf_no_args :: "string \<Rightarrow> string c_result" where
  "printf_no_args [] = Inr []"
| "printf_no_args [c] = (if c = CHR ''%'' then Inl Out_Of_Bounds else Inr [c])"
| "printf_no_args (c # d # rest) =
     (if c \<noteq> CHR ''%'' then map_sum (\<lambda>f. f) ((#) c) (printf_no_args (d # rest))
      else if d = CHR ''%'' then map_sum (\<lambda>f. f) ((#) c) (printf_no_args rest)
      else Inl Out_Of_Bounds)"

fun print_hosts :: "host_s list \<Rightarrow> string list c_result" where
  "print_hosts [] = Inr []"
| "print_hosts (host # rest) =
     (case printf_no_args (host_name host) of
        Inl f \<Rightarrow> Inl f
      | Inr l \<Rightarrow> map_sum (\<lambda>f. f) ((#) l) (print_hosts rest))"

text \<open>
  What is done with the matches: \<open>part_to_complete\<close> is the offset of the word in the line and \<open>part\<close>
  the word. The result is the new line and the lines printed.
\<close>

definition complete_host ::
  "(string \<Rightarrow> string \<Rightarrow> nat) \<Rightarrow> host_s list \<Rightarrow> slash_line \<Rightarrow> nat \<Rightarrow> string \<Rightarrow> (slash_line \<times> string list) c_result"
where
  "complete_host slash_prefix_length matching line part_to_complete part =
     (case matching of
        [] \<Rightarrow> Inr (line, [])
      | [completion] \<Rightarrow>
          (case set_line line (take part_to_complete (sl_buffer line) @ host_name completion) of
             Inl f \<Rightarrow> Inl f
           | Inr line \<Rightarrow> Inr (line, []))
      | prev # rest \<Rightarrow>
          (case print_hosts matching of
             Inl f \<Rightarrow> Inl f
           | Inr names \<Rightarrow>
               (let printed = [] # names;
                    (prefix_len, completion) =
                      common_prefix slash_prefix_length prev rest (nat INT32_MAX, None)
                in if sl_length line = 0 then Inl Out_Of_Bounds
                   else if char_at (sl_buffer line) (sl_length line - 1) \<noteq> CHR '' '' \<and>
                           length part < prefix_len then
                     (case completion of
                        None \<Rightarrow> Inl Null_Deref
                      | Some completion \<Rightarrow>
                          (case set_line line (take (sl_length line - length part) (sl_buffer line) @
                                               take prefix_len (host_name completion)) of
                             Inl f \<Rightarrow> Inl f
                           | Inr line \<Rightarrow> Inr (line, printed)))
                   else Inr (line, printed))))"

definition host_name_completer ::
  "(string \<Rightarrow> string \<Rightarrow> nat) \<Rightarrow> hosts_state \<Rightarrow> slash_line \<Rightarrow> nat \<Rightarrow> (slash_line \<times> string list) c_result" where
  "host_name_completer slash_prefix_length st line token_off =
     (let token = drop token_off (sl_buffer line);
          part_off = rewind_to_space token (min (length token) (sl_length line));
          part = drop part_off token
      in complete_host slash_prefix_length (matching_hosts (known_hosts st) part) line
           (token_off + part_off) part)"

section \<open>The invariant of the table\<close>

definition host_clip :: "string \<Rightarrow> string" where
  "host_clip n = c_string (take (HOSTNAME_MAXLEN - 1) n)"

definition hosts_inv :: "hosts_state \<Rightarrow> bool" where
  "hosts_inv st \<longleftrightarrow>
     distinct (map host_node (known_hosts st)) \<and> 0 \<notin> host_node ` set (known_hosts st) \<and>
     (\<forall>h \<in> set (known_hosts st). length (host_name h) < HOSTNAME_MAXLEN \<and> nul_free (host_name h)) \<and>
     SIZEOF_HOST \<le> known_host_storage_size st \<and> env_inv (host_env st)"

definition name_of_host :: "hosts_state \<Rightarrow> int \<Rightarrow> string option" where
  "name_of_host st a = map_option host_name (find (\<lambda>host. host_node host = a) (known_hosts st))"

definition add_host :: "hosts_state \<Rightarrow> int \<Rightarrow> string \<Rightarrow> hosts_state" where
  "add_host st a n = (case known_hosts_add True st a n True of Inl f \<Rightarrow> st | Inr (st', host) \<Rightarrow> st')"

lemma find_SomeD: "find P xs = Some x \<Longrightarrow> x \<in> set xs \<and> P x"
  by (induction xs) (auto split: if_splits)

lemma host_clip_props [simp]: "nul_free (host_clip n)" "length (host_clip n) < HOSTNAME_MAXLEN"
proof -
  show "nul_free (host_clip n)" by (simp add: host_clip_def)
  have "length (host_clip n) \<le> 49"
    using length_c_string [of "take 49 n"] by (simp add: host_clip_def)
  then show "length (host_clip n) < HOSTNAME_MAXLEN" by simp
qed

lemma host_clip_short: "nul_free n \<Longrightarrow> length n < HOSTNAME_MAXLEN \<Longrightarrow> host_clip n = n"
  by (simp add: host_clip_def)

lemma strncpy_clip:
  "c_string (strncpy (replicate HOSTNAME_MAXLEN NUL) n (HOSTNAME_MAXLEN - 1)) = host_clip n"
proof -
  have "drop (HOSTNAME_MAXLEN - 1) (replicate HOSTNAME_MAXLEN NUL) = replicate 1 NUL"
    by (simp del: replicate.simps)
  then have "strncpy (replicate HOSTNAME_MAXLEN NUL) n (HOSTNAME_MAXLEN - 1) =
      take 49 n @ replicate (49 - length n + 1) NUL"
    unfolding strncpy_def replicate_add by simp
  then show ?thesis by (simp only: c_string_append_NUL host_clip_def) simp
qed

lemma known_hosts_del_filter: "known_hosts_del hs a = filter (\<lambda>h. host_node h \<noteq> a) hs"
  by (induction hs) auto

lemma find_del:
  "find (\<lambda>h. host_node h = b) (known_hosts_del hs a) =
     (if b = a then None else find (\<lambda>h. host_node h = b) hs)"
  by (induction hs) auto

text \<open>What an addition does, all cases decided.\<close>

definition added :: "hosts_state \<Rightarrow> host_s list \<Rightarrow> int \<Rightarrow> string \<Rightarrow> hosts_state" where
  "added st hs a n =
     st\<lparr>known_hosts := \<lparr>host_node = a, host_name = host_clip n\<rparr> # hs,
        host_env := csh_putvar (host_env st) (host_clip n) (show_int a)\<rparr>"

lemma new_host_added:
  "SIZEOF_HOST \<le> known_host_storage_size st \<Longrightarrow>
   new_host mem (st\<lparr>known_hosts := hs\<rparr>) a n =
     Inr (if mem then (added st hs a n, Some \<lparr>host_node = a, host_name = host_clip n\<rparr>)
          else (st\<lparr>known_hosts := hs\<rparr>, None))"
  by (simp only: new_host_def Let_def strncpy_clip) (simp add: added_def)

lemma new_host_added':
  "SIZEOF_HOST \<le> known_host_storage_size st \<Longrightarrow>
   new_host mem st a n =
     Inr (if mem then (added st (known_hosts st) a n, Some \<lparr>host_node = a, host_name = host_clip n\<rparr>)
          else (st, None))"
  using new_host_added [of st mem "known_hosts st" a n] by simp

lemma inv_added:
  "hosts_inv st \<Longrightarrow> a \<noteq> 0 \<Longrightarrow> hosts_inv (added st (known_hosts_del (known_hosts st) a) a n)"
  by (auto simp: hosts_inv_def added_def env_inv_putvar known_hosts_del_filter distinct_map
      intro: inj_on_subset)

lemma inv_deleted: "hosts_inv st \<Longrightarrow> hosts_inv (st\<lparr>known_hosts := known_hosts_del (known_hosts st) a\<rparr>)"
  by (auto simp: hosts_inv_def known_hosts_del_filter distinct_map intro: inj_on_subset)

lemma del_absent: "find (\<lambda>h. host_node h = a) hs = None \<Longrightarrow> known_hosts_del hs a = hs"
  by (auto simp: known_hosts_del_filter find_None_iff intro: filter_True)

lemma known_hosts_add_inv:
  assumes "hosts_inv st" and "known_hosts_add mem st a n ov = Inr (st', h)"
  shows "hosts_inv st'"
proof -
  have size: "SIZEOF_HOST \<le> known_host_storage_size st" using assms(1) by (simp add: hosts_inv_def)
  show ?thesis
    using assms inv_added [OF assms(1), of a n] inv_deleted [OF assms(1), of a]
    by (auto simp: known_hosts_add_def new_host_added [OF size] new_host_added' [OF size] del_absent
        split: if_splits option.splits)
qed

lemma known_hosts_add_ok: "hosts_inv st \<Longrightarrow> \<exists>r. known_hosts_add mem st a n ov = Inr r"
  by (simp add: known_hosts_add_def new_host_added new_host_added' hosts_inv_def split: option.split)

lemma add_host_eq:
  "hosts_inv st \<Longrightarrow> a \<noteq> 0 \<Longrightarrow>
   add_host st a n = added st (known_hosts_del (known_hosts st) a) a n"
  by (simp add: add_host_def known_hosts_add_def new_host_added hosts_inv_def)

lemma name_of_added:
  "name_of_host (added st (known_hosts_del (known_hosts st) a) a n) b =
     (if b = a then Some (host_clip n) else name_of_host st b)"
  by (simp add: name_of_host_def added_def find_del)

lemma node_of_head: "known_hosts_get_node (added st hs a n) (Some (host_clip n)) = a"
  by (simp add: known_hosts_get_node_def added_def strncmp_eq_def)

lemma find_name:
  "name_of_host st a = Some n \<longleftrightarrow>
     (\<exists>h. find (\<lambda>host. host_node host = a) (known_hosts st) = Some h \<and> host_node h = a \<and> host_name h = n)"
  by (auto simp: name_of_host_def dest: find_SomeD)

lemma name_of_node:
  assumes "known_hosts_get_node st (Some m) \<noteq> - 1"
  shows "\<exists>n. name_of_host st (known_hosts_get_node st (Some m)) = Some n"
proof -
  obtain h where h: "h \<in> set (known_hosts st)" "known_hosts_get_node st (Some m) = host_node h"
    using assms by (auto simp: known_hosts_get_node_def split: option.splits dest: find_SomeD)
  then have "find (\<lambda>host. host_node host = host_node h) (known_hosts st) \<noteq> None"
    by (auto simp: find_None_iff)
  with h show ?thesis by (auto simp: name_of_host_def)
qed

interpretation hosts: host_directory hosts_inv name_of_host add_host host_clip
  "\<lambda>st n. known_hosts_get_node st (Some n)"
  by unfold_locales
     (simp_all add: add_host_eq inv_added name_of_added node_of_head name_of_node)

section \<open>Properties\<close>

abbreviation no_hosts :: hosts_state where
  "no_hosts \<equiv> \<lparr>known_hosts = [], host_env = [], known_host_storage_size = SIZEOF_HOST\<rparr>"

text \<open>An addition as a caller makes it, and a run of additions, stopping at a fault.\<close>

datatype host_op = Add_host bool int string bool

fun host_step :: "hosts_state \<Rightarrow> host_op \<Rightarrow> hosts_state c_result" where
  "host_step st (Add_host mem a n ov) =
     (case known_hosts_add mem st a n ov of Inl f \<Rightarrow> Inl f | Inr (st', h) \<Rightarrow> Inr st')"

fun host_run :: "hosts_state \<Rightarrow> host_op list \<Rightarrow> hosts_state c_result" where
  "host_run st [] = Inr st"
| "host_run st (op # ops) = (case host_step st op of Inl f \<Rightarrow> Inl f | Inr st' \<Rightarrow> host_run st' ops)"

text \<open>What the table is for: a partial map from addresses to names. An addition that overrides removes the old name
  before it asks for memory.\<close>

fun name_map_step :: "(int \<rightharpoonup> string) \<Rightarrow> host_op \<Rightarrow> (int \<rightharpoonup> string)" where
  "name_map_step names (Add_host mem a n ov) =
     (if a = 0 \<or> \<not> ov \<and> names a \<noteq> None then names
      else if mem then names(a \<mapsto> host_clip n) else names(a := None))"

lemma name_of_host_None: "name_of_host st a = None \<longleftrightarrow> find (\<lambda>host. host_node host = a) (known_hosts st) = None"
  by (simp add: name_of_host_def)

lemma name_of_deleted:
  "name_of_host (st\<lparr>known_hosts := known_hosts_del (known_hosts st) a\<rparr>) = (name_of_host st)(a := None)"
  by (auto simp: name_of_host_def find_del fun_eq_iff)

lemma host_step_refines:
  assumes inv: "hosts_inv st"
  shows "\<exists>st'. host_step st op = Inr st' \<and> hosts_inv st' \<and> name_of_host st' = name_map_step (name_of_host st) op"
proof (cases op)
  case (Add_host mem a n ov)
  obtain st' h where r: "known_hosts_add mem st a n ov = Inr (st', h)"
    using known_hosts_add_ok [OF inv, of mem a n ov] by auto
  have size: "SIZEOF_HOST \<le> known_host_storage_size st" using inv by (simp add: hosts_inv_def)
  let ?added = "added st (known_hosts_del (known_hosts st) a) a n"
  have put: "name_of_host ?added = (name_of_host st)(a \<mapsto> host_clip n)"
    by (auto simp: name_of_added fun_eq_iff)
  consider (zero) "a = 0" | (present) "a \<noteq> 0" "\<not> ov" "name_of_host st a \<noteq> None"
    | (absent) "a \<noteq> 0" "\<not> ov" "name_of_host st a = None" | (override) "a \<noteq> 0" ov
    by blast
  then have "name_of_host st' = name_map_step (name_of_host st) op"
  proof cases
    case zero
    then show ?thesis using r Add_host by (simp add: known_hosts_add_def)
  next
    case present
    then show ?thesis using r Add_host by (auto simp: known_hosts_add_def name_of_host_None split: option.splits)
  next
    case absent
    then have f: "find (\<lambda>host. host_node host = a) (known_hosts st) = None" by (simp add: name_of_host_None)
    have "(name_of_host st)(a := None) = name_of_host st" using absent(3) by auto
    with absent f show ?thesis
      using r Add_host put by (auto simp: known_hosts_add_def new_host_added' [OF size] del_absent split: if_splits)
  next
    case override
    then show ?thesis
      using r Add_host put by (auto simp: known_hosts_add_def new_host_added [OF size] name_of_deleted split: if_splits)
  qed
  then show ?thesis using known_hosts_add_inv [OF inv r] r Add_host by simp
qed

text \<open>
  C3: The table implements a partial map from addresses to names. Whatever sequence of additions is made to the empty
  table (any addresses, any names, with or without overriding, with or without memory), no fault occurs, the table holds
  the names the map holds, and it keeps its invariant: no address twice, never address 0, every name NUL-terminated
  within its 50 bytes.
\<close>

theorem known_hosts_refines_map:
  "\<exists>st. host_run no_hosts ops = Inr st \<and> hosts_inv st \<and>
     name_of_host st = foldl name_map_step Map.empty ops"
proof -
  have "hosts_inv st \<Longrightarrow> \<exists>st'. host_run st ops = Inr st' \<and> hosts_inv st' \<and>
      name_of_host st' = foldl name_map_step (name_of_host st) ops" for st
  proof (induction ops arbitrary: st)
    case (Cons op ops)
    obtain st' where st': "host_step st op = Inr st'" "hosts_inv st'"
      "name_of_host st' = name_map_step (name_of_host st) op"
      using host_step_refines [OF Cons.prems, of op] by blast
    from Cons.IH [OF st'(2)] show ?case by (simp add: st')
  qed simp
  moreover have "hosts_inv no_hosts" by (simp add: hosts_inv_def env_inv_def)
  moreover have "name_of_host no_hosts = Map.empty" by (simp add: name_of_host_def fun_eq_iff)
  ultimately show ?thesis by metis
qed

text \<open>
  An overriding \<open>known_hosts_add\<close> of a non-zero address succeeds: the address then has the new
  name, cut to 49 characters, the name resolves to the address, every other address keeps the name it
  had, and the environment variable named after the host holds the address in decimal while all other
  variables keep their values.
\<close>

theorem known_hosts_add_overrides:
  assumes "hosts_inv st" "addr \<noteq> 0"
  shows "\<exists>st' h. known_hosts_add True st addr new_name True = Inr (st', Some h) \<and>
     host_node h = addr \<and> host_name h = host_clip new_name \<and>
     known_hosts_get_node st' (Some (host_clip new_name)) = addr \<and>
     (\<forall>b. name_of_host st' b = (if b = addr then Some (host_clip new_name) else name_of_host st b)) \<and>
     (\<forall>v. csh_getvar (host_env st') v =
        (if v = host_clip new_name then Some (show_int addr) else csh_getvar (host_env st) v))"
proof -
  let ?st = "added st (known_hosts_del (known_hosts st) addr) addr new_name"
  have "known_hosts_add True st addr new_name True =
      Inr (?st, Some \<lparr>host_node = addr, host_name = host_clip new_name\<rparr>)"
    using assms by (simp add: known_hosts_add_def new_host_added hosts_inv_def)
  moreover have "csh_getvar (host_env ?st) v =
      (if v = host_clip new_name then Some (show_int addr) else csh_getvar (host_env st) v)" for v
    using env_store.get_put [of "host_env st" "host_clip new_name" "show_int addr" v]
    by (auto simp: added_def)
  ultimately show ?thesis by (simp add: node_of_head name_of_added)
qed

theorem known_hosts_add_overrides_witness:
  "\<exists>st' h. known_hosts_add True
      \<lparr>known_hosts = [\<lparr>host_node = 5, host_name = ''obc''\<rparr>], host_env = [], known_host_storage_size = 64\<rparr>
      5 ''eps'' True = Inr (st', Some h) \<and> host_node h = 5"
  using known_hosts_add_overrides
    [of "\<lparr>known_hosts = [\<lparr>host_node = 5, host_name = ''obc''\<rparr>], host_env = [], known_host_storage_size = 64\<rparr>"
       5 "''eps''"]
  by (auto simp: hosts_inv_def env_inv_def)

text \<open>
  Without overriding, \<open>known_hosts_add\<close> of an address that is known leaves the whole state as it
  was and returns the host it has, whether or not there is memory; and address 0 is refused with the
  state unchanged, overriding or not.
\<close>

lemma known_hosts_add_keeps_existing:
  assumes "name_of_host st addr = Some n" "addr \<noteq> 0"
  shows "(\<exists>h. known_hosts_add mem st addr new_name False = Inr (st, Some h) \<and>
      host_node h = addr \<and> host_name h = n) \<and>
    known_hosts_add mem st 0 new_name ov = Inr (st, None)"
  using assms by (auto simp: known_hosts_add_def find_name)

text \<open>
  A decimal number below 16384 always resolves to that address, even if a host has that name; a
  host just added under a name that is not a number (\<open>strtol\<close> leaves something of it) resolves to its
  address.
\<close>

theorem get_host_by_addr_or_name_resolves:
  assumes "hosts_inv st" "0 < a" "a \<le> INT32_MAX"
    and "nul_free n" "length n < HOSTNAME_MAXLEN" "snd (strtol 10 n) \<noteq> []" "k < 16384"
  shows "get_host_by_addr_or_name st (show_nat k) = (2, Some (int k)) \<and>
    get_host_by_addr_or_name (add_host st a n) n = (1, Some a)"
proof
  have "int k < 16384" using assms(7) by simp
  then show "get_host_by_addr_or_name st (show_nat k) = (2, Some (int k))"
    by (simp add: get_host_by_addr_or_name_def strtol_show_nat_end c_int_simps)
  have "known_hosts_get_node (add_host st a n) (Some n) = a"
    using hosts.node_of_add [of st a n] assms by (simp add: host_clip_short)
  then show "get_host_by_addr_or_name (add_host st a n) n = (1, Some a)"
    using assms by (simp add: get_host_by_addr_or_name_def split_beta c_int_simps)
qed

theorem get_host_by_addr_or_name_resolves_witness:
  "get_host_by_addr_or_name (add_host no_hosts 7 ''obc'') ''obc'' = (1, Some 7) \<and>
   get_host_by_addr_or_name no_hosts (show_nat 12) = (2, Some 12)"
proof -
  have "snd (strtol 10 ''obc'') \<noteq> []" by code_simp
  then show ?thesis
    using get_host_by_addr_or_name_resolves [of no_hosts 7 "''obc''" 12]
    by (simp add: hosts_inv_def env_inv_def)
qed

lemma name_of_host_map:
  "name_of_host st b = map_of (map (\<lambda>h. (host_node h, host_name h)) (known_hosts st)) b"
proof -
  have "map_option host_name (find (\<lambda>h. host_node h = b) hs) =
      map_of (map (\<lambda>h. (host_node h, host_name h)) hs) b" for hs
    by (induction hs) auto
  then show ?thesis by (simp add: name_of_host_def)
qed

lemma replay_restores:
  assumes "hosts_inv st" "hosts_inv t" "known_hosts t = []"
  shows "name_of_host (foldl (\<lambda>t h. add_host t (host_node h) (host_name h)) t (known_hosts st)) =
    name_of_host st"
proof
  fix b
  let ?es = "map (\<lambda>h. (host_node h, host_name h)) (known_hosts st)"
  have d: "distinct (map fst ?es)" using assms(1) by (simp add: hosts_inv_def o_def)
  have clip: "host_clip n = n" if "name_of_host st b = Some n" for n
    using that assms(1) by (auto simp: hosts_inv_def find_name host_clip_short dest!: find_SomeD)
  have "name_of_host (foldl (\<lambda>t p. add_host t (fst p) (snd p)) t ?es) b = name_of_host st b"
  proof -
    have nz: "\<forall>p \<in> set ?es. fst p \<noteq> 0" using assms(1) by (auto simp: hosts_inv_def)
    have "name_of_host t b = None" using assms(3) by (simp add: name_of_host_def)
    then show ?thesis
      using hosts.name_of_replay [OF assms(2) nz, of b] clip
      unfolding map_of_rev [OF d] name_of_host_map [of st b, symmetric]
      by (cases "name_of_host st b") simp_all
  qed
  then show "name_of_host (foldl (\<lambda>t h. add_host t (host_node h) (host_name h)) t (known_hosts st)) b =
      name_of_host st b"
    by (simp add: foldl_map)
qed

lemma save_lines_map: "0 \<notin> host_node ` set hs \<Longrightarrow> save_lines hs = Inr (map save_line hs)"
  by (induction hs) auto

lemma node_save_lines:
  assumes "hosts_inv st"
  shows "node_save can_open st filename =
      Inr (case filename of Some f \<Rightarrow> if can_open f then File f else Stdout | None \<Rightarrow> Stdout,
           map save_line (known_hosts st))"
  using assms by (simp add: node_save_def hosts_inv_def save_lines_map)

text \<open>
  \<open>node_save\<close> writes one line per host to its file, or to standard output when there is no file or
  it cannot be opened; adding the hosts of those lines, in the order in which they are written, to any
  table without hosts restores the name of every address.
\<close>

theorem node_save_restores:
  assumes "hosts_inv st" "hosts_inv t" "known_hosts t = []"
  shows "node_save can_open st filename =
      Inr (case filename of Some f \<Rightarrow> if can_open f then File f else Stdout | None \<Rightarrow> Stdout,
           map save_line (known_hosts st)) \<and>
    name_of_host (foldl (\<lambda>t h. add_host t (host_node h) (host_name h)) t (known_hosts st)) =
      name_of_host st"
  using node_save_lines [OF assms(1)] replay_restores [OF assms] by blast

theorem node_save_restores_witness:
  "node_save (\<lambda>f. False) (no_hosts\<lparr>known_hosts := [\<lparr>host_node = 5, host_name = ''obc''\<rparr>]\<rparr>) (Some ''f'') =
    Inr (Stdout, [save_line \<lparr>host_node = 5, host_name = ''obc''\<rparr>])"
  using node_save_restores
    [of "no_hosts\<lparr>known_hosts := [\<lparr>host_node = 5, host_name = ''obc''\<rparr>]\<rparr>" no_hosts "\<lambda>f. False" "Some ''f''"]
  by (auto simp: hosts_inv_def env_inv_def)

subsection \<open>Completion\<close>

lemma rewind_to_space_le: "i \<le> length token \<Longrightarrow> rewind_to_space token i \<le> length token"
  by (induction i) (auto simp: char_at_def split: if_splits)

lemma take_eq_mono: "take m a = take m b \<Longrightarrow> k \<le> m \<Longrightarrow> take k a = take k b"
  by (metis min.absorb1 take_take)

text \<open>The shell library's \<open>slash_prefix_length\<close> as documented: the length of the longest common prefix.\<close>

definition measures_prefix :: "(string \<Rightarrow> string \<Rightarrow> nat) \<Rightarrow> bool" where
  "measures_prefix spl \<longleftrightarrow> (\<forall>a b. spl a b = length (longest_common_prefix a b))"

lemma measured_prefix:
  assumes "measures_prefix spl"
  shows "take (spl a b) a = take (spl a b) b" "spl a b \<le> length b"
proof -
  define p where "p = longest_common_prefix a b"
  have "prefix p a" "prefix p b"
    by (simp_all add: p_def longest_common_prefix_prefix1 longest_common_prefix_prefix2)
  then obtain u v where "a = p @ u" "b = p @ v" by (auto simp: prefix_def)
  moreover have "spl a b = length p" using assms by (simp add: measures_prefix_def p_def)
  ultimately show "take (spl a b) a = take (spl a b) b" "spl a b \<le> length b" by simp_all
qed

lemma common_prefix_shared:
  assumes "measures_prefix spl" "common_prefix spl prev rest acc = (k', c')"
  shows "k' \<le> fst acc \<and> (\<forall>h \<in> set rest. take k' (host_name h) = take k' (host_name prev)) \<and>
    (k' < fst acc \<longrightarrow> (\<exists>h \<in> set rest. c' = Some h \<and> k' \<le> length (host_name h))) \<and>
    (k' = fst acc \<longrightarrow> c' = snd acc) \<and> (rest \<noteq> [] \<longrightarrow> k' \<le> length (host_name (hd rest)))"
  using assms(2)
proof (induction rest arbitrary: prev acc)
  case Nil
  then show ?case by simp
next
  case (Cons cur rest)
  define m where "m = spl (host_name prev) (host_name cur)"
  note m = measured_prefix [OF assms(1), of "host_name prev" "host_name cur", folded m_def]
  define j where "j = (if m < fst acc then (m, Some cur) else acc)"
  have r: "common_prefix spl cur rest j = (k', c')"
    using Cons.prems by (cases acc) (simp add: j_def m_def Let_def split: if_splits)
  note IH = Cons.IH [OF r]
  have le: "k' \<le> m" "k' \<le> fst acc" "fst j \<le> fst acc"
    using IH by (auto simp: j_def split: if_splits)
  have head: "take k' (host_name cur) = take k' (host_name prev)"
    using take_eq_mono [OF m(1) le(1)] by simp
  have "\<exists>h \<in> set (cur # rest). c' = Some h \<and> k' \<le> length (host_name h)" if "k' < fst acc"
  proof (cases "k' < fst j")
    case True
    then show ?thesis using IH by auto
  next
    case False
    then have "c' = snd j" "j \<noteq> acc" using IH that by auto
    then show ?thesis using le m(2) by (auto simp: j_def split: if_splits)
  qed
  moreover have "c' = snd acc" if "k' = fst acc"
  proof -
    have "j = acc" using le(1) that by (simp add: j_def)
    then show ?thesis using IH that by simp
  qed
  ultimately show ?case using IH head le m(2) by auto
qed

text \<open>A name without a percent sign is printed as it is.\<close>

lemma printf_plain: "CHR ''%'' \<notin> set n \<Longrightarrow> printf_no_args n = Inr n"
  by (induction n rule: printf_no_args.induct) auto

lemma print_hosts_plain:
  "(\<And>h. h \<in> set hs \<Longrightarrow> CHR ''%'' \<notin> set (host_name h)) \<Longrightarrow> print_hosts hs = Inr (map host_name hs)"
  by (induction hs) (simp_all add: printf_plain)

lemma complete_host_many:
  assumes "common_prefix spl prev (cur # rest) (nat INT32_MAX, None) = (k, Some h)" "sl_length line \<noteq> 0"
    and "\<And>h. h \<in> set (prev # cur # rest) \<Longrightarrow> CHR ''%'' \<notin> set (host_name h)"
  shows "complete_host spl (prev # cur # rest) line off part =
    (if char_at (sl_buffer line) (sl_length line - 1) \<noteq> CHR '' '' \<and> length part < k then
       (case set_line line (take (sl_length line - length part) (sl_buffer line) @ take k (host_name h)) of
          Inl f \<Rightarrow> Inl f
        | Inr line \<Rightarrow> Inr (line, [] # map host_name (prev # cur # rest)))
     else Inr (line, [] # map host_name (prev # cur # rest)))"
proof -
  have p: "print_hosts (prev # cur # rest) = Inr (map host_name (prev # cur # rest))"
    by (rule print_hosts_plain) (rule assms(3))
  show ?thesis unfolding complete_host_def Let_def list.case assms(1) p sum.case using assms(2) by simp
qed

lemma list_two_cases [case_names Nil One More]:
  obtains "xs = []" | x where "xs = [x]" | x y ys where "xs = x # y # ys"
  by (cases xs; cases "tl xs") auto

text \<open>With several hosts the line is extended to what all their names share.\<close>

lemma complete_host_extends:
  assumes "measures_prefix spl" "sl_length line = length (sl_buffer line)" "sl_buffer line \<noteq> []"
    and "length (sl_buffer line) + HOSTNAME_MAXLEN \<le> sl_line_size line"
    and buf: "sl_buffer line = front @ part"
    and ms: "ms = prev # cur # rest"
      "\<And>h. h \<in> set ms \<Longrightarrow> prefix part (host_name h) \<and> length (host_name h) < HOSTNAME_MAXLEN"
    and fmt: "\<And>h. h \<in> set ms \<Longrightarrow> CHR ''%'' \<notin> set (host_name h)"
  shows "\<exists>line' w. complete_host spl ms line off part = Inr (line', [] # map host_name ms) \<and>
    sl_buffer line' = front @ w \<and> prefix part w \<and> (\<forall>h \<in> set ms. prefix w (host_name h)) \<and>
    sl_length line' = length (sl_buffer line')"
proof -
  obtain k c where kc: "common_prefix spl prev (cur # rest) (nat INT32_MAX, None) = (k, c)" by fastforce
  note cp = common_prefix_shared [OF assms(1) kc]
  have "k < HOSTNAME_MAXLEN" using cp ms(2) [of cur] ms(1) by auto
  then obtain h where h: "c = Some h" "h \<in> set (cur # rest)" "k \<le> length (host_name h)" using cp by auto
  have all: "prefix (take k (host_name h)) (host_name g)" if "g \<in> set ms" for g
  proof -
    have "take k (host_name g) = take k (host_name h)" using cp that h(2) ms(1) by auto
    then show ?thesis by (metis take_is_prefix)
  qed
  have ext: "prefix part (take k (host_name h))" if "length part < k"
    using that ms(2) [of h] ms(1) h by (auto simp: prefix_def)
  have room: "length (front @ take k (host_name h)) < sl_line_size line"
    using h(3) \<open>k < HOSTNAME_MAXLEN\<close> buf assms(4) by simp
  have "sl_length line \<noteq> 0" using assms(2,3) by simp
  note many = complete_host_many [OF kc [unfolded h(1)] this, of off part, folded ms(1), OF fmt]
  show ?thesis
  proof (cases "char_at (sl_buffer line) (sl_length line - 1) \<noteq> CHR '' '' \<and> length part < k")
    case True
    have "take (sl_length line - length part) (sl_buffer line) = front" using assms(2) buf by simp
    with True many room all ext show ?thesis by (auto simp: set_line_def)
  next
    case False
    then show ?thesis using many assms(2) buf ms(2) by (auto intro!: exI [of _ part])
  qed
qed

text \<open>Completing the first letter of two names with a percent sign reads an argument that was not passed.\<close>

lemma host_name_completer_format:
  "complete_host spl [\<lparr>host_node = 5, host_name = ''a%s''\<rparr>, \<lparr>host_node = 6, host_name = ''ab''\<rparr>] line off part =
     Inl Out_Of_Bounds"
  by (simp add: complete_host_def)

text \<open>
  C25: On a table that satisfies its invariant and a non-empty line with room for a name, completing a last word of at
  most 49 characters does not fault if no name that starts with it holds a percent sign (the names are printed as
  format strings). If some known host starts with the word, the word is extended, never cut, to a prefix of every such
  host's name, and to the whole name if there is only one; the rest of the line stays, and the length is that of the
  new line. If there is none, the line is unchanged. The names are printed, as they are, if there are several.
\<close>

theorem host_name_completer_extends:
  assumes "hosts_inv st" "measures_prefix slash_prefix_length"
    and "sl_length line = length (sl_buffer line)" "sl_buffer line \<noteq> []"
    and "length (sl_buffer line) + HOSTNAME_MAXLEN \<le> sl_line_size line"
    and "token_off \<le> length (sl_buffer line)"
    and "part_off = rewind_to_space (drop token_off (sl_buffer line)) (length (drop token_off (sl_buffer line)))"
    and "part = drop part_off (drop token_off (sl_buffer line))" "length part < HOSTNAME_MAXLEN"
    and "\<forall>h \<in> set (matching_hosts (known_hosts st) part). CHR ''%'' \<notin> set (host_name h)"
  shows "\<exists>line' printed. host_name_completer slash_prefix_length st line token_off = Inr (line', printed) \<and>
    (case matching_hosts (known_hosts st) part of
       [] \<Rightarrow> line' = line \<and> printed = []
     | matching \<Rightarrow>
         printed = (if length matching = 1 then [] else [] # map host_name matching) \<and>
         (\<exists>w. sl_buffer line' = take (token_off + part_off) (sl_buffer line) @ w \<and> prefix part w \<and>
           (\<forall>h \<in> set matching. prefix w (host_name h)) \<and>
           (length matching = 1 \<longrightarrow> w = host_name (hd matching)) \<and>
           sl_length line' = length (sl_buffer line')))"
proof -
  let ?buf = "sl_buffer line"
  let ?ms = "matching_hosts (known_hosts st) part"
  have "part_off \<le> length (drop token_off ?buf)"
    unfolding assms(7) by (rule rewind_to_space_le) simp
  then have buf: "?buf = take (token_off + part_off) ?buf @ part"
    by (simp add: assms(8) add.commute)
  have eq: "host_name_completer slash_prefix_length st line token_off =
      complete_host slash_prefix_length ?ms line (token_off + part_off) part"
    using assms(3) unfolding host_name_completer_def Let_def assms(8) assms(7) by simp
  have ms: "prefix part (host_name h) \<and> length (host_name h) < HOSTNAME_MAXLEN" if "h \<in> set ?ms" for h
  proof -
    have "take (length part) (host_name h) = part" "length (host_name h) < HOSTNAME_MAXLEN"
      using that assms(1,9) by (auto simp: matching_hosts_def strncmp_eq_def hosts_inv_def)
    then show ?thesis using take_is_prefix by metis
  qed
  show ?thesis
  proof (cases ?ms rule: list_two_cases)
    case Nil
    then show ?thesis by (simp add: eq complete_host_def)
  next
    case (One prev)
    have "length (take (token_off + part_off) ?buf) \<le> length ?buf" by simp
    then show ?thesis using One ms [of prev] assms(5) by (simp add: eq complete_host_def set_line_def del: length_take)
  next
    case (More prev cur rest)
    have fmt: "CHR ''%'' \<notin> set (host_name h)" if "h \<in> set ?ms" for h using that assms(10) by blast
    from complete_host_extends [OF assms(2-5) buf More ms fmt] More show ?thesis by (fastforce simp: eq)
  qed
qed

abbreviation completion_hosts :: hosts_state where
  "completion_hosts \<equiv>
     \<lparr>known_hosts = [\<lparr>host_node = 5, host_name = ''obc1''\<rparr>, \<lparr>host_node = 6, host_name = ''obc2''\<rparr>],
      host_env = [], known_host_storage_size = 64\<rparr>"

theorem host_name_completer_extends_witness:
  "\<exists>line' printed. host_name_completer (\<lambda>a b. length (longest_common_prefix a b)) completion_hosts
      \<lparr>sl_buffer = ''node ob'', sl_length = 7, sl_cursor = 7, sl_line_size = 100\<rparr> 5 = Inr (line', printed) \<and>
    (\<exists>w. sl_buffer line' = ''node '' @ w \<and> prefix ''ob'' w \<and> prefix w ''obc1'' \<and> prefix w ''obc2'')"
proof -
  have len: "length (drop 5 ''node ob'') = 2" by simp
  have off: "rewind_to_space (drop 5 ''node ob'') (length (drop 5 ''node ob'')) = 0"
    unfolding len numeral_2_eq_2 by (simp add: char_at_def)
  have "matching_hosts (known_hosts completion_hosts) ''ob'' =
      [\<lparr>host_node = 6, host_name = ''obc2''\<rparr>, \<lparr>host_node = 5, host_name = ''obc1''\<rparr>]"
    by (simp add: matching_hosts_def strncmp_eq_def)
  then show ?thesis
    using host_name_completer_extends
      [of completion_hosts "\<lambda>a b. length (longest_common_prefix a b)"
        "\<lparr>sl_buffer = ''node ob'', sl_length = 7, sl_cursor = 7, sl_line_size = 100\<rparr>" 5 0 "''ob''"] off
    by (auto simp: hosts_inv_def env_inv_def measures_prefix_def)
qed

end
