(* ===== verification/Run_Environment.thy ===== *)
theory Run_Environment
  imports Environment
begin

text \<open>
  The hooks around the \<open>run\<close> command of \<open>src/slash_run_environment.c\<close>: before a script is run they
  save the two variables that name the script and its directory and set them for the script, after it
  they put back what was saved. \<open>alloc\<close> tells whether the context can be allocated; \<open>realpath\<close> is the
  C library's resolution of a path, \<open>None\<close> on failure, and gives a path shorter than \<open>PATH_MAX\<close>.
\<close>

abbreviation ENV_FILE :: string where "ENV_FILE \<equiv> ''__FILE__''"
abbreviation ENV_FILE_DIR :: string where "ENV_FILE_DIR \<equiv> ''__FILE_DIR__''"

record run_context_t =
  old_file :: "string option"
  old_file_dir :: "string option"

text \<open>The variables set for the script: its path, and the path cut at its last slash. A path without a
  slash makes the code write through the null pointer that \<open>strrchr\<close> returns.\<close>

definition set_run_variables ::
  "(string \<Rightarrow> string option) \<Rightarrow> csh_env \<Rightarrow> string \<Rightarrow> csh_env c_result" where
  "set_run_variables realpath env filename =
     (let pathbuf = (case realpath filename of None \<Rightarrow> [] | Some p \<Rightarrow> p);
          env = csh_putvar env ENV_FILE pathbuf
      in if 0 < length pathbuf then
           (case strrchr_index pathbuf CHR ''/'' of
              None \<Rightarrow> Inl Null_Deref
            | Some last_slash \<Rightarrow> Inr (csh_putvar env ENV_FILE_DIR (take last_slash pathbuf)))
         else Inr (csh_putvar env ENV_FILE_DIR pathbuf))"

definition slash_on_run_pre_hook ::
  "bool \<Rightarrow> (string \<Rightarrow> string option) \<Rightarrow> csh_env \<Rightarrow> string \<Rightarrow> (csh_env \<times> run_context_t option) c_result" where
  "slash_on_run_pre_hook alloc realpath env filename =
     (let post_ctx = (if alloc then Some \<lparr>old_file = csh_getvar env ENV_FILE,
                                          old_file_dir = csh_getvar env ENV_FILE_DIR\<rparr>
                      else None)
      in case set_run_variables realpath env filename of
           Inl f \<Rightarrow> Inl f
         | Inr env \<Rightarrow> Inr (env, post_ctx))"

definition slash_on_run_post_hook :: "csh_env \<Rightarrow> run_context_t option \<Rightarrow> csh_env" where
  "slash_on_run_post_hook env ctx =
     (case ctx of
        None \<Rightarrow> env
      | Some restore_context \<Rightarrow>
          (let env = (case old_file restore_context of
                        None \<Rightarrow> fst (csh_delvar env ENV_FILE)
                      | Some f \<Rightarrow> csh_putvar env ENV_FILE f)
           in case old_file_dir restore_context of
                None \<Rightarrow> fst (csh_delvar env ENV_FILE_DIR)
              | Some d \<Rightarrow> csh_putvar env ENV_FILE_DIR d))"

text \<open>A \<open>run\<close> command: the shell library calls the hooks around the script, here any function on the
  store.\<close>

definition slash_run ::
  "bool \<Rightarrow> (string \<Rightarrow> string option) \<Rightarrow> csh_env \<Rightarrow> string \<Rightarrow> (csh_env \<Rightarrow> csh_env) \<Rightarrow> csh_env c_result" where
  "slash_run alloc realpath env filename script =
     (case slash_on_run_pre_hook alloc realpath env filename of
        Inl f \<Rightarrow> Inl f
      | Inr (env, ctx) \<Rightarrow> Inr (slash_on_run_post_hook (script env) ctx))"

section \<open>Properties\<close>

lemma strrchr_index_last:
  "CHR ''/'' \<notin> set base \<Longrightarrow> strrchr_index (dir @ CHR ''/'' # base) CHR ''/'' = Some (length dir)"
proof -
  assume "CHR ''/'' \<notin> set base"
  then have "takeWhile (\<lambda>x. x \<noteq> CHR ''/'') (rev base @ CHR ''/'' # rev dir) = rev base"
    by (intro takeWhile_all_append) auto
  then show ?thesis by (simp add: strrchr_index_def)
qed

lemma pre_hook_gets:
  assumes "realpath filename = Some (dir @ CHR ''/'' # base)" "CHR ''/'' \<notin> set base"
  shows "\<exists>env' ctx. slash_on_run_pre_hook alloc realpath env filename = Inr (env', ctx) \<and>
    csh_getvar env' ENV_FILE = Some (dir @ CHR ''/'' # base) \<and> csh_getvar env' ENV_FILE_DIR = Some dir \<and>
    (\<forall>v. v \<noteq> ENV_FILE \<and> v \<noteq> ENV_FILE_DIR \<longrightarrow> csh_getvar env' v = csh_getvar env v)"
  using assms
  by (simp add: slash_on_run_pre_hook_def set_run_variables_def strrchr_index_last env_store.get_put Let_def)

text \<open>
  The script of a \<open>run\<close> whose file resolves to \<open>dir/base\<close> sees the full path in \<open>__FILE__\<close>, \<open>dir\<close>
  in \<open>__FILE_DIR__\<close>, and every other variable as it was.
\<close>

theorem run_pre_hook_sets_file:
  assumes "realpath filename = Some (dir @ CHR ''/'' # base)" "CHR ''/'' \<notin> set base"
  shows "\<exists>env' ctx. slash_on_run_pre_hook alloc realpath env filename = Inr (env', ctx) \<and>
    csh_getvar env' ENV_FILE = Some (dir @ CHR ''/'' # base) \<and> csh_getvar env' ENV_FILE_DIR = Some dir \<and>
    (\<forall>v. v \<noteq> ENV_FILE \<and> v \<noteq> ENV_FILE_DIR \<longrightarrow> csh_getvar env' v = csh_getvar env v)"
  using assms by (rule pre_hook_gets)

theorem run_pre_hook_sets_file_witness:
  "\<exists>env' ctx. slash_on_run_pre_hook True (\<lambda>f. Some (''/home/u'' @ CHR ''/'' # f)) [] ''init.csh'' = Inr (env', ctx) \<and>
    csh_getvar env' ENV_FILE_DIR = Some ''/home/u''"
  using run_pre_hook_sets_file
    [of "\<lambda>f. Some (''/home/u'' @ CHR ''/'' # f)" "''init.csh''" "''/home/u''" "''init.csh''" True "[]"]
  by auto

lemma pre_hook_inv:
  assumes "env_inv env" "slash_on_run_pre_hook alloc realpath env filename = Inr (env', ctx)"
  shows "env_inv env' \<and> ctx = (if alloc then Some \<lparr>old_file = csh_getvar env ENV_FILE,
    old_file_dir = csh_getvar env ENV_FILE_DIR\<rparr> else None)"
  using assms
  by (auto simp: slash_on_run_pre_hook_def set_run_variables_def env_inv_putvar Let_def
      split: option.splits if_splits)

lemma post_hook_gets:
  assumes "env_inv env"
  shows "csh_getvar (slash_on_run_post_hook env (Some ctx)) v =
    (if v = ENV_FILE_DIR then old_file_dir ctx else if v = ENV_FILE then old_file ctx
     else csh_getvar env v)"
proof -
  let ?e = "case old_file ctx of None \<Rightarrow> fst (csh_delvar env ENV_FILE) | Some f \<Rightarrow> csh_putvar env ENV_FILE f"
  have "env_inv ?e" by (rule env_store.valid_restore [OF assms])
  then show ?thesis
    using env_store.get_restore [of ?e ENV_FILE_DIR "old_file_dir ctx" v]
      env_store.get_restore [OF assms, of ENV_FILE "old_file ctx" v]
    by (simp add: slash_on_run_post_hook_def Let_def)
qed

text \<open>
  C22: Whatever a script does to the variables, when its \<open>run\<close> returns, \<open>__FILE__\<close> and \<open>__FILE_DIR__\<close> are
  again what they were before, unset if they were unset, and every other variable is as the script left
  it; so a nested \<open>run\<close> does not change the names its caller sees. The memory for the saved values is there; without it the
  values of the script itself stay.
\<close>

theorem run_restores_file_variables:
  assumes "env_inv env" "\<And>e. env_inv e \<Longrightarrow> env_inv (script e)"
    and "slash_on_run_pre_hook True realpath env filename = Inr (inner, ctx)"
  shows "\<exists>after. slash_run True realpath env filename script = Inr after \<and>
    csh_getvar after = (csh_getvar (script inner))
      (ENV_FILE := csh_getvar env ENV_FILE, ENV_FILE_DIR := csh_getvar env ENV_FILE_DIR)"
proof -
  note pre = pre_hook_inv [OF assms(1,3)]
  then have "env_inv (script inner)" using assms(2) by blast
  from post_hook_gets [OF this] pre show ?thesis
    by (auto simp: slash_run_def assms(3) fun_eq_iff)
qed

theorem run_restores_file_variables_witness:
  "\<exists>after. slash_run True (\<lambda>f. Some (''/home/u'' @ CHR ''/'' # f)) [(''__FILE__'', ''/outer'')] ''init.csh''
      (\<lambda>e. csh_putvar e ''__FILE__'' ''spoiled'') = Inr after \<and>
    csh_getvar after ENV_FILE = Some ''/outer'' \<and> csh_getvar after ENV_FILE_DIR = None"
proof -
  let ?realpath = "\<lambda>f. Some (''/home/u'' @ CHR ''/'' # f)" and ?env = "[(''__FILE__'', ''/outer'')]"
  have inv: "env_inv ?env" by (simp add: env_inv_def)
  have "strrchr_index (''/home/u'' @ CHR ''/'' # ''init.csh'') CHR ''/'' = Some (length ''/home/u'')"
    by (rule strrchr_index_last) simp
  then obtain inner ctx where pre: "slash_on_run_pre_hook True ?realpath ?env ''init.csh'' = Inr (inner, ctx)"
    by (simp add: slash_on_run_pre_hook_def set_run_variables_def Let_def)
  have put: "\<And>e. env_inv e \<Longrightarrow> env_inv (csh_putvar e ''__FILE__'' ''spoiled'')"
    by (rule env_inv_putvar)
  show ?thesis
    using run_restores_file_variables [where script = "\<lambda>e. csh_putvar e ''__FILE__'' ''spoiled''", OF inv put pre]
    by (auto simp: csh_getvar_def [of ?env] csh_get_env_entry_def)
qed

end
