(* ===== verification/Slash_Base.thy ===== *)
theory Slash_Base
  imports C_Strings
begin

text \<open>
  What every command handler shares. A handler is a function of the argument vector the shell split
  the line into (\<open>argv\<close>, whose length is \<open>argc\<close>) and returns a result code. The option parser
  \<open>optparse\<close> belongs to the \<open>slash\<close> library, which is not part of the repository: it is a parameter
  of each handler, a function from the initial values of the option variables and the arguments after
  the command name to the index \<open>optparse_parse\<close> returns (negative on an error) and the values of the
  option variables after parsing.
\<close>

datatype slash_ret =
    SLASH_SUCCESS | SLASH_EXIT | SLASH_EUSAGE | SLASH_EINVAL | SLASH_ENOSPC | SLASH_EIO
  | SLASH_ENOMEM | SLASH_EBREAK | SLASH_RESULT int

text \<open>\<open>SLASH_RESULT\<close> carries a code that a handler passes on from the library. The error codes are
  the negative ones.\<close>

fun slash_failed :: "slash_ret \<Rightarrow> bool" where
  "slash_failed SLASH_SUCCESS = False"
| "slash_failed SLASH_EXIT = False"
| "slash_failed (SLASH_RESULT i) = (i < 0)"
| "slash_failed _ = True"

type_synonym 'o optparse = "'o \<Rightarrow> string list \<Rightarrow> int \<times> 'o"

definition optparse_parse :: "'o optparse \<Rightarrow> 'o \<Rightarrow> string list \<Rightarrow> int \<times> 'o" where
  "optparse_parse parser opts argv = parser opts (tl argv)"

abbreviation argc :: "string list \<Rightarrow> int" where
  "argc argv \<equiv> int (length argv)"

text \<open>\<open>slash->argv[i]\<close> for an index that the handler has checked against \<open>argc\<close>.\<close>

definition nth_arg :: "string list \<Rightarrow> int \<Rightarrow> string" where
  "nth_arg argv i = (if 0 \<le> i \<and> i < argc argv then argv ! nat i else [])"

text \<open>The shell's default node and timeout, which most commands take as the initial value of an option.\<close>

record slash_defaults =
  slash_dfl_node :: int
  slash_dfl_timeout :: int

section \<open>Calls into the libraries\<close>

text \<open>
  A handler that calls libraries for their effect (sending packets, printing parameters) is modelled by
  the sequence of its calls. What the outside answers to a call may depend on all calls before it: a
  \<open>world\<close> gives the answer to a call after a sequence of calls. A handler takes the calls made so far and
  returns them extended by its own.
\<close>

type_synonym ('c, 'r) world = "'c list \<Rightarrow> 'c \<Rightarrow> 'r"

definition do_call :: "('c, 'r) world \<Rightarrow> 'c \<Rightarrow> 'c list \<Rightarrow> 'r \<times> 'c list" where
  "do_call w c tr = (w tr c, tr @ [c])"

lemma do_call_simps [simp]: "fst (do_call w c tr) = w tr c" "snd (do_call w c tr) = tr @ [c]"
  by (simp_all add: do_call_def)

end
