(* ===== verification/Require_Version.thy ===== *)
theory Require_Version
  imports Slash_Base
begin

text \<open>
  Version numbers and version constraints of \<open>src/require_version.c\<close>, and the commands of
  \<open>src/require_version_cmd.c\<close> that use them. Versions are compared by the code through a sum of scaled
  parts; the abstract order is the lexicographic one on \<open>semver\<close>.
\<close>

section \<open>Versions\<close>

abbreviation NUM_VERSION_PARTS :: nat where "NUM_VERSION_PARTS \<equiv> 3"

record version_t =
  major :: int
  minor :: int
  patch :: int

definition set_part :: "nat \<Rightarrow> int \<Rightarrow> version_t \<Rightarrow> version_t" where
  "set_part k n v = (if k = 0 then v\<lparr>major := n\<rparr> else if k = 1 then v\<lparr>minor := n\<rparr> else v\<lparr>patch := n\<rparr>)"

text \<open>
  The scanning loop of \<open>parse_version\<close>, at index \<open>i\<close> with the rest of the string. It ends by a
  \<open>return\<close> inside the loop or at the terminator, with the version, the start of the number being
  scanned (\<open>None\<close> for the null pointer) and the number of dots.
\<close>

datatype scan_end = Returned bool version_t | Scanned version_t "string option" nat

fun parse_version_loop ::
  "bool \<Rightarrow> nat \<Rightarrow> string \<Rightarrow> version_t \<Rightarrow> string option \<Rightarrow> nat \<Rightarrow> scan_end c_result" where
  "parse_version_loop allow_suffix i [] v number_start dot_count = Inr (Scanned v number_start dot_count)"
| "parse_version_loop allow_suffix i (c # s) v number_start dot_count =
     (if \<not> dot_count < NUM_VERSION_PARTS then Inl Assert_Failed
      else if c = CHR ''v'' \<or> c = CHR ''V'' then
        (if 0 < i then Inr (Returned False v)
         else parse_version_loop allow_suffix (i + 1) s v None dot_count)
      else if c = CHR ''-'' \<or> c = CHR ''.'' then
        (if number_start = None then Inr (Returned False v)
         else if dot_count + 1 \<ge> NUM_VERSION_PARTS then Inr (Returned allow_suffix v)
         else parse_version_loop allow_suffix (i + 1) s v None (dot_count + 1))
      else if \<not> isdigit c then
        (if c = CHR ''+'' \<and> s = [] then parse_version_loop allow_suffix (i + 1) s v number_start dot_count
         else Inr (Returned False v))
      else if number_start = None then
        (let temp_long_ver = fst (strtol 10 (c # s))
         in if temp_long_ver > INT32_MAX then Inr (Returned False v)
            else parse_version_loop allow_suffix (i + 1) s (set_part dot_count (to_int32 temp_long_ver) v)
                   (Some (c # s)) dot_count)
      else parse_version_loop allow_suffix (i + 1) s v number_start dot_count)"

text \<open>The result and what \<open>version_out\<close> holds afterwards; \<open>None\<close> stands for a null argument.\<close>

definition parse_version ::
  "string option \<Rightarrow> version_t option \<Rightarrow> bool \<Rightarrow> (bool \<times> version_t option) c_result" where
  "parse_version version_str version_out allow_suffix =
     (case (version_str, version_out) of
        (Some str, Some out) \<Rightarrow>
          (case parse_version_loop allow_suffix 0 str \<lparr>major = 0, minor = 0, patch = 0\<rparr> None 0 of
             Inl f \<Rightarrow> Inl f
           | Inr (Returned res v) \<Rightarrow> Inr (res, Some v)
           | Inr (Scanned v None dot_count) \<Rightarrow> Inr (False, Some v)
           | Inr (Scanned v (Some number_start) dot_count) \<Rightarrow>
               if \<not> dot_count < NUM_VERSION_PARTS then Inl Out_Of_Bounds
               else Inr (True, Some (set_part dot_count (atoi number_start) v)))
      | _ \<Rightarrow> Inr (False, version_out))"

section \<open>Constraints\<close>

text \<open>\<open>sizeof(">=v9999.9999.9999")\<close> and \<open>sizeof("==")\<close>, their terminators included.\<close>

abbreviation CONSTRAINT_MAXLEN :: nat where "CONSTRAINT_MAXLEN \<equiv> 18"
abbreviation OPERATOR_MAXLEN :: nat where "OPERATOR_MAXLEN \<equiv> 3"

record clean_state =
  operator_buf :: "char list"
  constraint_buf :: "char list"
  clean_idx :: nat
  dot_count :: nat
  wildcard_arr :: "bool list"

definition is_operator_char :: "char \<Rightarrow> bool" where
  "is_operator_char c \<longleftrightarrow> c = CHR ''<'' \<or> c = CHR ''>'' \<or> c = CHR ''='' \<or> c = CHR ''!''"

definition put_clean :: "char \<Rightarrow> clean_state \<Rightarrow> clean_state" where
  "put_clean c st = st\<lparr>constraint_buf := (constraint_buf st)[clean_idx st := c], clean_idx := clean_idx st + 1\<rparr>"

text \<open>
  The sanitizing loop, at index \<open>dirty_idx\<close> with the rest of the constraint; \<open>None\<close> is its
  \<open>return false\<close>. The code's \<open>clean_idx--\<close> in the branches that store nothing cancels the increment
  of the loop head.
\<close>

fun clean_constraint :: "nat \<Rightarrow> string \<Rightarrow> clean_state \<Rightarrow> clean_state option" where
  "clean_constraint dirty_idx [] st = Some st"
| "clean_constraint dirty_idx (c # s) st =
     (if \<not> (clean_idx st < CONSTRAINT_MAXLEN \<and> dot_count st < NUM_VERSION_PARTS) then Some st
      else if dirty_idx < OPERATOR_MAXLEN \<and> is_operator_char c then
        (let op = (operator_buf st)[dirty_idx := c];
             op = (if c = CHR ''='' then op
                   else take (dirty_idx + 1) op @ replicate (OPERATOR_MAXLEN - (dirty_idx + 1)) NUL)
         in clean_constraint (dirty_idx + 1) s (st\<lparr>operator_buf := op\<rparr>))
      else if c = CHR ''v'' \<or> c = CHR ''V'' then clean_constraint (dirty_idx + 1) s st
      else if c = CHR ''-'' \<or> c = CHR ''.'' then
        (let st = st\<lparr>dot_count := dot_count st + 1\<rparr>
         in if dot_count st \<ge> NUM_VERSION_PARTS then None
            else clean_constraint (dirty_idx + 1) s (put_clean (CHR ''.'') st))
      else if c = CHR ''*'' then
        clean_constraint (dirty_idx + 1) s
          (put_clean (CHR ''0'') (st\<lparr>wildcard_arr := (wildcard_arr st)[dot_count st := True]\<rparr>))
      else if \<not> isdigit c then None
      else clean_constraint (dirty_idx + 1) s (put_clean c st))"

text \<open>\<open>sscanf(constraint, "%d.%d.%d", ...)\<close>: the parts up to the first that does not match.\<close>

definition scan_dot :: "string \<Rightarrow> string option" where
  "scan_dot s = (case s of [] \<Rightarrow> None | c # r \<Rightarrow> if c = CHR ''.'' then Some r else None)"

definition scan_version :: "string \<Rightarrow> version_t \<Rightarrow> version_t" where
  "scan_version s v =
     (case scan_d s of
        None \<Rightarrow> v
      | Some (a, s) \<Rightarrow>
          (let v = v\<lparr>major := a\<rparr> in
           case scan_dot s of
             None \<Rightarrow> v
           | Some s \<Rightarrow>
               (case scan_d s of
                  None \<Rightarrow> v
                | Some (b, s) \<Rightarrow>
                    (let v = v\<lparr>minor := b\<rparr> in
                     case scan_dot s of
                       None \<Rightarrow> v
                     | Some s \<Rightarrow>
                         (case scan_d s of
                            None \<Rightarrow> v
                          | Some (c, s) \<Rightarrow> v\<lparr>patch := c\<rparr>)))))"

abbreviation MAJOR_SCALE :: int where "MAJOR_SCALE \<equiv> 1000000"
abbreviation MINOR_SCALE :: int where "MINOR_SCALE \<equiv> 1000"

text \<open>The sum of the scaled parts up to the first wildcard. No sum of three \<open>int\<close> parts leaves the range
  of \<open>long\<close>.\<close>

definition version_scaled :: "bool list \<Rightarrow> version_t \<Rightarrow> int" where
  "version_scaled wildcards v =
     (if wildcards ! 0 then 0
      else if wildcards ! 1 then major v * MAJOR_SCALE
      else if wildcards ! 2 then major v * MAJOR_SCALE + minor v * MINOR_SCALE
      else major v * MAJOR_SCALE + minor v * MINOR_SCALE + patch v)"

text \<open>The comparison by operator, \<open>None\<close> for an operator the code does not know.\<close>

definition eval_operator :: "string \<Rightarrow> int \<Rightarrow> int \<Rightarrow> bool option" where
  "eval_operator op version constraint =
     (if op = ''=='' then Some (version = constraint)
      else if op = ''!='' then Some (version \<noteq> constraint)
      else if op = ''>='' then Some (version \<ge> constraint)
      else if op = ''<='' then Some (version \<le> constraint)
      else if op = ''>'' then Some (version > constraint)
      else if op = ''<'' then Some (version < constraint)
      else None)"

text \<open>
  \<open>sscanf\<close> reads its buffer up to a terminator, and the diagnostic prints the operator up to one: a
  buffer without one is read beyond its end.
\<close>

definition compare_version :: "version_t option \<Rightarrow> string option \<Rightarrow> bool \<Rightarrow> bool c_result" where
  "compare_version version constraint_dirty verbose =
     (case (version, constraint_dirty) of
        (Some version, Some dirty) \<Rightarrow>
          (case clean_constraint 0 dirty
                  \<lparr>operator_buf = ''=='' @ [NUL], constraint_buf = replicate CONSTRAINT_MAXLEN NUL,
                   clean_idx = 0, dot_count = 0, wildcard_arr = replicate NUM_VERSION_PARTS False\<rparr> of
             None \<Rightarrow> Inr False
           | Some st \<Rightarrow>
               if NUL \<notin> set (constraint_buf st) then Inl Out_Of_Bounds
               else
                 (let constraint_version =
                        scan_version (c_string (constraint_buf st)) \<lparr>major = 0, minor = 0, patch = 0\<rparr>
                  in case eval_operator (c_string (operator_buf st))
                            (version_scaled (wildcard_arr st) version)
                            (version_scaled (wildcard_arr st) constraint_version) of
                       Some res \<Rightarrow> Inr res
                     | None \<Rightarrow>
                         if verbose \<and> NUL \<notin> set (operator_buf st) then Inl Out_Of_Bounds else Inr False))
      | _ \<Rightarrow> Inr False)"

section \<open>The commands\<close>

text \<open>The options of \<open>require version csh\<close>; \<open>version_string\<close> is the tag the build writes.\<close>

record require_opts =
  require_verbose :: bool

definition error_action_result :: "string \<Rightarrow> slash_ret option" where
  "error_action_result error_action =
     (if strcasestr ''quit'' error_action \<noteq> None then Some SLASH_EXIT
      else if strcasestr ''error'' error_action \<noteq> None then Some SLASH_EBREAK
      else if strcasestr ''warn'' error_action \<noteq> None then Some SLASH_EINVAL
      else None)"

definition lower_first :: "string \<Rightarrow> string" where
  "lower_first s = (case s of [] \<Rightarrow> [] | c # cs \<Rightarrow> tolower c # cs)"

definition slash_require_version_csh_cmd ::
  "require_opts optparse \<Rightarrow> string \<Rightarrow> string list \<Rightarrow> slash_ret c_result" where
  "slash_require_version_csh_cmd parser version_string argv =
     (let (argi, opts) = optparse_parse parser \<lparr>require_verbose = False\<rparr> argv
      in if argi < 0 then Inr SLASH_EINVAL
         else if argi + 1 \<ge> argc argv then Inr SLASH_EINVAL
         else if argi + 2 \<ge> argc argv then Inr SLASH_EINVAL
         else
           (let version_constraint = nth_arg argv (argi + 1);
                error_action = lower_first (nth_arg argv (argi + 2))
            in case error_action_result error_action of
                 None \<Rightarrow> Inr SLASH_EINVAL
               | Some err_ret \<Rightarrow>
                   (case parse_version (Some version_string) (Some \<lparr>major = 0, minor = 0, patch = 0\<rparr>) True of
                      Inl f \<Rightarrow> Inl f
                    | Inr (False, _) \<Rightarrow> Inr err_ret
                    | Inr (True, csh_version) \<Rightarrow>
                        (case compare_version csh_version (Some version_constraint) True of
                           Inl f \<Rightarrow> Inl f
                         | Inr False \<Rightarrow> Inr err_ret
                         | Inr True \<Rightarrow> Inr SLASH_SUCCESS))))"

text \<open>The \<open>version\<close> command: the result and what it prints, \<open>build_date\<close> being the compiler's date.\<close>

definition slash_version_cmd ::
  "require_opts optparse \<Rightarrow> string \<Rightarrow> string \<Rightarrow> string list \<Rightarrow> slash_ret \<times> string" where
  "slash_version_cmd parser build_date version_string argv =
     (let (argi, opts) = optparse_parse parser \<lparr>require_verbose = False\<rparr> argv
      in if argi < 0 then (SLASH_EINVAL, [])
         else (SLASH_SUCCESS,
               (if require_verbose opts then ''Compiled: '' @ build_date @ '' '' else []) @
               ''git: '' @ version_string @ [CHR 0x0A]))"

section \<open>Parsing\<close>

text \<open>What holds at every point of the scan: the part being scanned starts with a digit and fits an
  \<open>int\<close>, and all parts are in range.\<close>

definition version_ok :: "version_t \<Rightarrow> bool" where
  "version_ok v \<longleftrightarrow> 0 \<le> major v \<and> major v \<le> INT32_MAX \<and> 0 \<le> minor v \<and> minor v \<le> INT32_MAX \<and>
     0 \<le> patch v \<and> patch v \<le> INT32_MAX"

definition number_ok :: "string option \<Rightarrow> bool" where
  "number_ok ns \<longleftrightarrow> (case ns of None \<Rightarrow> True
     | Some t \<Rightarrow> 0 \<le> fst (strtol 10 t) \<and> fst (strtol 10 t) \<le> INT32_MAX)"

definition scan_ok :: "scan_end c_result \<Rightarrow> bool" where
  "scan_ok r = (case r of Inl f \<Rightarrow> False
     | Inr (Returned b v) \<Rightarrow> version_ok v
     | Inr (Scanned v ns dots) \<Rightarrow> version_ok v \<and> number_ok ns \<and> dots < NUM_VERSION_PARTS)"

lemma version_ok_set_part: "version_ok v \<Longrightarrow> 0 \<le> n \<Longrightarrow> n \<le> INT32_MAX \<Longrightarrow> version_ok (set_part k n v)"
  by (simp add: version_ok_def set_part_def)

lemma parse_version_loop_ok:
  "version_ok v \<Longrightarrow> number_ok ns \<Longrightarrow> dots < NUM_VERSION_PARTS \<Longrightarrow>
   scan_ok (parse_version_loop allow i s v ns dots)"
proof (induction s arbitrary: i v ns dots)
  case Nil
  then show ?case by (simp add: scan_ok_def)
next
  case (Cons c s)
  have num: "isdigit c \<Longrightarrow> 0 \<le> fst (strtol 10 (c # s))"
    by (simp add: strtol_digit_nonneg)
  have none: "number_ok None" by (simp add: number_ok_def)
  show ?case
    using Cons num none
    by (auto simp: scan_ok_def [of "Inr (Returned _ _)"] Let_def version_ok_set_part number_ok_def c_int_simps)
qed

lemma digit_not_special:
  "isdigit c \<Longrightarrow> c \<noteq> CHR ''v'' \<and> c \<noteq> CHR ''V'' \<and> c \<noteq> CHR ''-'' \<and> c \<noteq> CHR ''.'' \<and> c \<noteq> CHR ''*'' \<and>
     \<not> is_operator_char c"
  by (auto simp: isdigit_def code_def is_operator_char_def)

lemma parse_skip_digits:
  assumes "dots < NUM_VERSION_PARTS" "\<forall>c \<in> set ds. isdigit c"
  shows "parse_version_loop allow i (ds @ rest) v (Some t) dots =
    parse_version_loop allow (i + length ds) rest v (Some t) dots"
  using assms(2)
proof (induction ds arbitrary: i)
  case (Cons c ds)
  then show ?case using assms(1) digit_not_special [of c] by simp
qed simp

lemma parse_number:
  assumes "dots < NUM_VERSION_PARTS" "int n \<le> INT32_MAX" "rest = [] \<or> \<not> isdigit (hd rest)"
  shows "parse_version_loop allow i (show_nat n @ rest) v None dots =
    parse_version_loop allow (i + length (show_nat n)) rest (set_part dots (int n) v)
      (Some (show_nat n @ rest)) dots"
proof -
  obtain c cs where s: "show_nat n = c # cs" by (cases "show_nat n") auto
  have d: "isdigit c" "\<forall>c \<in> set cs. isdigit c" using show_nat_digits [of n] s by auto
  have l: "strtol 10 (c # cs @ rest) = (int n, rest)"
    using strtol_show_nat [of n rest] assms s by simp
  have "parse_version_loop allow i (c # cs @ rest) v None dots =
      parse_version_loop allow (Suc i) (cs @ rest) (set_part dots (int n) v) (Some (c # cs @ rest)) dots"
    using assms digit_not_special [OF d(1)] d(1) l by (simp add: c_int_simps)
  then show ?thesis
    using parse_skip_digits [OF assms(1) d(2)] s by simp
qed

lemma parse_dot:
  "dots + 1 < NUM_VERSION_PARTS \<Longrightarrow> sep = CHR ''.'' \<or> sep = CHR ''-'' \<Longrightarrow>
   parse_version_loop allow i (sep # rest) v (Some t) dots =
     parse_version_loop allow (i + 1) rest v None (dots + 1)"
  by auto

lemma parse_three:
  assumes "int a \<le> INT32_MAX" "int b \<le> INT32_MAX" "int c \<le> INT32_MAX"
    and "sep1 = CHR ''.'' \<or> sep1 = CHR ''-''" "sep2 = CHR ''.'' \<or> sep2 = CHR ''-''"
    and "rest = [] \<or> \<not> isdigit (hd rest)"
  shows "\<exists>j > i. parse_version_loop allow i (show_nat a @ sep1 # show_nat b @ sep2 # show_nat c @ rest) v None 0 =
    parse_version_loop allow j rest \<lparr>major = int a, minor = int b, patch = int c\<rparr> (Some (show_nat c @ rest)) 2"
proof -
  have sep: "\<not> isdigit sep1" "\<not> isdigit sep2"
    using assms(4,5) by (auto simp: isdigit_def code_def)
  have v: "set_part (Suc (Suc 0)) z (set_part (Suc 0) y (set_part 0 x v)) = \<lparr>major = x, minor = y, patch = z\<rparr>"
    for x y z by (simp add: set_part_def)
  have "parse_version_loop allow i (show_nat a @ sep1 # show_nat b @ sep2 # show_nat c @ rest) v None 0 =
      parse_version_loop allow
        (Suc (Suc (i + length (show_nat a)) + length (show_nat b)) + length (show_nat c))
        rest \<lparr>major = int a, minor = int b, patch = int c\<rparr> (Some (show_nat c @ rest)) 2"
    using parse_number [of 0 a "sep1 # show_nat b @ sep2 # show_nat c @ rest" allow i v]
      parse_dot [of 0 sep1] parse_dot [of 1 sep2]
      parse_number [of 1 b "sep2 # show_nat c @ rest" allow]
      parse_number [of 2 c rest allow] assms sep
    by (simp add: v numeral_2_eq_2)
  then show ?thesis by (intro exI [of _ "Suc (Suc (i + length (show_nat a)) + length (show_nat b)) + length (show_nat c)"]) simp
qed

text \<open>
  \<open>parse_version\<close> never fails its assertion or writes outside its three parts, whatever the string;
  and the version it leaves always has parts between 0 and the largest \<open>int\<close>.
\<close>

theorem parse_version_safe:
  "\<exists>res v. parse_version (Some str) (Some out) allow_suffix = Inr (res, Some v) \<and> version_ok v"
proof -
  let ?r = "parse_version_loop allow_suffix 0 str \<lparr>major = 0, minor = 0, patch = 0\<rparr> None 0"
  have "scan_ok ?r" by (rule parse_version_loop_ok) (simp_all add: version_ok_def number_ok_def)
  then show ?thesis
    by (cases ?r; (rename_tac e, case_tac e)?)
       (auto simp: parse_version_def scan_ok_def number_ok_def atoi_def c_int_simps version_ok_set_part
             split: option.split)
qed

lemma parse_printed_version:
  assumes "int a \<le> INT32_MAX" "int b \<le> INT32_MAX" "int c \<le> INT32_MAX"
    and "pre \<in> {[], ''v'', ''V''}" "sep1 \<in> {CHR ''.'', CHR ''-''}" "sep2 \<in> {CHR ''.'', CHR ''-''}"
    and "rest = [] \<or> rest = ''+'' \<or> allow_suffix \<and> rest \<noteq> [] \<and> hd rest \<in> {CHR ''.'', CHR ''-''}"
  shows "parse_version (Some (pre @ show_nat a @ sep1 # show_nat b @ sep2 # show_nat c @ rest)) (Some out)
      allow_suffix = Inr (True, Some \<lparr>major = int a, minor = int b, patch = int c\<rparr>)"
proof -
  let ?num = "show_nat a @ sep1 # show_nat b @ sep2 # show_nat c @ rest"
  let ?v = "\<lparr>major = int a, minor = int b, patch = int c\<rparr>"
  have nd: "rest = [] \<or> \<not> isdigit (hd rest)"
    using assms(7) by (auto simp: isdigit_def code_def)
  have start: "\<exists>i. parse_version_loop allow_suffix 0 (pre @ ?num) \<lparr>major = 0, minor = 0, patch = 0\<rparr> None 0 =
      parse_version_loop allow_suffix i ?num \<lparr>major = 0, minor = 0, patch = 0\<rparr> None 0"
    using assms(4) by auto
  then obtain i where i: "parse_version_loop allow_suffix 0 (pre @ ?num) \<lparr>major = 0, minor = 0, patch = 0\<rparr> None 0 =
      parse_version_loop allow_suffix i ?num \<lparr>major = 0, minor = 0, patch = 0\<rparr> None 0" by blast
  obtain j where j: "parse_version_loop allow_suffix i ?num \<lparr>major = 0, minor = 0, patch = 0\<rparr> None 0 =
      parse_version_loop allow_suffix j rest ?v (Some (show_nat c @ rest)) 2"
    using parse_three [OF assms(1-3) _ _ nd, of sep1 sep2 i allow_suffix] assms(5,6) by blast
  have last: "set_part 2 (atoi (show_nat c @ rest)) ?v = ?v"
    using atoi_show_nat [OF assms(3) nd] by (simp add: set_part_def)
  have "parse_version_loop allow_suffix j rest ?v (Some (show_nat c @ rest)) 2 \<in>
      {Inr (Scanned ?v (Some (show_nat c @ rest)) 2), Inr (Returned True ?v)}"
    using assms(7) by (cases rest) (auto simp: isdigit_def code_def)
  then show ?thesis
    using i j last by (auto simp: parse_version_def)
qed

text \<open>
  A printed version parses to itself: a leading \<open>v\<close> or none, three decimal parts separated by dots
  or dashes, and at the end nothing, the dirty mark \<open>+\<close>, or, when suffixes are allowed, a suffix that
  starts with a dot or dash.
\<close>

theorem parse_version_roundtrip:
  assumes "int a \<le> INT32_MAX" "int b \<le> INT32_MAX" "int c \<le> INT32_MAX"
    and "pre \<in> {[], ''v'', ''V''}" "sep1 \<in> {CHR ''.'', CHR ''-''}" "sep2 \<in> {CHR ''.'', CHR ''-''}"
    and "rest = [] \<or> rest = ''+'' \<or> allow_suffix \<and> rest \<noteq> [] \<and> hd rest \<in> {CHR ''.'', CHR ''-''}"
  shows "parse_version (Some (pre @ show_nat a @ sep1 # show_nat b @ sep2 # show_nat c @ rest)) (Some out)
      allow_suffix = Inr (True, Some \<lparr>major = int a, minor = int b, patch = int c\<rparr>)"
  by (rule parse_printed_version [OF assms])

theorem parse_version_roundtrip_witness:
  "parse_version (Some (''v'' @ show_nat 2 @ CHR ''.'' # show_nat 5 @ CHR ''-'' # show_nat 20 @ ''-gabc''))
      (Some \<lparr>major = 0, minor = 0, patch = 0\<rparr>) True = Inr (True, Some \<lparr>major = 2, minor = 5, patch = 20\<rparr>)"
  using parse_version_roundtrip [of 2 5 20 "''v''" "CHR ''.''" "CHR ''-''" "''-gabc''" True
    "\<lparr>major = 0, minor = 0, patch = 0\<rparr>"] by simp

section \<open>Comparing\<close>

text \<open>The order constraints mean: by major, then minor, then patch number.\<close>

datatype semver = Semver int int int

fun semver_key :: "semver \<Rightarrow> int \<times> int \<times> int" where
  "semver_key (Semver a b c) = (a, b, c)"

instantiation semver :: linorder
begin

definition less_eq_semver :: "semver \<Rightarrow> semver \<Rightarrow> bool" where
  "less_eq_semver x y \<longleftrightarrow>
     (case (semver_key x, semver_key y) of ((a, b, c), (a', b', c')) \<Rightarrow>
        a < a' \<or> a = a' \<and> (b < b' \<or> b = b' \<and> c \<le> c'))"

definition less_semver :: "semver \<Rightarrow> semver \<Rightarrow> bool" where
  "less_semver x y \<longleftrightarrow> x \<le> y \<and> \<not> y \<le> (x::semver)"

instance
proof
  fix x y z :: semver
  show "x < y \<longleftrightarrow> x \<le> y \<and> \<not> y \<le> x" by (rule less_semver_def)
  show "x \<le> x" by (cases x) (simp add: less_eq_semver_def)
  show "x \<le> y \<Longrightarrow> y \<le> z \<Longrightarrow> x \<le> z"
    by (cases x; cases y; cases z) (auto simp: less_eq_semver_def)
  show "x \<le> y \<Longrightarrow> y \<le> x \<Longrightarrow> x = y"
    by (cases x; cases y) (auto simp: less_eq_semver_def)
  show "x \<le> y \<or> y \<le> x"
    by (cases x; cases y) (auto simp: less_eq_semver_def)
qed

end

definition semver_of :: "version_t \<Rightarrow> semver" where
  "semver_of v = Semver (major v) (minor v) (patch v)"

text \<open>The parts for which the scaling keeps the order: minor and patch number below 1000.\<close>

definition scalable :: "version_t \<Rightarrow> bool" where
  "scalable v \<longleftrightarrow> 0 \<le> minor v \<and> minor v < 1000 \<and> 0 \<le> patch v \<and> patch v < 1000"

abbreviation no_wildcards :: "bool list" where
  "no_wildcards \<equiv> replicate NUM_VERSION_PARTS False"

lemma version_scaled_order:
  assumes "scalable v" "scalable w"
  shows "version_scaled no_wildcards v \<le> version_scaled no_wildcards w \<longleftrightarrow> semver_of v \<le> semver_of w"
  using assms
  by (simp add: version_scaled_def semver_of_def less_eq_semver_def scalable_def numeral_2_eq_2) arith

lemma version_scaled_eq:
  assumes "scalable v" "scalable w"
  shows "version_scaled no_wildcards v = version_scaled no_wildcards w \<longleftrightarrow> semver_of v = semver_of w"
  using version_scaled_order [OF assms] version_scaled_order [OF assms(2,1)] by auto

lemma version_scaled_less:
  assumes "scalable v" "scalable w"
  shows "version_scaled no_wildcards v < version_scaled no_wildcards w \<longleftrightarrow> semver_of v < semver_of w"
  using version_scaled_order [OF assms(2,1)] by auto

subsection \<open>The sanitized constraint\<close>

definition filled :: "string \<Rightarrow> char list" where
  "filled body = body @ replicate (CONSTRAINT_MAXLEN - length body) NUL"

lemma filled_snoc: "length body < CONSTRAINT_MAXLEN \<Longrightarrow> (filled body)[length body := c] = filled (body @ [c])"
proof -
  assume "length body < CONSTRAINT_MAXLEN"
  then obtain k where "CONSTRAINT_MAXLEN - length body = Suc k" "CONSTRAINT_MAXLEN - Suc (length body) = k"
    by (cases "CONSTRAINT_MAXLEN - length body") auto
  then show ?thesis by (simp add: filled_def list_update_append)
qed

lemma c_string_filled: "nul_free body \<Longrightarrow> c_string (filled body) = body"
  by (simp add: filled_def c_string_append_NUL)

lemma filled_terminated: "length body < CONSTRAINT_MAXLEN \<Longrightarrow> NUL \<in> set (filled body)"
  by (simp add: filled_def)

text \<open>Digits and separators are copied, a dash as a dot, and every separator counts.\<close>

definition undash :: "char \<Rightarrow> char" where
  "undash c = (if c = CHR ''-'' then CHR ''.'' else c)"

definition is_sep :: "char \<Rightarrow> bool" where
  "is_sep c \<longleftrightarrow> c = CHR ''.'' \<or> c = CHR ''-''"

lemma clean_text:
  assumes "constraint_buf st = filled body" "clean_idx st = length body"
    and "length body + length cs < CONSTRAINT_MAXLEN"
    and "dot_count st + length (filter is_sep cs) < NUM_VERSION_PARTS"
    and "\<forall>c \<in> set cs. isdigit c \<or> is_sep c"
  shows "clean_constraint d cs st = Some (st\<lparr>constraint_buf := filled (body @ map undash cs),
    clean_idx := length (body @ cs), dot_count := dot_count st + length (filter is_sep cs)\<rparr>)"
  using assms
proof (induction cs arbitrary: d st body)
  case Nil
  then show ?case by simp
next
  case (Cons c cs)
  define st' where "st' = (if is_sep c then put_clean (CHR ''.'') (st\<lparr>dot_count := dot_count st + 1\<rparr>)
    else put_clean c st)"
  have st': "constraint_buf st' = filled (body @ [undash c])" "clean_idx st' = length (body @ [c])"
      "dot_count st' + length (filter is_sep cs) = dot_count st + length (filter is_sep (c # cs))"
    using Cons.prems by (auto simp: st'_def put_clean_def filled_snoc undash_def is_sep_def)
  have "clean_constraint d (c # cs) st = clean_constraint (d + 1) cs st'"
    using Cons.prems digit_not_special [of c]
    by (auto simp: st'_def is_operator_char_def Let_def is_sep_def)
  also have "\<dots> = Some (st'\<lparr>constraint_buf := filled ((body @ [undash c]) @ map undash cs),
      clean_idx := length ((body @ [undash c]) @ cs), dot_count := dot_count st' + length (filter is_sep cs)\<rparr>)"
    using Cons.prems st' by (intro Cons.IH) auto
  also have "\<dots> = Some (st\<lparr>constraint_buf := filled (body @ map undash (c # cs)),
      clean_idx := length (body @ c # cs), dot_count := dot_count st + length (filter is_sep (c # cs))\<rparr>)"
    by (simp add: st'_def put_clean_def)
  finally show ?case .
qed

abbreviation clean_init :: clean_state where
  "clean_init \<equiv> \<lparr>operator_buf = ''=='' @ [NUL], constraint_buf = replicate CONSTRAINT_MAXLEN NUL,
     clean_idx = 0, dot_count = 0, wildcard_arr = no_wildcards\<rparr>"

text \<open>The comparisons of the documented operators on the abstract versions.\<close>

definition constraint_ops :: "string list" where
  "constraint_ops = [''=='', ''!='', ''>='', ''<='', ''>'', ''<'']"

definition constraint_holds :: "string \<Rightarrow> semver \<Rightarrow> semver \<Rightarrow> bool" where
  "constraint_holds op v w \<longleftrightarrow>
     op = ''=='' \<and> v = w \<or> op = ''!='' \<and> v \<noteq> w \<or> op = ''>='' \<and> v \<ge> w \<or> op = ''<='' \<and> v \<le> w \<or>
     op = ''>'' \<and> v > w \<or> op = ''<'' \<and> v < w"

lemma clean_operator:
  assumes "op \<in> set constraint_ops" "pre \<in> {[], ''v''}"
  shows "clean_constraint 0 (op @ pre @ cs) clean_init =
    clean_constraint (length (op @ pre)) cs (clean_init\<lparr>operator_buf := take 3 (op @ [NUL, NUL])\<rparr>) \<and>
    c_string (take 3 (op @ [NUL, NUL])) = op"
  using assms
  by (auto simp: constraint_ops_def is_operator_char_def c_string_def numeral_2_eq_2 numeral_3_eq_3 Let_def)

lemma scan_version_three:
  assumes "int a \<le> INT32_MAX" "int b \<le> INT32_MAX" "int c \<le> INT32_MAX"
  shows "scan_version (show_nat a @ CHR ''.'' # show_nat b @ CHR ''.'' # show_nat c) v =
    v\<lparr>major := int a, minor := int b, patch := int c\<rparr>"
proof -
  have "\<not> isdigit CHR ''.''" by (simp add: isdigit_def code_def)
  then show ?thesis
    using assms scan_d_show_nat [of c "[]"]
    by (simp add: scan_version_def scan_d_show_nat scan_dot_def)
qed

lemma digits_props:
  "\<forall>c \<in> set ds. isdigit c \<Longrightarrow> map undash ds = ds \<and> filter is_sep ds = []"
  using digit_not_special by (induction ds) (auto simp: undash_def is_sep_def)

lemma compare_text:
  assumes "op \<in> set constraint_ops" "pre \<in> {[], ''v''}" "length cs < CONSTRAINT_MAXLEN"
    and "length (filter is_sep cs) < NUM_VERSION_PARTS" "\<forall>c \<in> set cs. isdigit c \<or> is_sep c"
  shows "compare_version (Some v) (Some (op @ pre @ cs)) verbose =
    (case eval_operator op (version_scaled no_wildcards v)
        (version_scaled no_wildcards (scan_version (map undash cs) \<lparr>major = 0, minor = 0, patch = 0\<rparr>)) of
       Some res \<Rightarrow> Inr res | None \<Rightarrow> Inr False)"
proof -
  obtain d buf where d: "clean_constraint 0 (op @ pre @ cs) clean_init =
      clean_constraint d cs (clean_init\<lparr>operator_buf := buf\<rparr>)" "c_string buf = op"
    using clean_operator [OF assms(1,2)] by blast
  have e: "filled [] = replicate CONSTRAINT_MAXLEN NUL" by (simp add: filled_def)
  have t: "clean_constraint d cs (clean_init\<lparr>operator_buf := buf\<rparr>) =
      Some (clean_init\<lparr>operator_buf := buf, constraint_buf := filled (map undash cs),
        clean_idx := length cs, dot_count := length (filter is_sep cs)\<rparr>)"
    using clean_text [of "clean_init\<lparr>operator_buf := buf\<rparr>" "[]" cs d] assms e by simp
  have n: "nul_free (map undash cs)"
    using assms(5) isdigit_not_NUL by (auto simp: nul_free_def undash_def is_sep_def)
  have "\<exists>res. eval_operator op x y = Some res" for x y
    using assms(1) by (auto simp: constraint_ops_def eval_operator_def)
  then obtain res where "eval_operator op (version_scaled no_wildcards v)
      (version_scaled no_wildcards (scan_version (map undash cs) \<lparr>major = 0, minor = 0, patch = 0\<rparr>)) = Some res"
    by blast
  then show ?thesis
    using d t n assms(3)
    by (simp add: compare_version_def filled_terminated c_string_filled)
qed

lemma compare_printed_constraint:
  assumes "op \<in> set constraint_ops" "pre \<in> {[], ''v''}" "is_sep sep1" "is_sep sep2"
    and "a < 10 ^ 9" "b < 1000" "c < 1000" "scalable v"
  shows "compare_version (Some v)
      (Some (op @ pre @ show_nat a @ sep1 # show_nat b @ sep2 # show_nat c)) verbose =
    Inr (constraint_holds op (semver_of v) (Semver (int a) (int b) (int c)))"
proof -
  let ?cs = "show_nat a @ sep1 # show_nat b @ sep2 # show_nat c"
  let ?w = "\<lparr>major = int a, minor = int b, patch = int c\<rparr>"
  have len: "length (show_nat a) \<le> 9" "length (show_nat b) \<le> 3" "length (show_nat c) \<le> 3"
    using length_show_nat_le [of a 9] length_show_nat_le [of b 3] length_show_nat_le [of c 3] assms(5-7)
    by simp_all
  note dig = digits_props [OF show_nat_digits]
  have cs: "length ?cs < CONSTRAINT_MAXLEN" "length (filter is_sep ?cs) < NUM_VERSION_PARTS"
      "\<forall>c \<in> set ?cs. isdigit c \<or> is_sep c"
    using len dig show_nat_digits assms(3,4) by auto
  have "map undash ?cs = show_nat a @ CHR ''.'' # show_nat b @ CHR ''.'' # show_nat c"
    using dig assms(3,4) by (auto simp: undash_def is_sep_def)
  then have scan: "scan_version (map undash ?cs) \<lparr>major = 0, minor = 0, patch = 0\<rparr> = ?w"
    using assms(5-7) by (simp add: scan_version_three)
  have w: "scalable ?w" using assms(6,7) by (simp add: scalable_def)
  have "eval_operator op (version_scaled no_wildcards v) (version_scaled no_wildcards ?w) =
      Some (constraint_holds op (semver_of v) (semver_of ?w))"
    using assms(1) version_scaled_order [OF assms(8) w] version_scaled_order [OF w assms(8)]
      version_scaled_eq [OF assms(8) w] version_scaled_less [OF assms(8) w] version_scaled_less [OF w assms(8)]
    by (auto simp: constraint_ops_def eval_operator_def constraint_holds_def)
  then show ?thesis
    using compare_text [OF assms(1,2) cs, of v verbose] scan by (simp add: semver_of_def)
qed

text \<open>
  C4: A constraint made of one of the six operators, an optional \<open>v\<close> and three parts separated by dots
  or dashes, with minor and patch number below 1000 and a major number below 1000000000, is decided as
  the lexicographic order of versions says; the scaled sums and the 18-byte buffer do not show.
\<close>

theorem compare_version_lexicographic:
  assumes "op \<in> set constraint_ops" "pre \<in> {[], ''v''}" "is_sep sep1" "is_sep sep2"
    and "a < 10 ^ 9" "b < 1000" "c < 1000" "scalable v"
  shows "compare_version (Some v)
      (Some (op @ pre @ show_nat a @ sep1 # show_nat b @ sep2 # show_nat c)) verbose =
    Inr (constraint_holds op (semver_of v) (Semver (int a) (int b) (int c)))"
  by (rule compare_printed_constraint [OF assms])

theorem compare_version_lexicographic_witness:
  "compare_version (Some \<lparr>major = 2, minor = 5, patch = 20\<rparr>)
      (Some (''>='' @ [] @ show_nat 2 @ CHR ''.'' # show_nat 6 @ CHR ''-'' # show_nat 0)) True = Inr False"
  using compare_version_lexicographic [of "''>=''" "[]" "CHR ''.''" "CHR ''-''" 2 6 0
    "\<lparr>major = 2, minor = 5, patch = 20\<rparr>" True]
  by (simp add: constraint_ops_def is_sep_def scalable_def constraint_holds_def semver_of_def less_eq_semver_def)

text \<open>
  Outside that range the comparison is not the order of versions: 1.1000.0 satisfies \<open>==2.0.0\<close> and
  \<open>>=2.0.0\<close>, although it precedes 2.0.0; and a constraint whose sanitized text has 18 characters fills
  the buffer without a terminator, which \<open>sscanf\<close> then reads beyond its end.
\<close>

theorem compare_version_limits:
  "compare_version (Some \<lparr>major = 1, minor = 1000, patch = 0\<rparr>) (Some ''==2.0.0'') False = Inr True \<and>
   compare_version (Some \<lparr>major = 1, minor = 1000, patch = 0\<rparr>) (Some ''>=2.0.0'') False = Inr True \<and>
   semver_of \<lparr>major = 1, minor = 1000, patch = 0\<rparr> < Semver 2 0 0 \<and>
   compare_version (Some v) (Some ''1.2.34567890123456'') verbose = Inl Out_Of_Bounds"
proof -
  let ?v = "\<lparr>major = 1, minor = 1000, patch = 0\<rparr>"
  have "show_nat 2 = ''2''" "show_nat 0 = ''0''" by code_simp+
  moreover have "eval_operator ''=='' (version_scaled no_wildcards ?v)
      (version_scaled no_wildcards \<lparr>major = 2, minor = 0, patch = 0\<rparr>) = Some True"
    "eval_operator ''>='' (version_scaled no_wildcards ?v)
      (version_scaled no_wildcards \<lparr>major = 2, minor = 0, patch = 0\<rparr>) = Some True"
    by (simp_all add: version_scaled_def eval_operator_def numeral_2_eq_2)
  moreover have "scan_version ''2.0.0'' \<lparr>major = 0, minor = 0, patch = 0\<rparr> = \<lparr>major = 2, minor = 0, patch = 0\<rparr>"
    using scan_version_three [of 2 0 0 "\<lparr>major = 0, minor = 0, patch = 0\<rparr>"] calculation(1,2) by simp
  ultimately have "compare_version (Some ?v) (Some ''==2.0.0'') False = Inr True"
    "compare_version (Some ?v) (Some ''>=2.0.0'') False = Inr True"
    using compare_text [of "''==''" "[]" "''2.0.0''" ?v False]
      compare_text [of "''>=''" "[]" "''2.0.0''" ?v False]
    by (simp_all add: constraint_ops_def is_sep_def isdigit_def code_def undash_def)
  moreover have "semver_of ?v < Semver 2 0 0" by (simp add: semver_of_def less_semver_def less_eq_semver_def)
  moreover have "clean_constraint 0 ''1.2.34567890123456'' clean_init = Some (clean_init\<lparr>
      constraint_buf := ''1.2.34567890123456'', clean_idx := 18, dot_count := 2\<rparr>)"
    by code_simp
  then have "compare_version (Some v) (Some ''1.2.34567890123456'') verbose = Inl Out_Of_Bounds"
    by (simp add: compare_version_def)
  ultimately show ?thesis by blast
qed

subsection \<open>Memory safety of the constraint buffer\<close>

lemma clean_constraint_inv:
  assumes "clean_constraint d s st = Some st'" "constraint_buf st = filled body"
    "clean_idx st = length body" "length body \<le> CONSTRAINT_MAXLEN" "length (operator_buf st) = OPERATOR_MAXLEN"
  shows "(\<exists>body'. constraint_buf st' = filled body' \<and> length body' \<le> length body + length s) \<and>
    ((\<forall>i < length s. d + i = 2 \<longrightarrow> \<not> is_operator_char (s ! i)) \<longrightarrow>
     operator_buf st ! 2 = NUL \<longrightarrow> operator_buf st' ! 2 = NUL) \<and> length (operator_buf st') = OPERATOR_MAXLEN"
  using assms
proof (induction s arbitrary: d st body)
  case Nil
  then show ?case by auto
next
  case (Cons c s)
  have shift: "\<forall>i < length s. d + 1 + i = 2 \<longrightarrow> \<not> is_operator_char (s ! i)"
    if "\<forall>i < length (c # s). d + i = 2 \<longrightarrow> \<not> is_operator_char ((c # s) ! i)"
  proof (intro allI impI)
    fix i
    assume "i < length s" "d + 1 + i = 2"
    then show "\<not> is_operator_char (s ! i)" using that [rule_format, of "Suc i"] by simp
  qed
  have c: "d = 2 \<longrightarrow> \<not> is_operator_char c"
    if "\<forall>i < length (c # s). d + i = 2 \<longrightarrow> \<not> is_operator_char ((c # s) ! i)"
    using that by (auto dest!: spec [of _ 0])
  consider (stop) "\<not> (clean_idx st < CONSTRAINT_MAXLEN \<and> dot_count st < NUM_VERSION_PARTS)"
    | (op) op where "clean_constraint d (c # s) st = clean_constraint (d + 1) s (st\<lparr>operator_buf := op\<rparr>)"
        "length op = OPERATOR_MAXLEN" "d < OPERATOR_MAXLEN" "is_operator_char c"
        "d \<noteq> 2 \<longrightarrow> operator_buf st ! 2 = NUL \<longrightarrow> op ! 2 = NUL"
    | (keep) "clean_constraint d (c # s) st = clean_constraint (d + 1) s st"
    | (put) x dots wild where "clean_constraint d (c # s) st =
        clean_constraint (d + 1) s (put_clean x (st\<lparr>dot_count := dots, wildcard_arr := wild\<rparr>))"
        "clean_idx st < CONSTRAINT_MAXLEN"
  proof (cases "clean_idx st < CONSTRAINT_MAXLEN \<and> dot_count st < NUM_VERSION_PARTS")
    case False
    then show thesis by (rule stop)
  next
    case run: True
    consider (a) "d < OPERATOR_MAXLEN \<and> is_operator_char c"
      | (b) "\<not> (d < OPERATOR_MAXLEN \<and> is_operator_char c)" "c = CHR ''v'' \<or> c = CHR ''V''"
      | (c) "\<not> (d < OPERATOR_MAXLEN \<and> is_operator_char c)" "c \<noteq> CHR ''v''" "c \<noteq> CHR ''V''" by blast
    then show thesis
    proof cases
      case a
      let ?op = "(operator_buf st)[d := c]"
      show thesis
        by (rule op [of "if c = CHR ''='' then ?op
              else take (d + 1) ?op @ replicate (OPERATOR_MAXLEN - (d + 1)) NUL"])
           (use a run Cons.prems(5) in \<open>auto simp: Let_def nth_append not_less_eq\<close>)
    next
      case b
      then show thesis using run by (intro keep) auto
    next
      case c
      then show thesis
        using run Cons.prems(1)
        by (intro put [where x = "if c = CHR ''-'' then CHR ''.'' else if c = CHR ''*'' then CHR ''0'' else c"
              and dots = "if c = CHR ''-'' \<or> c = CHR ''.'' then dot_count st + 1 else dot_count st"
              and wild = "if c = CHR ''*'' then (wildcard_arr st)[dot_count st := True] else wildcard_arr st"])
           (auto simp: Let_def split: if_splits)
    qed
  qed
  then show ?case
  proof cases
    case stop
    then show ?thesis using Cons.prems by (auto intro!: exI [of _ body])
  next
    case (op op)
    have "clean_constraint (d + 1) s (st\<lparr>operator_buf := op\<rparr>) = Some st'" using op Cons.prems(1) by simp
    from Cons.IH [OF this, of body] show ?thesis
      using Cons.prems op shift c by (auto simp: le_Suc_eq)
  next
    case keep
    have "clean_constraint (d + 1) s st = Some st'" using keep Cons.prems(1) by simp
    from Cons.IH [OF this, of body] show ?thesis
      using Cons.prems shift by (auto simp: le_Suc_eq)
  next
    case (put x dots wild)
    have "clean_constraint (d + 1) s (put_clean x (st\<lparr>dot_count := dots, wildcard_arr := wild\<rparr>)) = Some st'"
      using put Cons.prems(1) by simp
    from Cons.IH [OF this, of "body @ [x]"] show ?thesis
      using Cons.prems shift put(2) by (auto simp: put_clean_def filled_snoc)
  qed
qed

text \<open>
  A constraint shorter than the 18-byte buffer, whatever its characters, is handled inside the buffers:
  the sanitized text is always terminated, and so is the operator unless a third operator character is
  printed by the diagnostic of a verbose comparison.
\<close>

theorem compare_version_safe:
  assumes "length dirty < CONSTRAINT_MAXLEN" "verbose \<longrightarrow> \<not> is_operator_char (char_at dirty 2)"
  shows "no_fault (compare_version (Some v) (Some dirty) verbose)"
proof (cases "clean_constraint 0 dirty clean_init")
  case None
  then show ?thesis by (simp add: compare_version_def)
next
  case (Some st)
  have e: "constraint_buf clean_init = filled []" by (simp add: filled_def)
  note inv = clean_constraint_inv [OF Some e]
  have "NUL \<in> set (constraint_buf st)"
    using inv assms(1) by (auto simp: filled_terminated)
  moreover have "verbose \<longrightarrow> NUL \<in> set (operator_buf st)"
  proof
    assume verbose
    then have "\<forall>i < length dirty. 0 + i = 2 \<longrightarrow> \<not> is_operator_char (dirty ! i)"
      using assms(2) by (auto simp: char_at_def)
    then have "operator_buf st ! 2 = NUL" "2 < length (operator_buf st)"
      using inv by (simp_all add: numeral_2_eq_2)
    then show "NUL \<in> set (operator_buf st)" by (metis nth_mem)
  qed
  ultimately show ?thesis
    using Some by (auto simp: compare_version_def split: option.split)
qed

theorem compare_version_safe_witness:
  "no_fault (compare_version (Some \<lparr>major = 2, minor = 5, patch = 0\<rparr>) (Some ''>=2.*'') True)"
  by (rule compare_version_safe) (simp_all add: char_at_def is_operator_char_def numeral_2_eq_2)

section \<open>The command\<close>

text \<open>The documented error actions, spelled out or as a single letter.\<close>

definition error_actions :: "(string \<times> slash_ret) list" where
  "error_actions =
     [(''Quit'', SLASH_EXIT), (''quit'', SLASH_EXIT), (''Q'', SLASH_EXIT), (''q'', SLASH_EXIT),
      (''Error'', SLASH_EBREAK), (''error'', SLASH_EBREAK), (''E'', SLASH_EBREAK), (''e'', SLASH_EBREAK),
      (''Warn'', SLASH_EINVAL), (''warn'', SLASH_EINVAL), (''W'', SLASH_EINVAL), (''w'', SLASH_EINVAL)]"

lemma error_actions_results:
  "(action, err) \<in> set error_actions \<Longrightarrow> error_action_result (lower_first action) = Some err"
proof -
  have "list_all (\<lambda>(action, err). error_action_result (lower_first action) = Some err) error_actions"
    by code_simp
  then show "(action, err) \<in> set error_actions \<Longrightarrow> error_action_result (lower_first action) = Some err"
    by (auto simp: list_all_iff)
qed

text \<open>
  \<open>require version csh\<close> with a documented error action succeeds exactly when the version of the
  build, a \<open>v1.2.3\<close> tag with or without a suffix, satisfies the constraint in the order of versions, and
  otherwise returns the code of the action: leave the shell, stop the script, or fail.
\<close>

theorem require_version_decides:
  assumes "parser \<lparr>require_verbose = False\<rparr> [op @ show_nat a @ ''.'' @ show_nat b @ ''.'' @ show_nat c, action] = (0, opts)"
    and "op \<in> set constraint_ops" "a < 10 ^ 9" "b < 1000" "c < 1000"
    and "int x \<le> INT32_MAX" "y < 1000" "z < 1000"
    and "rest = [] \<or> rest = ''+'' \<or> rest \<noteq> [] \<and> hd rest = CHR ''-''"
    and "(action, err) \<in> set error_actions"
  shows "slash_require_version_csh_cmd parser (''v'' @ show_nat x @ ''.'' @ show_nat y @ ''.'' @ show_nat z @ rest)
      [''require version csh'', op @ show_nat a @ ''.'' @ show_nat b @ ''.'' @ show_nat c, action] =
    Inr (if constraint_holds op (Semver (int x) (int y) (int z)) (Semver (int a) (int b) (int c))
         then SLASH_SUCCESS else err)"
proof -
  let ?v = "\<lparr>major = int x, minor = int y, patch = int z\<rparr>"
  let ?con = "op @ show_nat a @ ''.'' @ show_nat b @ ''.'' @ show_nat c"
  have p: "parse_version (Some (''v'' @ show_nat x @ ''.'' @ show_nat y @ ''.'' @ show_nat z @ rest))
      (Some \<lparr>major = 0, minor = 0, patch = 0\<rparr>) True = Inr (True, Some ?v)"
    using parse_printed_version [of x y z "''v''" "CHR ''.''" "CHR ''.''" rest True
      "\<lparr>major = 0, minor = 0, patch = 0\<rparr>"] assms(6-9) by auto
  have "scalable ?v" using assms(7,8) by (simp add: scalable_def)
  then have "compare_version (Some ?v) (Some ?con) True =
      Inr (constraint_holds op (semver_of ?v) (Semver (int a) (int b) (int c)))"
    using compare_printed_constraint [of op "[]" "CHR ''.''" "CHR ''.''" a b c ?v True] assms(2-5)
    by (simp add: is_sep_def)
  then show ?thesis
    using p assms(1) error_actions_results [OF assms(10)]
    by (simp add: slash_require_version_csh_cmd_def optparse_parse_def nth_arg_def semver_of_def)
qed

theorem require_version_decides_witness:
  "slash_require_version_csh_cmd (\<lambda>opts args. (0, opts)) (''v'' @ show_nat 2 @ ''.'' @ show_nat 5 @ ''.'' @ show_nat 1 @ ''-20'')
      [''require version csh'', ''>='' @ show_nat 2 @ ''.'' @ show_nat 6 @ ''.'' @ show_nat 0, ''Quit''] =
    Inr SLASH_EXIT"
  using require_version_decides [of "\<lambda>opts args. (0, opts)" "''>=''" 2 6 0 "''Quit''" "\<lparr>require_verbose = False\<rparr>" 2 5 1
    "''-20''" SLASH_EXIT]
  by (simp add: constraint_ops_def error_actions_def constraint_holds_def less_eq_semver_def)

end
