(* ===== verification/Slash_Utils.thy ===== *)
theory Slash_Utils
  imports Slash_Base
begin

text \<open>
  The shared argument parsers of \<open>src/slash_utils.c\<close> (a memory address, a length), the URL test of
  \<open>src/url_utils.c\<close> and the base-16 codec of \<open>src/base16.c\<close>.
\<close>

section \<open>Addresses and lengths\<close>

abbreviation UINT32_MAX :: int where "UINT32_MAX \<equiv> 4294967295"

text \<open>Both parsers advance the argument index whatever they return; a value is stored only on success
  of \<open>parse_length\<close>, and by \<open>parse_vmem_address\<close> as soon as there is an argument.\<close>

definition parse_vmem_address :: "string list \<Rightarrow> int \<Rightarrow> slash_ret \<times> int \<times> int option" where
  "parse_vmem_address argv argi =
     (let argi = argi + 1 in
      if argi \<ge> argc argv then (SLASH_EUSAGE, argi, None)
      else
        (let (address, endptr) = strtoul 16 (nth_arg argv argi) in
         if endptr \<noteq> [] then (SLASH_EINVAL, argi, Some address)
         else (SLASH_SUCCESS, argi, Some address)))"

definition parse_length :: "string list \<Rightarrow> int \<Rightarrow> slash_ret \<times> int \<times> int option" where
  "parse_length argv argi =
     (let argi = argi + 1 in
      if argi \<ge> argc argv then (SLASH_EINVAL, argi, None)
      else
        (let s = nth_arg argv argi;
             (length64, endptr) = strtoul 10 s;
             (length64, bad) =
               (if endptr \<noteq> [] then
                  (let (length64, endptr) = strtoul 16 s
                   in (length64, endptr \<noteq> [] \<or> \<not> strncmp_eq s ''0x'' 2))
                else (length64, False))
         in if bad then (SLASH_EUSAGE, argi, None)
            else if length64 > UINT32_MAX then (SLASH_EINVAL, argi, None)
            else (SLASH_SUCCESS, argi, Some length64)))"

section \<open>URLs\<close>

definition is_http_url :: "string option \<Rightarrow> bool" where
  "is_http_url input =
     (case input of
        None \<Rightarrow> False
      | Some s \<Rightarrow>
          if length s < 10 then False
          else
            (case strstr s ''http://'' of
               Some found \<Rightarrow> True
             | None \<Rightarrow>
                 (case strstr s ''https://'' of
                    None \<Rightarrow> False
                  | Some found \<Rightarrow> \<not> length s < 11)))"

section \<open>Base 16\<close>

definition hex_digit :: "nat \<Rightarrow> char" where
  "hex_digit d = char_of (if d < 10 then 48 + d else 87 + d)"

text \<open>\<open>sprintf("%02x", byte)\<close> writes two lower-case digits.\<close>

definition hex_byte :: "8 word \<Rightarrow> string" where
  "hex_byte b = [hex_digit (unat b div 16), hex_digit (unat b mod 16)]"

fun base16_encode :: "8 word list \<Rightarrow> string" where
  "base16_encode [] = []"
| "base16_encode (b # raw) = hex_byte b @ base16_encode raw"

text \<open>\<open>None\<close> is the result \<open>-EINVAL\<close>; otherwise the bytes stored, whose number is returned. Each pair
  of characters is read by \<open>strtoul\<close>, so it may also be a sign or a space and one digit.\<close>

fun base16_decode :: "string \<Rightarrow> 8 word list option" where
  "base16_decode [] = Some []"
| "base16_decode [c] = None"
| "base16_decode (c # d # encoded) =
     (let (value, endp) = strtoul 16 [c, d]
      in if endp \<noteq> [] then None
         else map_option ((#) (word_of_int value)) (base16_decode encoded))"

section \<open>Properties\<close>

lemma code_hex_digit: "d < 16 \<Longrightarrow> code (hex_digit d) = (if d < 10 then 48 + d else 87 + d)"
  by (simp add: code_def hex_digit_def)

lemma code_neq: "code c \<noteq> code d \<Longrightarrow> c \<noteq> d"
  by auto

lemma hex_digit_in_base:
  assumes "d < 16"
  shows "in_base 16 (hex_digit d)" "digit_value (hex_digit d) = Some d" "\<not> isspace (hex_digit d)"
    "hex_digit d \<noteq> CHR ''-''" "hex_digit d \<noteq> CHR ''+''" "hex_digit d \<noteq> NUL" "hex_digit d \<noteq> CHR ''x''"
    "hex_digit d \<noteq> CHR ''X''"
proof -
  note c = code_hex_digit [OF assms]
  show d: "digit_value (hex_digit d) = Some d"
    using assms by (simp add: digit_value_def c)
  then show "in_base 16 (hex_digit d)" using assms by (simp add: in_base_def)
  show "\<not> isspace (hex_digit d)" using assms by (simp add: isspace_def c)
  show "hex_digit d \<noteq> CHR ''-''" "hex_digit d \<noteq> CHR ''+''" "hex_digit d \<noteq> NUL" "hex_digit d \<noteq> CHR ''x''"
    "hex_digit d \<noteq> CHR ''X''"
    using assms by (intro code_neq, simp only: c, simp add: code_def)+
qed

lemma nibbles: "unat b div 16 < 16" "unat b mod 16 < 16" for b :: "8 word"
  using unsigned_less [of b, where ?'a = nat] by simp_all

lemma strtoul_hex_pair:
  assumes "m < 16" "n < 16"
  shows "strtoul 16 [hex_digit m, hex_digit n] = (int (16 * m + n), [])"
  using hex_digit_in_base [OF assms(1)] hex_digit_in_base [OF assms(2)] assms
  by (simp add: strtoul_def strto_scan_def scan_sign_def strip_0x_def num_val_def)

lemma decode_hex_byte: "base16_decode (hex_byte b @ s) = map_option ((#) b) (base16_decode s)"
proof -
  note b = nibbles [of b]
  have "16 * (unat b div 16) + unat b mod 16 = unat b" by simp
  then have "word_of_int (int (16 * (unat b div 16) + unat b mod 16)) = b" by simp
  then show ?thesis
    using strtoul_hex_pair [OF b] by (simp add: hex_byte_def)
qed

lemma decode_encode:
  "base16_decode (base16_encode raw) = Some raw \<and> length (base16_encode raw) = 2 * length raw \<and>
   nul_free (base16_encode raw)"
proof (induction raw)
  case (Cons b raw)
  have "nul_free (hex_byte b)"
    using hex_digit_in_base(6) nibbles [of b] by (simp add: hex_byte_def)
  with Cons show ?case by (simp add: decode_hex_byte) (simp add: hex_byte_def)
qed simp

text \<open>
  C39: Decoding the text that \<open>base16_encode\<close> wrote for one or more bytes gives back these bytes, and the encoding has two
  characters per byte and no terminator inside, so that it fills a buffer of \<open>base16_encoded_len + 1\<close>. (For no
  bytes the code writes nothing, not even a terminator; the text of no bytes is then the caller's.)
\<close>

theorem base16_roundtrip:
  "base16_decode (base16_encode raw) = Some raw \<and> length (base16_encode raw) = 2 * length raw \<and>
   nul_free (base16_encode raw)"
  by (rule decode_encode)

lemma strtoul_nonneg: "0 \<le> fst (strtoul b s)"
  by (auto simp: strtoul_def split: option.split)

text \<open>
  \<open>parse_length\<close> consumes exactly one argument index, stores a length exactly when it succeeds, and a
  stored length always fits 32 bits; a length written in decimal is read back, and one of 2 ^ 32 or more
  is refused, never truncated.
\<close>

lemma parse_length_bounds:
  "(case parse_length argv argi of (ret, argi', len) \<Rightarrow>
      argi' = argi + 1 \<and> (ret = SLASH_SUCCESS \<longleftrightarrow> len \<noteq> None) \<and> (case len of None \<Rightarrow> True | Some n \<Rightarrow>
        0 \<le> n \<and> n \<le> UINT32_MAX)) \<and>
   parse_length [cmd, show_nat n] 0 =
     (if int n \<le> UINT32_MAX then (SLASH_SUCCESS, 1, Some (int n)) else (SLASH_EINVAL, 1, None))"
proof
  show "case parse_length argv argi of (ret, argi', len) \<Rightarrow>
      argi' = argi + 1 \<and> (ret = SLASH_SUCCESS \<longleftrightarrow> len \<noteq> None) \<and> (case len of None \<Rightarrow> True | Some n \<Rightarrow>
        0 \<le> n \<and> n \<le> UINT32_MAX)"
    using strtoul_nonneg by (auto simp: parse_length_def Let_def split_beta)
  have "snd (strtoul 10 (show_nat n)) = []" "fst (strtoul 10 (show_nat n)) = min ULONG_MAX (int n)"
    using strto_scan_digits [OF show_nat_nonempty show_nat_digits, of "[]" n]
    by (simp_all add: strtoul_def)
  then show "parse_length [cmd, show_nat n] 0 =
     (if int n \<le> UINT32_MAX then (SLASH_SUCCESS, 1, Some (int n)) else (SLASH_EINVAL, 1, None))"
    by (auto simp: parse_length_def nth_arg_def split_beta)
qed

end
