(* ===== verification/Param_Parse.thy ===== *)
theory Param_Parse
  imports Slash_Base
begin

text \<open>
  The argument parsers of \<open>src/param_slash.c\<close>: a parameter argument \<open>name[offsets]\<close> is split into its
  name and the text between the brackets, the name or number is looked up in the parameter list, and the
  offsets, single indexes and slices separated by commas, are expanded to an array of indexes.
\<close>

section \<open>Parameters\<close>

text \<open>
  What the program uses of the parameter library's \<open>param_t\<close>. \<open>param_list_find_id\<close> and
  \<open>param_list_find_name\<close> are library functions and arguments of the definitions below.
\<close>

datatype param_type = PARAM_TYPE_DATA | PARAM_TYPE_STRING | PARAM_TYPE_OTHER nat

record param_t =
  param_id :: int
  param_node :: int
  param_name :: string
  param_type_of :: param_type
  param_array_size :: int
  param_mask :: "32 word"

record param_finder =
  param_list_find_id :: "int \<Rightarrow> int \<Rightarrow> param_t option"
  param_list_find_name :: "int \<Rightarrow> string \<Rightarrow> param_t option"

abbreviation INT_MIN :: int where "INT_MIN \<equiv> INT32_MIN"

section \<open>One slice\<close>

text \<open>
  The two scans of \<open>param_slash_parse_slice\<close>. Each yields the number of conversions (0 stands for an
  input failure as well, which the code does not tell apart) and the variables it assigned.
\<close>

definition scan_slice :: "string \<Rightarrow> nat \<times> int option \<times> char option \<times> int option" where
  "scan_slice token =
     (case scan_d token of
        None \<Rightarrow> (0, None, None, None)
      | Some (a, s) \<Rightarrow>
          (case scan_c s of
             None \<Rightarrow> (1, Some a, None, None)
           | Some (c, s) \<Rightarrow>
               (case scan_d s of
                  None \<Rightarrow> (2, Some a, Some c, None)
                | Some (b, s) \<Rightarrow> (3, Some a, Some c, Some b))))"

definition scan_slice_end :: "string \<Rightarrow> nat \<times> char option \<times> int option" where
  "scan_slice_end token =
     (case scan_c token of
        None \<Rightarrow> (0, None, None)
      | Some (c, s) \<Rightarrow>
          (case scan_d s of
             None \<Rightarrow> (1, Some c, None)
           | Some (b, s) \<Rightarrow> (2, Some c, Some b)))"

text \<open>\<open>strtoul(arg) == 0 && strcmp(arg, "0") != 0\<close>: the code's test that a slice argument is no number.\<close>

definition not_a_number :: "string \<Rightarrow> bool" where
  "not_a_number s \<longleftrightarrow> fst (strtoul 10 s) = 0 \<and> s \<noteq> ''0''"

text \<open>
  \<open>junk\<close> is what the uninitialised \<open>_slice_delimitor\<close> holds. The result: whether the token is accepted
  (0 rather than -1), the two indexes as they are left, and whether a slice was detected.
\<close>

definition param_slash_parse_slice ::
  "char \<Rightarrow> string option \<Rightarrow> int \<Rightarrow> int \<Rightarrow> bool \<Rightarrow> bool \<times> int \<times> int \<times> bool" where
  "param_slash_parse_slice junk token start_index end_index slice_detected =
     (case token of
        None \<Rightarrow> (True, start_index, end_index, slice_detected)
      | Some token \<Rightarrow>
          (let (first_scan, a, c, b) = scan_slice token;
               start_index = (case a of None \<Rightarrow> start_index | Some i \<Rightarrow> i);
               end_index = (case b of None \<Rightarrow> end_index | Some i \<Rightarrow> i);
               delim = (case c of None \<Rightarrow> junk | Some x \<Rightarrow> x);
               (second_scan, c, b) = (if first_scan = 0 then scan_slice_end token else (0, None, None));
               end_index = (case b of None \<Rightarrow> end_index | Some i \<Rightarrow> i);
               delim = (case c of None \<Rightarrow> delim | Some x \<Rightarrow> x)
           in if delim = CHR '':'' then
                (if first_scan = 2 \<or> second_scan = 1 then
                   (case strtok_r token '':'' of
                      None \<Rightarrow> (True, start_index, end_index, True)
                    | Some (first_slice_arg, rest) \<Rightarrow>
                        (case strtok_r rest '':'' of
                           None \<Rightarrow> (\<not> not_a_number first_slice_arg, start_index, end_index, True)
                         | Some second_slice_arg \<Rightarrow> (False, start_index, end_index, True)))
                 else (True, start_index, end_index, True))
              else if 0 < second_scan then (False, start_index, end_index, slice_detected)
              else if 2 \<le> first_scan then (False, start_index, end_index, slice_detected)
              else if 0 < second_scan \<and> delim = CHR '']'' then (False, start_index, end_index, slice_detected)
              else (True, start_index, end_index, slice_detected)))"

section \<open>Names and numbers\<close>

text \<open>The result is 0 exactly when a parameter is found.\<close>

definition param_parse_from_str :: "param_finder \<Rightarrow> int \<Rightarrow> string \<Rightarrow> param_t option" where
  "param_parse_from_str finder node arg =
     (let (n, endptr) = strtoul 10 arg; id = to_int32 n
      in if id \<noteq> INT32_MAX \<and> endptr = [] then param_list_find_id finder node id
         else param_list_find_name finder node arg)"

text \<open>
  The number of values from \<open>start_index\<close> on, counted up to 100, must be among the expected ones. The
  diagnostic reads two arguments per line it prints.
\<close>

definition parse_slash_values :: "string list \<Rightarrow> nat \<Rightarrow> int list \<Rightarrow> bool c_result" where
  "parse_slash_values args start_index expected =
     (if length args < start_index then Inl Out_Of_Bounds
      else
        (let amount_of_values = int (min 100 (length args - start_index)) in
         if amount_of_values \<in> set expected then Inr True
         else if length expected < 2 * (length expected - 1) then Inl Out_Of_Bounds
         else Inr False))"

text \<open>
  Splitting \<open>name[offsets]\<close>: whether the argument is accepted, what is left in the argument, and the
  offsets. \<open>token\<close> is not empty when \<open>strtok_r\<close> returns it.
\<close>

definition param_get_offset_string :: "string \<Rightarrow> bool \<times> string \<times> string option" where
  "param_get_offset_string arg =
     (let name = strtok_cut arg ''['';
          rest = (case strtok_r arg ''['' of None \<Rightarrow> [] | Some (tok, rest) \<Rightarrow> rest)
      in case strtok_r rest ''['' of
           None \<Rightarrow> (True, name, None)
         | Some (token, saveptr) \<Rightarrow>
             if last token \<noteq> CHR '']'' then (False, name, None)
             else
               (let previous_token_length = length token;
                    token = strtok_cut token '']''
                in if previous_token_length - length token > 1 then (False, name, None)
                   else (True, name, Some token)))"

text \<open>The result codes: 0, -1 for the offsets, -2 for the name.\<close>

definition parse_param_offset_string ::
  "param_finder \<Rightarrow> string \<Rightarrow> int \<Rightarrow> int \<times> string \<times> param_t option \<times> string option" where
  "parse_param_offset_string finder arg_in node =
     (let (ok, name, arg_out) = param_get_offset_string arg_in
      in if \<not> ok then (- 1, name, None, arg_out)
         else
           (case param_parse_from_str finder node name of
              None \<Rightarrow> (- 2, name, None, arg_out)
            | Some param \<Rightarrow> (0, name, Some param, arg_out)))"

section \<open>The offset array\<close>

text \<open>
  The array has \<open>array_size\<close> elements; a store outside it is a fault. \<open>Inr None\<close> stands for an error
  return (-1 or \<open>SLASH_EINVAL\<close>, both negative); \<open>Inr (Some (offsets, n))\<close> for 0 with the array and the
  number of elements written.
\<close>

definition store_offset :: "int list \<Rightarrow> nat \<Rightarrow> int \<Rightarrow> int list c_result" where
  "store_offset offset_array i v = (if i < length offset_array then Inr (offset_array[i := v]) else Inl Out_Of_Bounds)"

function store_slice ::
  "int \<Rightarrow> int \<Rightarrow> int \<Rightarrow> int list \<Rightarrow> nat \<Rightarrow> (int list \<times> nat) option c_result" where
  "store_slice array_size i end_index offset_array current_index =
     (if i < end_index then
        if int current_index \<ge> array_size then Inr None
        else
          (case store_offset offset_array current_index i of
             Inl f \<Rightarrow> Inl f
           | Inr offset_array \<Rightarrow> store_slice array_size (i + 1) end_index offset_array (current_index + 1))
      else Inr (Some (offset_array, current_index)))"
  by pat_completeness auto
termination
  by (relation "measure (\<lambda>(n, i, e, xs, k). nat (e - i))") auto

declare store_slice.simps [simp del]

text \<open>The bounds of a slice, negative indexes counted from the end; \<open>None\<close> for an error.\<close>

definition slice_bounds :: "int \<Rightarrow> int \<Rightarrow> int \<Rightarrow> (int \<times> int) option" where
  "slice_bounds array_size start_index end_index =
     (let start_index = (if start_index \<noteq> INT_MIN then start_index else 0);
          end_index = (if end_index \<noteq> INT_MIN then end_index else array_size);
          start_index' = (if start_index < 0 then array_size + start_index else start_index);
          end_index' = (if end_index < 0 then array_size + end_index else end_index)
      in if start_index' < 0 \<or> end_index' < 0 then None
         else if start_index' \<ge> end_index' then None
         else if end_index' > array_size then None
         else Some (start_index', end_index'))"

definition store_token ::
  "char \<Rightarrow> int \<Rightarrow> string \<Rightarrow> int list \<Rightarrow> nat \<Rightarrow> (int list \<times> nat) option c_result" where
  "store_token junk array_size token offset_array current_index =
     (if int current_index \<ge> array_size then Inr None
      else if strchr token CHR '':'' \<noteq> None then
        (let (ok, start_index, end_index, detected) =
               param_slash_parse_slice junk (Some token) INT_MIN INT_MIN False
         in if \<not> ok then Inr None
            else
              (case slice_bounds array_size start_index end_index of
                 None \<Rightarrow> Inr None
               | Some (start_index, end_index) \<Rightarrow>
                   store_slice array_size start_index end_index offset_array current_index))
      else
        (let val = atoi token;
             val = (if val < 0 then val + array_size else val)
         in case store_offset offset_array current_index val of
              Inl f \<Rightarrow> Inl f
            | Inr offset_array \<Rightarrow> Inr (Some (offset_array, current_index + 1))))"

fun store_tokens ::
  "char \<Rightarrow> int \<Rightarrow> string list \<Rightarrow> int list \<Rightarrow> nat \<Rightarrow> (int list \<times> nat) option c_result" where
  "store_tokens junk array_size [] offset_array current_index = Inr (Some (offset_array, current_index))"
| "store_tokens junk array_size (token # tokens) offset_array current_index =
     (case store_token junk array_size token offset_array current_index of
        Inl f \<Rightarrow> Inl f
      | Inr None \<Rightarrow> Inr None
      | Inr (Some (offset_array, current_index)) \<Rightarrow>
          store_tokens junk array_size tokens offset_array current_index)"

definition param_offsets_parse_from_str ::
  "char \<Rightarrow> string option \<Rightarrow> int \<Rightarrow> int list \<Rightarrow> (int list \<times> nat) option c_result" where
  "param_offsets_parse_from_str junk arg array_size offset_array =
     (case arg of
        None \<Rightarrow> store_slice array_size 0 array_size offset_array 0
      | Some arg \<Rightarrow> store_tokens junk array_size (strtok_all '','' arg) offset_array 0)"

text \<open>The double loop over the pairs of positions.\<close>

fun hasDuplicates :: "int list \<Rightarrow> bool" where
  "hasDuplicates [] = False"
| "hasDuplicates (x # xs) = (x \<in> set xs \<or> hasDuplicates xs)"

text \<open>
  The simpler parser of \<open>cmd add\<close>: one optional index, and a name or number. The result is what is left
  in the argument, the parameter and the offset.
\<close>

definition param_slash_parse ::
  "param_finder \<Rightarrow> string \<Rightarrow> int \<Rightarrow> int \<Rightarrow> string \<times> param_t option \<times> int" where
  "param_slash_parse finder arg node offset =
     (let name = strtok_cut arg ''['';
          rest = (case strtok_r arg ''['' of None \<Rightarrow> [] | Some (tok, rest) \<Rightarrow> rest);
          offset = (case strtok_r rest ''['' of
                      None \<Rightarrow> offset
                    | Some (token, saveptr) \<Rightarrow> (case scan_d token of None \<Rightarrow> offset | Some (n, s) \<Rightarrow> n));
          (n, endptr) = strtoul 10 name
      in (name,
          if endptr = [] then param_list_find_id finder node (to_int32 n)
          else param_list_find_name finder node name, offset))"

section \<open>Properties\<close>

lemma store_slice_result:
  assumes "length offs = nat array_size" "0 \<le> i" "e \<le> array_size"
  shows "\<exists>r. store_slice array_size i e offs k = Inr r \<and>
    (case r of
       None \<Rightarrow> array_size < int k + (e - i)
     | Some (offs', n) \<Rightarrow> length offs' = nat array_size \<and> n = k + nat (e - i) \<and> (k \<le> nat array_size \<longrightarrow> n \<le> nat array_size) \<and>
         take k offs' = take k offs \<and> (\<forall>j < nat (e - i). offs' ! (k + j) = i + int j))"
  using assms
proof (induction array_size i e offs k rule: store_slice.induct)
  case (1 array_size i e offs k)
  note unfold = store_slice.simps [of array_size i e offs k]
  consider (stop) "\<not> i < e" | (full) "i < e" "int k \<ge> array_size" | (store) "i < e" "int k < array_size"
    by linarith
  then show ?case
  proof cases
    case store
    then have s: "store_offset offs k i = Inr (offs[k := i])"
      using "1.prems" by (simp add: store_offset_def)
    from "1.IH" [OF store(1) _ s] store "1.prems" s obtain r where
      r: "store_slice array_size (i + 1) e (offs[k := i]) (k + 1) = Inr r"
        "case r of
           None \<Rightarrow> array_size < int (k + 1) + (e - (i + 1))
         | Some (offs', n) \<Rightarrow> length offs' = nat array_size \<and> n = k + 1 + nat (e - (i + 1)) \<and>
             (k + 1 \<le> nat array_size \<longrightarrow> n \<le> nat array_size) \<and>
             take (k + 1) offs' = take (k + 1) (offs[k := i]) \<and>
             (\<forall>j < nat (e - (i + 1)). offs' ! (k + 1 + j) = i + 1 + int j)"
      by auto
    have eq: "store_slice array_size i e offs k = Inr r"
      using store s r(1) by (simp add: unfold)
    show ?thesis
    proof (cases r)
      case None
      then show ?thesis using eq r(2) by simp
    next
      case (Some p)
      obtain offs' n where p: "p = (offs', n)" by (cases p)
      have r2: "length offs' = nat array_size" "n = k + 1 + nat (e - (i + 1))"
          "k + 1 \<le> nat array_size \<longrightarrow> n \<le> nat array_size" "take (k + 1) offs' = take (k + 1) (offs[k := i])"
          "\<And>j. j < nat (e - (i + 1)) \<Longrightarrow> offs' ! (k + 1 + j) = i + 1 + int j"
        using r(2) Some p by auto
      have kk: "k < length offs" "k < length offs'" using store(2) "1.prems"(1) r2(1) by auto
      have at: "offs' ! k = i" "take k offs' = take k offs"
      proof -
        have "take (k + 1) offs' ! k = take (k + 1) (offs[k := i]) ! k" using r2(4) by simp
        then show "offs' ! k = i" using kk by (simp add: nth_append)
        have "take k (take (k + 1) offs') = take k (take (k + 1) (offs[k := i]))" using r2(4) by simp
        then show "take k offs' = take k offs" by simp
      qed
      have "offs' ! (k + j) = i + int j" if "j < nat (e - i)" for j
      proof (cases j)
        case (Suc j')
        then show ?thesis using r2(5) [of j'] that by simp
      qed (use at in simp)
      then show ?thesis
        using eq Some p r2(1-3) at kk store by auto
    qed
  qed (use "1.prems" in \<open>auto simp: unfold\<close>)
qed

definition slice_tokens_only :: "string option \<Rightarrow> bool" where
  "slice_tokens_only arg \<longleftrightarrow> (case arg of None \<Rightarrow> True
     | Some s \<Rightarrow> \<forall>t \<in> set (strtok_all '','' s). CHR '':'' \<in> set t)"

definition offsets_ok :: "bool \<Rightarrow> int \<Rightarrow> (int list \<times> nat) option c_result \<Rightarrow> bool" where
  "offsets_ok inside array_size r = (case r of
       Inl f \<Rightarrow> False
     | Inr None \<Rightarrow> True
     | Inr (Some (offs, n)) \<Rightarrow> length offs = nat array_size \<and> n \<le> nat array_size \<and>
         (inside \<longrightarrow> (\<forall>i < n. 0 \<le> offs ! i \<and> offs ! i < array_size)))"

lemma slice_bounds_Some:
  "slice_bounds n s e = Some (lo, hi) \<Longrightarrow> 0 \<le> lo \<and> lo < hi \<and> hi \<le> n"
  by (auto simp: slice_bounds_def Let_def split: if_splits)

lemma store_slice_ok:
  assumes "length offs = nat n" "0 \<le> lo" "lo \<le> hi" "hi \<le> n" "k \<le> nat n"
    and "inside \<longrightarrow> (\<forall>i < k. 0 \<le> offs ! i \<and> offs ! i < n)"
  shows "offsets_ok inside n (store_slice n lo hi offs k)"
proof -
  obtain r where r: "store_slice n lo hi offs k = Inr r"
    "case r of
       None \<Rightarrow> n < int k + (hi - lo)
     | Some (offs', m) \<Rightarrow> length offs' = nat n \<and> m = k + nat (hi - lo) \<and> (k \<le> nat n \<longrightarrow> m \<le> nat n) \<and>
         take k offs' = take k offs \<and> (\<forall>j < nat (hi - lo). offs' ! (k + j) = lo + int j)"
    using store_slice_result [OF assms(1,2,4), of k] by blast
  show ?thesis
  proof (cases r)
    case None
    with r show ?thesis by (simp add: offsets_ok_def)
  next
    case (Some p)
    obtain offs' m where p: "p = (offs', m)" by (cases p)
    have q: "length offs' = nat n" "m = k + nat (hi - lo)" "m \<le> nat n" "take k offs' = take k offs"
        "\<And>j. j < nat (hi - lo) \<Longrightarrow> offs' ! (k + j) = lo + int j"
      using r(2) Some p assms(5) by auto
    have "0 \<le> offs' ! i \<and> offs' ! i < n" if "inside" "i < m" for i
    proof (cases "i < k")
      case True
      then have "offs' ! i = offs ! i" using q(4) by (metis nth_take)
      then show ?thesis using assms(6) that True by simp
    next
      case False
      then show ?thesis using q(5) [of "i - k"] q(2) that assms(2,3,4) by auto
    qed
    with r(1) Some p q show ?thesis by (simp add: offsets_ok_def)
  qed
qed

lemma store_token_ok:
  assumes "length offs = nat n" "0 \<le> n" "k \<le> nat n" "inside \<longrightarrow> CHR '':'' \<in> set token"
    and "inside \<longrightarrow> (\<forall>i < k. 0 \<le> offs ! i \<and> offs ! i < n)"
  shows "offsets_ok inside n (store_token junk n token offs k)"
proof (cases "int k \<ge> n")
  case True
  then show ?thesis by (simp add: store_token_def offsets_ok_def)
next
  case room: False
  show ?thesis
  proof (cases "CHR '':'' \<in> set token")
    case True
    obtain ok s e d where sl: "param_slash_parse_slice junk (Some token) INT_MIN INT_MIN False = (ok, s, e, d)"
      using prod_cases4 by blast
    show ?thesis
    proof (cases "ok \<and> slice_bounds n s e \<noteq> None")
      case False
      then show ?thesis
        using room True sl
        by (cases "slice_bounds n s e") (auto simp: store_token_def strchr_def offsets_ok_def)
    next
      case ok: True
      then obtain lo hi where b: "slice_bounds n s e = Some (lo, hi)" by auto
      have "store_token junk n token offs k = store_slice n lo hi offs k"
        using room True sl ok b by (simp add: store_token_def strchr_def)
      then show ?thesis
        using store_slice_ok [OF assms(1) _ _ _ assms(3,5), of lo hi] slice_bounds_Some [OF b] by simp
    qed
  next
    case False
    then show ?thesis
      using room assms by (auto simp: store_token_def strchr_def store_offset_def offsets_ok_def Let_def)
  qed
qed

lemma store_tokens_ok:
  assumes "length offs = nat n" "0 \<le> n" "k \<le> nat n" "inside \<longrightarrow> (\<forall>t \<in> set tokens. CHR '':'' \<in> set t)"
    and "inside \<longrightarrow> (\<forall>i < k. 0 \<le> offs ! i \<and> offs ! i < n)"
  shows "offsets_ok inside n (store_tokens junk n tokens offs k)"
  using assms
proof (induction tokens arbitrary: offs k)
  case Nil
  then show ?case by (simp add: offsets_ok_def)
next
  case (Cons t tokens)
  have "offsets_ok inside n (store_token junk n t offs k)"
    using Cons.prems by (intro store_token_ok) auto
  then show ?case
    using Cons.IH Cons.prems
    by (auto simp: offsets_ok_def [of _ _ "store_token junk n t offs k"] split: sum.splits option.splits)
       (simp_all add: offsets_ok_def)
qed

text \<open>Every token that is accepted adds an offset.\<close>

lemma store_token_grows:
  assumes "length offs = nat n" "store_token junk n token offs k = Inr (Some (offs', k'))"
  shows "k < k' \<and> length offs' = nat n"
proof (cases "CHR '':'' \<in> set token")
  case False
  with assms show ?thesis
    by (auto simp: store_token_def strchr_def store_offset_def Let_def split: if_splits)
next
  case True
  obtain ok s e d where sl: "param_slash_parse_slice junk (Some token) INT_MIN INT_MIN False = (ok, s, e, d)"
    using prod_cases4 by blast
  with True assms(2) obtain lo hi where b: "slice_bounds n s e = Some (lo, hi)"
      "store_slice n lo hi offs k = Inr (Some (offs', k'))"
    by (auto simp: store_token_def strchr_def split: if_splits option.splits)
  with slice_bounds_Some [OF b(1)] store_slice_result [OF assms(1), of lo hi k] show ?thesis
    by auto
qed

lemma store_tokens_grows:
  "length offs = nat n \<Longrightarrow> store_tokens junk n tokens offs k = Inr (Some (offs', k')) \<Longrightarrow>
   k \<le> k' \<and> (tokens \<noteq> [] \<longrightarrow> k < k')"
proof (induction tokens arbitrary: offs k)
  case (Cons t tokens)
  then obtain offs1 k1 where t: "store_token junk n t offs k = Inr (Some (offs1, k1))"
      "store_tokens junk n tokens offs1 k1 = Inr (Some (offs', k'))"
    by (auto split: sum.splits option.splits)
  have "k < k1 \<and> length offs1 = nat n" by (rule store_token_grows [OF Cons.prems(1) t(1)])
  with Cons.IH [OF _ t(2)] show ?case by auto
qed simp

text \<open>
  C7: Expanding an offset list, whatever its text and whatever the uninitialised delimiter holds, never
  writes outside the array of \<open>array_size\<close> elements and never reports more offsets than that; when there is
  no list, or every entry of it is a slice, each offset reported is an index of the parameter.
\<close>

theorem param_offsets_in_bounds:
  assumes "0 \<le> array_size" "length offset_array = nat array_size"
  shows "\<exists>r. param_offsets_parse_from_str junk arg array_size offset_array = Inr r \<and>
    (case r of
       None \<Rightarrow> True
     | Some (offs, n) \<Rightarrow> length offs = nat array_size \<and> n \<le> nat array_size \<and>
         (slice_tokens_only arg \<longrightarrow> (\<forall>i < n. 0 \<le> offs ! i \<and> offs ! i < array_size)))"
proof -
  have "offsets_ok (slice_tokens_only arg) array_size
      (param_offsets_parse_from_str junk arg array_size offset_array)"
  proof (cases arg)
    case None
    then show ?thesis
      using store_slice_ok [OF assms(2), of 0 array_size 0] assms
      by (simp add: param_offsets_parse_from_str_def slice_tokens_only_def)
  next
    case (Some s)
    then show ?thesis
      using store_tokens_ok [OF assms(2,1), of 0 "slice_tokens_only arg" "strtok_all '','' s" junk]
      by (simp add: param_offsets_parse_from_str_def slice_tokens_only_def)
  qed
  then show ?thesis
    by (cases "param_offsets_parse_from_str junk arg array_size offset_array") (auto simp: offsets_ok_def)
qed

theorem param_offsets_in_bounds_witness:
  "\<exists>r. param_offsets_parse_from_str NUL (Some ''1:3,-1:'') 4 [0, 0, 0, 0] = Inr r"
  using param_offsets_in_bounds [of 4 "[0, 0, 0, 0]" NUL "Some ''1:3,-1:''"] by auto

text \<open>The number of elements of a parameter, counted from the end when negative, as in Python.\<close>

definition from_end :: "int \<Rightarrow> int \<Rightarrow> int" where
  "from_end n i = (if i < 0 then n + i else i)"

lemma scan_slice_pair:
  assumes "INT32_MIN \<le> a" "a \<le> INT32_MAX" "INT32_MIN \<le> b" "b \<le> INT32_MAX"
  shows "scan_slice (show_int a @ CHR '':'' # show_int b) = (3, Some a, Some CHR '':'', Some b)"
proof -
  have "\<not> isdigit CHR '':''" by (simp add: isdigit_def code_def)
  then show ?thesis
    using scan_d_show_int [of a "CHR '':'' # show_int b"] scan_d_show_int [of b "[]"] assms
    by (simp add: scan_slice_def scan_c_def)
qed

lemma strtok_all_single: "t \<noteq> [] \<Longrightarrow> CHR '','' \<notin> set t \<Longrightarrow> strtok_all '','' t = [t]"
  using strtok_r_plain [of t "'',''" "[]"]
  by (simp add: strtok_all.simps [of "'',''" t])
     (simp add: strtok_all.simps [of "'',''" "[]"] strtok_r_def)

text \<open>
  The slice \<open>a:b\<close> of an array selects the indexes from \<open>a\<close> up to but not including \<open>b\<close>, negative
  bounds counted from the end, when that is a non-empty range of indexes; otherwise it is refused.
\<close>

theorem param_slice_selects_range:
  assumes "INT32_MIN < a" "a \<le> INT32_MAX" "INT32_MIN < b" "b \<le> INT32_MAX"
    and "0 < array_size" "length offset_array = nat array_size"
  shows "\<exists>r. param_offsets_parse_from_str junk (Some (show_int a @ '':'' @ show_int b)) array_size offset_array = Inr r \<and>
    (if 0 \<le> from_end array_size a \<and> from_end array_size a < from_end array_size b \<and>
        from_end array_size b \<le> array_size
     then \<exists>offs n. r = Some (offs, n) \<and> take n offs = [from_end array_size a..from_end array_size b - 1]
     else r = None)"
proof -
  let ?t = "show_int a @ CHR '':'' # show_int b"
  let ?lo = "from_end array_size a" and ?hi = "from_end array_size b"
  have "CHR '','' \<notin> set ?t"
    using show_int_chars [of a] show_int_chars [of b] by (auto simp: isdigit_def code_def)
  then have toks: "strtok_all '','' ?t = [?t]" by (intro strtok_all_single) simp_all
  have slice: "param_slash_parse_slice junk (Some ?t) INT_MIN INT_MIN False = (True, a, b, True)"
    using scan_slice_pair [of a b] assms by (simp add: param_slash_parse_slice_def)
  have bounds: "slice_bounds array_size a b =
      (if 0 \<le> ?lo \<and> ?lo < ?hi \<and> ?hi \<le> array_size then Some (?lo, ?hi) else None)"
    using assms(1,3) by (auto simp: slice_bounds_def from_end_def Let_def)
  have parse: "param_offsets_parse_from_str junk (Some (show_int a @ '':'' @ show_int b)) array_size offset_array =
      (if 0 \<le> ?lo \<and> ?lo < ?hi \<and> ?hi \<le> array_size then store_slice array_size ?lo ?hi offset_array 0 else Inr None)"
    using assms(5) toks slice bounds
    by (simp add: param_offsets_parse_from_str_def store_token_def strchr_def split: sum.split option.split)
  show ?thesis
  proof (cases "0 \<le> ?lo \<and> ?lo < ?hi \<and> ?hi \<le> array_size")
    case True
    obtain r where r: "store_slice array_size ?lo ?hi offset_array 0 = Inr r"
      "case r of
         None \<Rightarrow> array_size < int 0 + (?hi - ?lo)
       | Some (offs', n) \<Rightarrow> length offs' = nat array_size \<and> n = 0 + nat (?hi - ?lo) \<and>
           (0 \<le> nat array_size \<longrightarrow> n \<le> nat array_size) \<and>
           take 0 offs' = take 0 offset_array \<and> (\<forall>j < nat (?hi - ?lo). offs' ! (0 + j) = ?lo + int j)"
      using store_slice_result [OF assms(6), of ?lo ?hi 0] True by blast
    then obtain offs n where s: "r = Some (offs, n)" using True by (cases r) auto
    then have "n = nat (?hi - ?lo)" "n \<le> length offs" "\<And>j. j < n \<Longrightarrow> offs ! j = ?lo + int j"
      using r(2) by auto
    then have "take n offs = [?lo..?hi - 1]"
      by (intro nth_equalityI) (auto simp: nth_upto)
    then show ?thesis using parse True r(1) s by auto
  qed (use parse in auto)
qed

theorem param_slice_selects_range_witness:
  "\<exists>offs n. param_offsets_parse_from_str NUL (Some (show_int 1 @ '':'' @ show_int (- 1))) 4 [0, 0, 0, 0] =
    Inr (Some (offs, n)) \<and> take n offs = [1..2]"
  using param_slice_selects_range [of 1 "- 1" 4 "[0, 0, 0, 0]" NUL] by (auto simp: from_end_def)

text \<open>
  An argument \<open>name[text]\<close>, with a name free of brackets and a text free of them, is split into its
  name, which is looked up, and the text; an argument without brackets has no offsets; a bracket that is
  not closed is an error.
\<close>

theorem parse_param_offset_splits:
  assumes "name \<noteq> []" "CHR ''['' \<notin> set name" "text' \<noteq> []" "CHR ''['' \<notin> set text'" "CHR '']'' \<notin> set text'"
  shows "parse_param_offset_string finder (name @ ''['' @ text' @ '']'') node =
      (case param_parse_from_str finder node name of
         None \<Rightarrow> (- 2, name, None, Some text') | Some p \<Rightarrow> (0, name, Some p, Some text')) \<and>
    parse_param_offset_string finder name node =
      (case param_parse_from_str finder node name of
         None \<Rightarrow> (- 2, name, None, None) | Some p \<Rightarrow> (0, name, Some p, None)) \<and>
    parse_param_offset_string finder (name @ ''['' @ text') node = (- 1, name, None, None)"
proof -
  have n: "set name \<inter> set ''['' = {}" "set (text' @ '']'') \<inter> set ''['' = {}" "set text' \<inter> set ''['' = {}"
    "set text' \<inter> set '']'' = {}"
    using assms by auto
  have a: "strtok_r (name @ CHR ''['' # r) ''['' = Some (name, r)" "strtok_cut (name @ CHR ''['' # r) ''['' = name" for r
    using strtok_r_plain [OF assms(1) n(1), of "CHR ''['' # r"] strtok_cut_plain [OF assms(1) n(1), of "CHR ''['' # r"]
    by simp_all
  have b: "strtok_r name ''['' = Some (name, [])" "strtok_cut name ''['' = name" "strtok_r [] ''['' = None"
    using strtok_r_plain [OF assms(1) n(1), of "[]"] strtok_cut_plain [OF assms(1) n(1), of "[]"]
    by (simp_all add: strtok_r_def)
  have c: "strtok_r (text' @ '']'') ''['' = Some (text' @ '']'', [])" "strtok_r text' ''['' = Some (text', [])"
    "strtok_cut (text' @ '']'') '']'' = text'"
    using strtok_r_plain [OF _ n(2), of "[]"] strtok_r_plain [OF assms(3) n(3), of "[]"]
      strtok_cut_plain [OF assms(3) n(4), of "'']''"] assms(3)
    by simp_all
  have l: "last text' \<noteq> CHR '']''" using assms(3,5) last_in_set by metis
  show ?thesis
    using a [of "text' @ '']''"] a [of text'] b c l
    by (simp add: parse_param_offset_string_def param_get_offset_string_def split: option.split)
qed

theorem parse_param_offset_splits_witness:
  "parse_param_offset_string \<lparr>param_list_find_id = \<lambda>n i. None, param_list_find_name = \<lambda>n s. None\<rparr>
      (''p'' @ ''['' @ ''1:3'' @ '']'') 5 = (- 2, ''p'', None, Some ''1:3'')"
proof -
  have "strtoul 10 ''p'' = (0, ''p'')" by code_simp
  then show ?thesis
    using parse_param_offset_splits [of "''p''" "''1:3''"
      "\<lparr>param_list_find_id = \<lambda>n i. None, param_list_find_name = \<lambda>n s. None\<rparr>" 5]
    by (simp add: param_parse_from_str_def)
qed

text \<open>
  Empty brackets are not refused, although the slice parser has a message for them: \<open>p[]\<close> is taken as
  the offset list \<open>]\<close>, which selects index 0.
\<close>

lemma empty_brackets_select_first:
  assumes "name \<noteq> []" "CHR ''['' \<notin> set name" "0 < array_size"
  shows "param_get_offset_string (name @ ''[]'') = (True, name, Some '']'') \<and>
    param_offsets_parse_from_str junk (Some '']'') array_size (replicate (nat array_size) INT_MIN) =
      Inr (Some ((replicate (nat array_size) INT_MIN)[0 := 0], 1))"
proof
  have n: "set name \<inter> set ''['' = {}" using assms by auto
  have "strtok_r (name @ ''[]'') ''['' = Some (name, '']'')" "strtok_cut (name @ ''[]'') ''['' = name"
    using strtok_r_plain [OF assms(1) n, of "''[]''"] strtok_cut_plain [OF assms(1) n, of "''[]''"] by simp_all
  moreover have "strtok_r '']'' ''['' = Some ('']'', [])" "strtok_cut '']'' '']'' = '']''" by code_simp+
  ultimately show "param_get_offset_string (name @ ''[]'') = (True, name, Some '']'')"
    by (simp add: param_get_offset_string_def)
  have "strtok_all '','' '']'' = ['']'']" by (rule strtok_all_single) simp_all
  moreover have "atoi '']'' = 0" by code_simp
  ultimately show "param_offsets_parse_from_str junk (Some '']'') array_size (replicate (nat array_size) INT_MIN) =
      Inr (Some ((replicate (nat array_size) INT_MIN)[0 := 0], 1))"
    using assms(3) by (simp add: param_offsets_parse_from_str_def store_token_def strchr_def store_offset_def)
qed

end
