(* ===== verification/Param_Cmds.thy ===== *)
theory Param_Cmds
  imports Param_Parse Known_Hosts
begin

text \<open>
  The commands \<open>get\<close> and \<open>set\<close> of \<open>src/param_slash.c\<close> and the completion of a parameter name. The
  parameter library is an argument: its matching, masks and value parsing as functions, its operations on
  queues and the network as calls of a \<open>world\<close>. Allocation is assumed to succeed, except that \<open>realloc\<close>
  to zero bytes frees its argument and returns the null pointer, as glibc does.
\<close>

unbundle bit_operations_syntax

section \<open>The parameter library\<close>

record 'v param_lib =
  finder :: param_finder
  params :: "param_t list"
  strmatch :: "string \<Rightarrow> string \<Rightarrow> bool"
  has_wildcard :: "string \<Rightarrow> bool"
  param_maskstr_to_mask :: "string \<Rightarrow> 32 word"
  param_str_to_value :: "param_type \<Rightarrow> string \<Rightarrow> 'v option"
  PM_READONLY :: "32 word"
  PM_HWREG :: "32 word"
  PM_REMOTE :: "32 word"
  CSP_PRIO_NORM :: int

text \<open>The calls the handlers make. \<open>Local_queue\<close> is the queue a handler keeps on its stack and
  \<open>Edit_queue\<close> the one that \<open>cmd new\<close> starts.\<close>

datatype queue_ref = Local_queue | Edit_queue

datatype 'v param_call =
    Param_print param_t int int
  | Pull_single param_t int int int int int
  | Clear_timestamp param_t
  | Clock_get
  | Queue_init
  | Queue_add queue_ref param_t int "'v option"
  | Queue_apply
  | Queue_print
  | Queue_print_params int
  | Push_queue queue_ref int int int int bool
  | Pull_queue int int int
  | Pull_all int int "32 word" "32 word" int int

type_synonym 'v param_world = "('v param_call, int) world"

section \<open>Get\<close>

record get_opts =
  get_node :: int
  get_server :: int
  get_paramver :: int
  get_prio :: int
  get_mask :: "string option"

definition all_mask :: "32 word" where
  "all_mask = 0xFFFFFFFF"

text \<open>The tests of the loop over the parameter list.\<close>

definition get_selects :: "'v param_lib \<Rightarrow> get_opts \<Rightarrow> string \<Rightarrow> param_t \<Rightarrow> bool" where
  "get_selects lib opts n param \<longleftrightarrow>
     (let mask = (case get_mask opts of None \<Rightarrow> all_mask | Some m \<Rightarrow> param_maskstr_to_mask lib m) in
      if \<not> strmatch lib (param_name param) n then False
      else if param_node param \<noteq> get_node opts then False
      else if mask \<noteq> all_mask \<and> param_mask param AND mask = 0 then False
      else True)"

text \<open>What is done with a selected parameter: a local one is printed, another is pulled.\<close>

definition get_call :: "slash_defaults \<Rightarrow> get_opts \<Rightarrow> param_t \<Rightarrow> 'v param_call" where
  "get_call dfl opts param =
     (if param_node param = 0 \<and> get_server opts = 0 then Param_print param 0 0
      else
        (let dest = (if 0 < get_server opts then get_server opts else get_node opts)
         in Pull_single param (- 1) (get_prio opts) dest (slash_dfl_timeout dfl) (get_paramver opts)))"

definition is_pull :: "'v param_call \<Rightarrow> bool" where
  "is_pull c \<longleftrightarrow> (case c of Pull_single p i j k l m \<Rightarrow> True | _ \<Rightarrow> False)"

fun get_loop ::
  "'v param_lib \<Rightarrow> 'v param_world \<Rightarrow> slash_defaults \<Rightarrow> get_opts \<Rightarrow> string \<Rightarrow> param_t list \<Rightarrow> 'v param_call list
     \<Rightarrow> slash_ret \<times> 'v param_call list"
where
  "get_loop lib w dfl opts n [] tr = (SLASH_SUCCESS, tr)"
| "get_loop lib w dfl opts n (param # rest) tr =
     (if \<not> get_selects lib opts n param then get_loop lib w dfl opts n rest tr
      else
        (let c = get_call dfl opts param; (reply, tr) = do_call w c tr
         in if is_pull c \<and> reply < 0 then (SLASH_EIO, tr)
            else get_loop lib w dfl opts n rest tr))"

definition cmd_get ::
  "'v param_lib \<Rightarrow> 'v param_world \<Rightarrow> slash_defaults \<Rightarrow> get_opts optparse \<Rightarrow> string list
     \<Rightarrow> slash_ret \<times> 'v param_call list"
where
  "cmd_get lib w dfl parser argv =
     (let (argi, opts) = optparse_parse parser
            \<lparr>get_node = slash_dfl_node dfl, get_server = 0, get_paramver = 2, get_prio = CSP_PRIO_NORM lib,
             get_mask = None\<rparr> argv
      in if argi < 0 then (SLASH_EINVAL, [])
         else if argi + 1 \<ge> argc argv then (SLASH_EINVAL, [])
         else if argi + 2 \<noteq> argc argv then (SLASH_EINVAL, [])
         else get_loop lib w dfl opts (nth_arg argv (argi + 1)) (params lib) [])"

section \<open>Set\<close>

record set_opts =
  set_node :: int
  set_server :: int
  set_paramver :: int
  set_ack_with_pull :: bool
  set_force :: bool
  set_prio :: int

text \<open>
  The offsets of the parameter: -1 for a string or data parameter; else the array is filled and expanded,
  shrunk to the offsets written, and checked for duplicates. \<open>Inr None\<close> is the return of \<open>SLASH_EINVAL\<close>.
\<close>

definition set_offsets :: "char \<Rightarrow> param_t \<Rightarrow> string option \<Rightarrow> int list option c_result" where
  "set_offsets junk param offset_token =
     (if param_type_of param = PARAM_TYPE_DATA \<or> param_type_of param = PARAM_TYPE_STRING then Inr (Some [- 1])
      else
        (case param_offsets_parse_from_str junk offset_token (param_array_size param)
                (replicate (nat (param_array_size param)) INT_MIN) of
           Inl f \<Rightarrow> Inl f
         | Inr None \<Rightarrow> Inr None
         | Inr (Some (offset_array, expected_value_amount)) \<Rightarrow>
             if expected_value_amount = 0 then Inl Double_Free
             else if hasDuplicates (take expected_value_amount offset_array) then Inr None
             else Inr (Some (take expected_value_amount offset_array))))"

text \<open>A single value is queued for every offset, whatever the queue answers.\<close>

fun queue_single :: "'v param_world \<Rightarrow> param_t \<Rightarrow> 'v \<Rightarrow> int list \<Rightarrow> 'v param_call list \<Rightarrow> 'v param_call list" where
  "queue_single w param v [] tr = tr"
| "queue_single w param v (offset # offsets) tr =
     queue_single w param v offsets (snd (do_call w (Queue_add Local_queue param offset (Some v)) tr))"

text \<open>
  The loop over the value arguments, of which the next one is at the head of the list; the end of the
  list is the null pointer behind the last argument. The result is the code returned from within the loop,
  \<open>None\<close> when the loop ends.
\<close>

fun set_values ::
  "'v param_lib \<Rightarrow> 'v param_world \<Rightarrow> param_t \<Rightarrow> int list \<Rightarrow> string list \<Rightarrow> nat \<Rightarrow> 'v param_call list
     \<Rightarrow> (slash_ret option \<times> 'v param_call list) c_result"
where
  "set_values lib w param offset_array [] iterations tr = Inr (Some SLASH_EINVAL, tr)"
| "set_values lib w param offset_array (a # args) iterations tr =
     (let expected_value_amount = length offset_array; bracket = strchr a CHR ''['' \<noteq> None in
      if bracket \<and> expected_value_amount = 1 then Inr (Some SLASH_EINVAL, tr)
      else if \<not> bracket \<and> a = [] then Inl Out_Of_Bounds
      else
        (let text = (if bracket then tl a else a);
             closing = (text \<noteq> [] \<and> last text = CHR '']'');
             text = (if closing then butlast text else text);
             single = (\<not> bracket \<and> \<not> closing \<and> iterations = 0)
         in case param_str_to_value lib (param_type_of param) text of
              None \<Rightarrow> Inr (Some SLASH_EINVAL, tr)
            | Some v \<Rightarrow>
                if single then Inr (None, queue_single w param v offset_array tr)
                else if iterations > expected_value_amount then Inr (Some SLASH_EINVAL, tr)
                else if iterations = expected_value_amount then Inl Out_Of_Bounds
                else
                  (let (reply, tr) =
                         do_call w (Queue_add Local_queue param (offset_array ! iterations) (Some v)) tr
                   in if reply < 0 then Inr (Some SLASH_EINVAL, tr)
                      else if closing \<and> iterations + 1 \<noteq> expected_value_amount then Inr (Some SLASH_EINVAL, tr)
                      else if closing then Inr (None, tr)
                      else set_values lib w param offset_array args (iterations + 1) tr)))"

text \<open>The end of the command: a local parameter is applied, another is pushed.\<close>

definition set_commit ::
  "'v param_lib \<Rightarrow> 'v param_world \<Rightarrow> slash_defaults \<Rightarrow> set_opts \<Rightarrow> param_t \<Rightarrow> 'v param_call list
     \<Rightarrow> slash_ret \<times> 'v param_call list"
where
  "set_commit lib w dfl opts param tr =
     (if param_node param = 0 then
        (let (r, tr) = do_call w Queue_apply tr; (r, tr) = do_call w (Param_print param 2 0) tr
         in (SLASH_SUCCESS, tr))
      else
        (let dest = (if 0 < set_server opts then set_server opts else set_node opts);
             (time_now, tr) = do_call w Clock_get tr;
             (reply, tr) = do_call w (Push_queue Local_queue (CSP_PRIO_NORM lib) dest (slash_dfl_timeout dfl) 0
                                        (set_ack_with_pull opts)) tr
         in if reply < 0 then (SLASH_EIO, tr)
            else (SLASH_SUCCESS, snd (do_call w (Param_print param 2 time_now) tr))))"

definition set_param ::
  "'v param_lib \<Rightarrow> 'v param_world \<Rightarrow> slash_defaults \<Rightarrow> char \<Rightarrow> set_opts \<Rightarrow> string list \<Rightarrow> int \<Rightarrow> param_t \<Rightarrow> string option
     \<Rightarrow> (slash_ret \<times> 'v param_call list) c_result"
where
  "set_param lib w dfl junk opts argv argi param offset_token =
     (let (r, tr) = do_call w (Clear_timestamp param) [] in
      case set_offsets junk param offset_token of
        Inl f \<Rightarrow> Inl f
      | Inr None \<Rightarrow> Inr (SLASH_EINVAL, tr)
      | Inr (Some offset_array) \<Rightarrow>
          if param_array_size param = 1 \<and> length offset_array > 1 then Inr (SLASH_EINVAL, tr)
          else if param_mask param AND PM_READONLY lib \<noteq> 0 \<and> \<not> set_force opts then Inr (SLASH_EINVAL, tr)
          else if argi + 1 \<ge> argc argv then Inr (SLASH_EINVAL, tr)
          else
            (case parse_slash_values argv (nat (argi + 1)) [1, int (length offset_array)] of
               Inl f \<Rightarrow> Inl f
             | Inr False \<Rightarrow> Inr (SLASH_EINVAL, tr)
             | Inr True \<Rightarrow>
                 (let (r, tr) = do_call w Queue_init tr in
                  case set_values lib w param offset_array (drop (nat (argi + 1)) argv) 0 tr of
                    Inl f \<Rightarrow> Inl f
                  | Inr (Some ret, tr) \<Rightarrow> Inr (ret, tr)
                  | Inr (None, tr) \<Rightarrow> Inr (set_commit lib w dfl opts param tr))))"

definition cmd_set ::
  "'v param_lib \<Rightarrow> 'v param_world \<Rightarrow> slash_defaults \<Rightarrow> char \<Rightarrow> set_opts optparse \<Rightarrow> string list
     \<Rightarrow> (slash_ret \<times> 'v param_call list) c_result"
where
  "cmd_set lib w dfl junk parser argv =
     (let (argi, opts) = optparse_parse parser
            \<lparr>set_node = slash_dfl_node dfl, set_server = 0, set_paramver = 2, set_ack_with_pull = True,
             set_force = False, set_prio = CSP_PRIO_NORM lib\<rparr> argv
      in if argi < 0 then Inr (SLASH_EINVAL, [])
         else if argi + 1 \<ge> argc argv then Inr (SLASH_EINVAL, [])
         else
           (let (code, n, found, offset_token) =
                  parse_param_offset_string (finder lib) (nth_arg argv (argi + 1)) (set_node opts)
            in if code < 0 then Inr (SLASH_EINVAL, [])
               else
                 (case found of
                    None \<Rightarrow> Inr (SLASH_EINVAL, [])
                  | Some param \<Rightarrow> set_param lib w dfl junk opts argv (argi + 1) param offset_token)))"

section \<open>Completion of a parameter name\<close>

record completer_opts =
  completer_node :: int

text \<open>Where the text to complete starts in the line: \<open>None\<close> when the options cannot be parsed. The line
  is searched from there for the first character that is no space.\<close>

definition skip_spaces :: "string \<Rightarrow> nat \<Rightarrow> nat" where
  "skip_spaces buffer off = off + length (takeWhile (\<lambda>c. c = CHR '' '') (drop off buffer))"

definition completion_start :: "string \<Rightarrow> nat \<Rightarrow> string list \<Rightarrow> int \<Rightarrow> nat option" where
  "completion_start buffer token_off argv argi =
     (if argi = - 1 then None
      else if argi = argc argv then Some (skip_spaces buffer (length buffer))
      else if argi = 0 then Some (skip_spaces buffer token_off)
      else Some (skip_spaces buffer (length buffer - length (last argv))))"

text \<open>The pass over the matches: the first match and the length of the prefix common to it and all others.\<close>

definition completer_selects :: "int \<Rightarrow> string \<Rightarrow> param_t \<Rightarrow> bool" where
  "completer_selects node token param \<longleftrightarrow>
     \<not> (node \<noteq> param_node param) \<and> \<not> (length token > length (param_name param)) \<and>
     strncmp_eq token (param_name param) (min (length (param_name param)) (length token))"

fun match_prefix :: "(string \<Rightarrow> string \<Rightarrow> nat) \<Rightarrow> string \<Rightarrow> nat \<Rightarrow> param_t list \<Rightarrow> nat" where
  "match_prefix slash_prefix_length pre prefixlen [] = prefixlen"
| "match_prefix slash_prefix_length pre prefixlen (param # rest) =
     (let new_prefixlen = slash_prefix_length pre (param_name param) in
      match_prefix slash_prefix_length pre (if new_prefixlen < prefixlen then new_prefixlen else prefixlen) rest)"

text \<open>The new text of the line and the parameters printed.\<close>

definition param_completer ::
  "'v param_lib \<Rightarrow> slash_defaults \<Rightarrow> (string \<Rightarrow> string \<Rightarrow> nat) \<Rightarrow> completer_opts optparse \<Rightarrow> string \<Rightarrow> nat
     \<Rightarrow> string list \<Rightarrow> string \<times> param_t list"
where
  "param_completer lib dfl slash_prefix_length parser buffer token_off argv =
     (let (argi, opts) = parser \<lparr>completer_node = slash_dfl_node dfl\<rparr> argv; node = completer_node opts
      in case completion_start buffer token_off argv argi of
           None \<Rightarrow> (buffer, [])
         | Some start \<Rightarrow>
             (let token = drop start buffer in
              if has_wildcard lib token then
                (buffer, filter (\<lambda>param. node = param_node param \<and> strmatch lib (param_name param) token) (params lib))
              else
                (let matches = filter (completer_selects node token) (params lib) in
                 case matches of
                   [] \<Rightarrow> (buffer, [])
                 | param # rest \<Rightarrow>
                     (let prefixlen = match_prefix slash_prefix_length (param_name param)
                                        (length (param_name param)) rest
                      in (take start buffer @ take prefixlen (param_name param), matches)))))"

section \<open>Properties\<close>

subsection \<open>Get\<close>

text \<open>The calls made one after the other, up to the first pull that fails.\<close>

fun run_calls :: "'v param_world \<Rightarrow> 'v param_call list \<Rightarrow> 'v param_call list \<Rightarrow> slash_ret \<times> 'v param_call list" where
  "run_calls w [] tr = (SLASH_SUCCESS, tr)"
| "run_calls w (c # cs) tr =
     (if is_pull c \<and> w tr c < 0 then (SLASH_EIO, tr @ [c]) else run_calls w cs (tr @ [c]))"

definition call_fails :: "'v param_world \<Rightarrow> 'v param_call list \<Rightarrow> 'v param_call list \<Rightarrow> nat \<Rightarrow> bool" where
  "call_fails w tr calls i \<longleftrightarrow> is_pull (calls ! i) \<and> w (tr @ take i calls) (calls ! i) < 0"

definition stops_at :: "'v param_world \<Rightarrow> 'v param_call list \<Rightarrow> 'v param_call list \<Rightarrow> nat \<Rightarrow> bool" where
  "stops_at w tr calls k \<longleftrightarrow>
     k \<le> length calls \<and> (\<forall>i < k. \<not> call_fails w tr calls i) \<and> (k < length calls \<longrightarrow> call_fails w tr calls k)"

lemma get_loop_run_calls:
  "get_loop lib w dfl opts n ps tr = run_calls w (map (get_call dfl opts) (filter (get_selects lib opts n) ps)) tr"
  by (induction ps arbitrary: tr) (auto simp: do_call_def Let_def)

lemma call_fails_Cons [simp]:
  "call_fails w tr (c # cs) (Suc i) = call_fails w (tr @ [c]) cs i"
  "call_fails w tr (c # cs) 0 = (is_pull c \<and> w tr c < 0)"
  by (simp_all add: call_fails_def)

lemma stops_at_Cons:
  "\<not> call_fails w tr (c # cs) 0 \<Longrightarrow> stops_at w (tr @ [c]) cs k \<Longrightarrow> stops_at w tr (c # cs) (Suc k)"
  by (auto simp: stops_at_def less_Suc_eq_0_disj)

lemma run_calls_stops:
  "\<exists>k. run_calls w calls tr =
     (if k < length calls then SLASH_EIO else SLASH_SUCCESS, tr @ take (k + 1) calls) \<and> stops_at w tr calls k"
proof (induction calls arbitrary: tr)
  case Nil
  then show ?case by (simp add: stops_at_def)
next
  case (Cons c cs)
  show ?case
  proof (cases "call_fails w tr (c # cs) 0")
    case True
    then have "stops_at w tr (c # cs) 0" by (simp add: stops_at_def)
    then show ?thesis using True by (intro exI [of _ 0]) simp
  next
    case False
    obtain k where k: "run_calls w cs (tr @ [c]) =
        (if k < length cs then SLASH_EIO else SLASH_SUCCESS, (tr @ [c]) @ take (k + 1) cs)"
      "stops_at w (tr @ [c]) cs k"
      using Cons.IH by blast
    show ?thesis
      by (intro exI [of _ "Suc k"] conjI stops_at_Cons False k(2)) (use k(1) False in auto)
  qed
qed

text \<open>
  \<open>get\<close> with a name (a pattern) goes through the parameter list in order and acts on the parameters
  that match the name, the node and the mask, printing the local ones and pulling the others, up to the
  first that does not answer; it reports success exactly when all of them were handled.
\<close>

theorem cmd_get_calls:
  assumes "parser \<lparr>get_node = slash_dfl_node dfl, get_server = 0, get_paramver = 2,
      get_prio = CSP_PRIO_NORM lib, get_mask = None\<rparr> [n] = (0, opts)"
    and "calls = map (get_call dfl opts) (filter (get_selects lib opts n) (params lib))"
  shows "\<exists>k. cmd_get lib w dfl parser [''get'', n] =
      (if k < length calls then SLASH_EIO else SLASH_SUCCESS, take (k + 1) calls) \<and> stops_at w [] calls k"
proof -
  have "cmd_get lib w dfl parser [''get'', n] = run_calls w calls []"
    using assms by (simp add: cmd_get_def optparse_parse_def nth_arg_def get_loop_run_calls)
  then show ?thesis
    using run_calls_stops [of w calls "[]"] by simp
qed

abbreviation obc_param :: param_t where
  "obc_param \<equiv> \<lparr>param_id = 1, param_node = 5, param_name = ''gain'', param_type_of = PARAM_TYPE_OTHER 0,
     param_array_size = 4, param_mask = 0\<rparr>"

abbreviation demo_lib :: "string param_lib" where
  "demo_lib \<equiv> \<lparr>finder = \<lparr>param_list_find_id = \<lambda>n i. None, param_list_find_name = \<lambda>n s. Some obc_param\<rparr>,
     params = [obc_param], strmatch = (=), has_wildcard = \<lambda>s. False, param_maskstr_to_mask = \<lambda>s. 0,
     param_str_to_value = \<lambda>t s. Some s, PM_READONLY = 1, PM_HWREG = 2, PM_REMOTE = 4, CSP_PRIO_NORM = 2\<rparr>"

theorem cmd_get_calls_witness:
  "\<exists>k. cmd_get demo_lib (\<lambda>tr c. - 1) \<lparr>slash_dfl_node = 5, slash_dfl_timeout = 1000\<rparr> (\<lambda>opts args. (0, opts))
      [''get'', ''gain''] =
    (if k < 1 then SLASH_EIO else SLASH_SUCCESS, take (k + 1) [Pull_single obc_param (- 1) 2 5 1000 2])"
proof -
  let ?opts = "\<lparr>get_node = 5, get_server = 0, get_paramver = 2, get_prio = 2, get_mask = None\<rparr>"
  have "map (get_call \<lparr>slash_dfl_node = 5, slash_dfl_timeout = 1000\<rparr> ?opts)
      (filter (get_selects demo_lib ?opts ''gain'') (params demo_lib)) = [Pull_single obc_param (- 1) 2 5 1000 2 :: string param_call]"
    by (simp add: get_selects_def get_call_def)
  then show ?thesis
    using cmd_get_calls [of "\<lambda>opts args. (0, opts)" "\<lparr>slash_dfl_node = 5, slash_dfl_timeout = 1000\<rparr>" demo_lib
      "''gain''" ?opts "[Pull_single obc_param (- 1) 2 5 1000 2]" "\<lambda>tr c. - 1"]
    by auto
qed

subsection \<open>Set\<close>

text \<open>The calls that set a value of a remote or local parameter.\<close>

definition is_setting :: "'v param_call \<Rightarrow> bool" where
  "is_setting c \<longleftrightarrow> (case c of Queue_add q p i v \<Rightarrow> True | Push_queue q a b d e f \<Rightarrow> True | Queue_apply \<Rightarrow> True | _ \<Rightarrow> False)"

text \<open>
  C34: \<open>set\<close> never queues, pushes or applies a value for a read-only parameter unless the option that forces
  it is given.
\<close>

theorem cmd_set_respects_readonly:
  assumes "parser \<lparr>set_node = slash_dfl_node dfl, set_server = 0, set_paramver = 2, set_ack_with_pull = True,
      set_force = False, set_prio = CSP_PRIO_NORM lib\<rparr> (tl argv) = (argi, opts)" "\<not> set_force opts"
    and "cmd_set lib w dfl junk parser argv = Inr (ret, tr)"
    and "\<And>code n p tok. parse_param_offset_string (finder lib) (nth_arg argv (argi + 1)) (set_node opts) =
      (code, n, Some p, tok) \<Longrightarrow> param_mask p AND PM_READONLY lib \<noteq> 0"
  shows "ret = SLASH_EINVAL \<and> \<not> list_ex is_setting tr"
  using assms
  by (auto simp: cmd_set_def set_param_def optparse_parse_def do_call_def is_setting_def Let_def
      split: if_splits option.splits prod.splits sum.splits)

abbreviation ro_param :: param_t where
  "ro_param \<equiv> obc_param\<lparr>param_mask := 1\<rparr>"

abbreviation ro_lib :: "string param_lib" where
  "ro_lib \<equiv> demo_lib\<lparr>finder := \<lparr>param_list_find_id = \<lambda>n i. None, param_list_find_name = \<lambda>n s. Some ro_param\<rparr>\<rparr>"

theorem cmd_set_respects_readonly_witness:
  "cmd_set ro_lib (\<lambda>tr c. 0) \<lparr>slash_dfl_node = 5, slash_dfl_timeout = 1000\<rparr> NUL (\<lambda>opts args. (0, opts))
      [''set'', ''gain'', ''7''] = Inr (SLASH_EINVAL, [Clear_timestamp ro_param]) \<and>
   \<not> list_ex is_setting [Clear_timestamp ro_param :: string param_call]"
proof -
  let ?opts = "\<lparr>set_node = 5, set_server = 0, set_paramver = 2, set_ack_with_pull = True,
     set_force = False, set_prio = 2\<rparr>"
  have run: "cmd_set ro_lib (\<lambda>tr c. 0) \<lparr>slash_dfl_node = 5, slash_dfl_timeout = 1000\<rparr> NUL (\<lambda>opts args. (0, opts))
      [''set'', ''gain'', ''7''] = Inr (SLASH_EINVAL, [Clear_timestamp ro_param])"
    by code_simp
  have found: "parse_param_offset_string (finder ro_lib) ''gain'' 5 = (0, ''gain'', Some ro_param, None)"
    by code_simp
  show ?thesis
    using cmd_set_respects_readonly [of "\<lambda>opts args. (0, opts)" "\<lparr>slash_dfl_node = 5, slash_dfl_timeout = 1000\<rparr>"
      ro_lib "[''set'', ''gain'', ''7'']" 0 ?opts "\<lambda>tr c. 0" NUL SLASH_EINVAL "[Clear_timestamp ro_param]"] run found
    by (auto simp: nth_arg_def)
qed

text \<open>A world in which every call succeeds.\<close>

definition answering :: "('c, int) world \<Rightarrow> bool" where
  "answering w \<longleftrightarrow> (\<forall>tr c. 0 \<le> w tr c)"

lemma answering_not_negative [simp]: "answering w \<Longrightarrow> \<not> w tr c < 0"
  by (simp add: answering_def not_less)

text \<open>A plain value text: not empty, without a bracket that would open or close an array.\<close>

definition plain_value :: "string \<Rightarrow> bool" where
  "plain_value t \<longleftrightarrow> t \<noteq> [] \<and> CHR ''['' \<notin> set t \<and> last t \<noteq> CHR '']''"

definition add_call :: "'v param_lib \<Rightarrow> param_t \<Rightarrow> int \<Rightarrow> string \<Rightarrow> 'v param_call" where
  "add_call lib param offset t = Queue_add Local_queue param offset (param_str_to_value lib (param_type_of param) t)"

lemma queue_single_trace:
  "queue_single w param v offs tr = tr @ map (\<lambda>i. Queue_add Local_queue param i (Some v)) offs"
  by (induction offs arbitrary: tr) (simp_all add: do_call_def)

lemma set_values_single:
  assumes "plain_value t" "param_str_to_value lib (param_type_of param) t = Some v"
  shows "set_values lib w param offs (t # args) 0 tr =
    Inr (None, tr @ map (\<lambda>i. add_call lib param i t) offs)"
  using assms by (simp add: plain_value_def strchr_def queue_single_trace add_call_def Let_def)

lemma set_values_rest:
  assumes "answering w" "\<forall>t \<in> set (ts @ [t']). plain_value t \<and> param_str_to_value lib (param_type_of param) t \<noteq> None"
    and "0 < it" "it + length ts + 1 = length offs"
  shows "set_values lib w param offs (ts @ [t' @ '']'']) it tr =
    Inr (None, tr @ map2 (add_call lib param) (drop it offs) (ts @ [t']))"
  using assms(2-)
proof (induction ts arbitrary: it tr)
  case Nil
  obtain v where v: "param_str_to_value lib (param_type_of param) t' = Some v" using Nil by auto
  have d: "drop it offs = [offs ! it]"
    using Nil by (simp add: Cons_nth_drop_Suc [symmetric])
  show ?case
    using Nil v assms(1) by (simp add: plain_value_def strchr_def do_call_def add_call_def d Let_def)
next
  case (Cons t ts)
  obtain v where v: "param_str_to_value lib (param_type_of param) t = Some v" using Cons.prems by auto
  have d: "drop it offs = offs ! it # drop (Suc it) offs"
    using Cons.prems by (simp add: Cons_nth_drop_Suc)
  have "set_values lib w param offs (t # (ts @ [t' @ '']''])) it tr =
      set_values lib w param offs (ts @ [t' @ '']'']) (it + 1) (tr @ [add_call lib param (offs ! it) t])"
    using Cons.prems v assms(1)
    by (simp add: plain_value_def strchr_def do_call_def add_call_def Let_def)
  also have "\<dots> = Inr (None, (tr @ [add_call lib param (offs ! it) t]) @
      map2 (add_call lib param) (drop (it + 1) offs) (ts @ [t']))"
    by (rule Cons.IH) (use Cons.prems in auto)
  finally show ?case using d by simp
qed

lemma set_values_array:
  assumes "answering w"
    and "\<forall>t \<in> set (t # ts @ [t']). plain_value t \<and> param_str_to_value lib (param_type_of param) t \<noteq> None"
    and "length ts + 2 = length offs"
  shows "set_values lib w param offs ((CHR ''['' # t) # ts @ [t' @ '']'']) 0 tr =
    Inr (None, tr @ map2 (add_call lib param) offs (t # ts @ [t']))"
proof -
  obtain v where v: "param_str_to_value lib (param_type_of param) t = Some v" using assms(2) by auto
  have "length offs \<noteq> 1" using assms(3) by simp
  moreover obtain o1 offs' where "offs = o1 # offs'" using assms(3) by (cases offs) auto
  ultimately have o: "offs = o1 # offs'" "length offs \<noteq> 1" by simp_all
  have "set_values lib w param offs ((CHR ''['' # t) # ts @ [t' @ '']'']) 0 tr =
      set_values lib w param offs (ts @ [t' @ '']'']) 1 (tr @ [add_call lib param o1 t])"
    using assms(1,2) v o by (simp add: plain_value_def strchr_def do_call_def add_call_def Let_def)
  also have "\<dots> = Inr (None, (tr @ [add_call lib param o1 t]) @ map2 (add_call lib param) (drop 1 offs) (ts @ [t']))"
    by (rule set_values_rest) (use assms in auto)
  finally show ?thesis using o by simp
qed

definition commit_call :: "'v param_lib \<Rightarrow> slash_defaults \<Rightarrow> set_opts \<Rightarrow> param_t \<Rightarrow> 'v param_call" where
  "commit_call lib dfl opts param =
     (if param_node param = 0 then Queue_apply
      else Push_queue Local_queue (CSP_PRIO_NORM lib)
             (if 0 < set_server opts then set_server opts else set_node opts) (slash_dfl_timeout dfl) 0
             (set_ack_with_pull opts))"

lemma set_commit_trace:
  assumes "answering w"
  shows "fst (set_commit lib w dfl opts param tr) = SLASH_SUCCESS \<and>
    filter is_setting (snd (set_commit lib w dfl opts param tr)) =
      filter is_setting tr @ [commit_call lib dfl opts param]"
  using assms by (auto simp: set_commit_def commit_call_def do_call_def is_setting_def Let_def)

text \<open>The arguments that give the values, and the value each offset gets.\<close>

definition value_args :: "string list \<Rightarrow> string list" where
  "value_args texts =
     (if length texts = 1 then texts
      else (CHR ''['' # hd texts) # butlast (tl texts) @ [last texts @ '']''])"

definition value_pairs :: "int list \<Rightarrow> string list \<Rightarrow> (int \<times> string) list" where
  "value_pairs offs texts = (if length texts = 1 then map (\<lambda>i. (i, hd texts)) offs else zip offs texts)"

lemma value_args_props: "texts \<noteq> [] \<Longrightarrow> length (value_args texts) = length texts"
  by (cases texts; cases "tl texts") (auto simp: value_args_def)

lemma set_values_args:
  assumes "answering w" "texts \<noteq> []"
    and "\<forall>t \<in> set texts. plain_value t \<and> param_str_to_value lib (param_type_of param) t \<noteq> None"
    and "length texts = 1 \<or> length texts = length offs"
  shows "set_values lib w param offs (value_args texts) 0 tr =
    Inr (None, tr @ map (\<lambda>p. add_call lib param (fst p) (snd p)) (value_pairs offs texts))"
proof (cases "length texts = 1")
  case True
  then obtain t where "texts = [t]" by (cases texts) auto
  then show ?thesis
    using set_values_single [of t lib param _ w offs "[]" tr] assms(3)
    by (auto simp: value_args_def value_pairs_def o_def)
next
  case False
  then obtain t t1 ts1 where "texts = t # t1 # ts1" using assms(2) by (cases texts; cases "tl texts") auto
  then obtain ts t' where t: "texts = t # ts @ [t']"
    by (metis rev_exhaust list.discI append_butlast_last_id)
  then show ?thesis
    using set_values_array [OF assms(1), of t ts t' lib param offs tr] assms(3,4) False
    by (simp add: value_args_def value_pairs_def map2_map_map split_beta flip: split_def)
qed

text \<open>The arguments behind the options \<open>os\<close>, which the parser consumed.\<close>

lemma nth_arg_behind: "nth_arg (cmd # os @ n # args) (int (length os) + 1) = n"
  by (simp add: nth_arg_def nat_add_distrib)

lemma parse_slash_values_behind:
  assumes "length args \<le> 100"
  shows "parse_slash_values (cmd # os @ n # args) (length os + 2) [1, int k] = Inr (length args = 1 \<or> length args = k)"
  using assms by (auto simp: parse_slash_values_def)

text \<open>
  C2: \<open>set\<close>, with any options in front, when everything answers, the parameter is found, its offsets are accepted and it
  is not read-only (or \<open>force\<close> is given): \<open>set p[...] v\<close> queues the value once for every offset, and
  \<open>set p[...] [v1 v2 ... vn]\<close>, with as many values as offsets, queues the i-th value for the i-th offset, in order and
  nothing else; the queue is then pushed once, to the server if an option gave one and else to the node, or applied if
  the parameter is local. The values must be at most 100 (the code counts no further and refuses, say, 101 values for
  101 offsets), be accepted by the parameter library, and be neither empty, nor hold an opening bracket, nor end in a
  closing one. An array of size 1 takes one offset only.
\<close>

theorem cmd_set_queues_values:
  assumes "answering w"
    and "parser \<lparr>set_node = slash_dfl_node dfl, set_server = 0, set_paramver = 2, set_ack_with_pull = True,
      set_force = False, set_prio = CSP_PRIO_NORM lib\<rparr> (os @ n # value_args texts) = (int (length os), opts)"
    and "parse_param_offset_string (finder lib) n (set_node opts) = (0, n', Some param, tok)"
    and "set_offsets junk param tok = Inr (Some offs)" "param_array_size param \<noteq> 1 \<or> length offs \<le> 1"
    and "param_mask param AND PM_READONLY lib = 0 \<or> set_force opts"
    and "texts \<noteq> []" "length texts \<le> 100" "length texts = 1 \<or> length texts = length offs"
    and "\<forall>t \<in> set texts. plain_value t \<and> param_str_to_value lib (param_type_of param) t \<noteq> None"
  shows "\<exists>tr. cmd_set lib w dfl junk parser (''set'' # os @ n # value_args texts) = Inr (SLASH_SUCCESS, tr) \<and>
    filter is_setting tr =
      map (\<lambda>p. add_call lib param (fst p) (snd p)) (value_pairs offs texts) @ [commit_call lib dfl opts param]"
proof -
  let ?argv = "''set'' # os @ n # value_args texts"
  let ?tr = "[Clear_timestamp param, Queue_init] @
    map (\<lambda>p. add_call lib param (fst p) (snd p)) (value_pairs offs texts)"
  have len: "length (value_args texts) = length texts" using assms(7) by (rule value_args_props)
  have vals: "parse_slash_values ?argv (length os + 2) [1, int (length offs)] = Inr True"
    using parse_slash_values_behind [of "value_args texts" "''set''" os n "length offs"] len assms(8,9) by simp
  have ne: "0 < length (value_args texts)" using len assms(7) by auto
  have drop: "drop (length os + 2) ?argv = value_args texts" by simp
  have idx: "nat (int (length os) + 1 + 1) = length os + 2" by simp
  have "set_param lib w dfl junk opts ?argv (int (length os) + 1) param tok = Inr (set_commit lib w dfl opts param ?tr)"
    using assms(4-6) vals ne set_values_args [OF assms(1,7,10,9)]
    unfolding set_param_def idx drop by (auto simp: do_call_def)
  then have "cmd_set lib w dfl junk parser ?argv = Inr (set_commit lib w dfl opts param ?tr)"
    using assms(2,3) ne by (simp add: cmd_set_def optparse_parse_def nth_arg_behind)
  moreover have "filter is_setting ?tr = map (\<lambda>p. add_call lib param (fst p) (snd p)) (value_pairs offs texts)"
    by (simp add: filter_map o_def is_setting_def add_call_def)
  ultimately show ?thesis
    using set_commit_trace [OF assms(1), of lib dfl opts param ?tr]
    by (cases "set_commit lib w dfl opts param ?tr") simp
qed

abbreviation demo_dfl :: slash_defaults where
  "demo_dfl \<equiv> \<lparr>slash_dfl_node = 5, slash_dfl_timeout = 1000\<rparr>"

abbreviation demo_set_opts :: set_opts where
  "demo_set_opts \<equiv> \<lparr>set_node = 5, set_server = 0, set_paramver = 2, set_ack_with_pull = True,
     set_force = False, set_prio = 2\<rparr>"

lemma demo_parse: "parse_param_offset_string (finder demo_lib) ''gain'' 5 = (0, ''gain'', Some obc_param, None)"
  by code_simp

lemma demo_offsets: "set_offsets NUL obc_param None = Inr (Some [0, 1, 2, 3])"
  by code_simp

text \<open>The value for all four elements, sent to the server that an option names.\<close>

theorem cmd_set_queues_values_witness:
  "\<exists>tr. cmd_set demo_lib (\<lambda>tr c. 0) demo_dfl NUL (\<lambda>opts args. (2, opts\<lparr>set_server := 9\<rparr>))
      [''set'', ''-s'', ''9'', ''gain'', ''7''] = Inr (SLASH_SUCCESS, tr) \<and>
    filter is_setting tr = map (\<lambda>i. Queue_add Local_queue obc_param i (Some ''7'')) [0, 1, 2, 3] @
      [Push_queue Local_queue 2 9 1000 0 True]"
  using cmd_set_queues_values [of "\<lambda>tr c. 0" "\<lambda>opts args. (2, opts\<lparr>set_server := 9\<rparr>)" demo_dfl demo_lib
    "[''-s'', ''9'']" "''gain''" "[''7'']" "demo_set_opts\<lparr>set_server := 9\<rparr>" "''gain''" obc_param None NUL "[0, 1, 2, 3]"]
    demo_parse demo_offsets
  by (simp add: answering_def value_args_def value_pairs_def plain_value_def add_call_def commit_call_def)

lemma hasDuplicates_iff: "hasDuplicates xs \<longleftrightarrow> \<not> distinct xs"
  by (induction xs) auto

lemma set_values_safe:
  assumes "it + length args \<le> length offs" "[] \<notin> set args"
  shows "no_fault (set_values lib w param offs args it tr)"
  using assms
proof (induction args arbitrary: it tr)
  case (Cons a args)
  have rest: "no_fault (set_values lib w param offs args (it + 1) tr')" for tr'
    by (rule Cons.IH) (use Cons.prems in auto)
  have "it < length offs" "a \<noteq> []" using Cons.prems by auto
  then show ?case
    using rest
    by (simp add: no_fault_branches Let_def do_call_def cong: if_cong option.case_cong split del: if_split)
qed simp

lemma set_offsets_safe:
  assumes "0 < param_array_size p" "\<And>t. tok = Some t \<Longrightarrow> strtok_all '','' t \<noteq> []"
  shows "\<exists>r. set_offsets junk p tok = Inr r \<and> (\<forall>offs. r = Some offs \<longrightarrow> offs \<noteq> [] \<and> distinct offs)"
proof (cases "param_type_of p = PARAM_TYPE_DATA \<or> param_type_of p = PARAM_TYPE_STRING")
  case True
  then show ?thesis by (simp add: set_offsets_def)
next
  case False
  let ?offs = "replicate (nat (param_array_size p)) INT_MIN"
  have len: "length ?offs = nat (param_array_size p)" by simp
  obtain r where r: "param_offsets_parse_from_str junk tok (param_array_size p) ?offs = Inr r"
    "offsets_ok False (param_array_size p) (Inr r)"
    using assms(1) store_slice_ok [OF len, of 0 "param_array_size p" 0 False]
      store_tokens_ok [OF len, of 0 False _ junk]
    by (cases tok)
       (force simp: param_offsets_parse_from_str_def offsets_ok_def split: sum.splits)+
  show ?thesis
  proof (cases r)
    case None
    then show ?thesis using r False by (simp add: set_offsets_def)
  next
    case (Some q)
    obtain offs n where q: "q = (offs, n)" by (cases q)
    have "0 < n"
    proof (cases tok)
      case None
      then show ?thesis
        using r(1) Some q assms(1) store_slice_result [OF len, of 0 "param_array_size p" 0]
        by (auto simp: param_offsets_parse_from_str_def)
    next
      case tok: (Some t)
      then show ?thesis
        using r(1) Some q store_tokens_grows [OF len] assms(2)
        by (fastforce simp: param_offsets_parse_from_str_def)
    qed
    moreover have "length offs = nat (param_array_size p)" "n \<le> nat (param_array_size p)"
      using r(2) Some q by (simp_all add: offsets_ok_def)
    ultimately show ?thesis
      using r(1) Some q False assms(1) by (auto simp: set_offsets_def hasDuplicates_iff)
  qed
qed

lemma set_param_safe:
  assumes "0 < param_array_size p" "\<forall>t. tok = Some t \<longrightarrow> strtok_all '','' t \<noteq> []" "length args \<le> 100" "[] \<notin> set args"
  shows "no_fault (set_param lib w dfl junk opts (''set'' # os @ n # args) (int (length os) + 1) p tok)"
proof -
  let ?argv = "''set'' # os @ n # args"
  have "\<exists>r. set_offsets junk p tok = Inr r \<and> (\<forall>offs. r = Some offs \<longrightarrow> offs \<noteq> [] \<and> distinct offs)"
    by (rule set_offsets_safe) (use assms in auto)
  then obtain r where r: "set_offsets junk p tok = Inr r"
    "\<forall>offs. r = Some offs \<longrightarrow> offs \<noteq> [] \<and> distinct offs" by blast
  have idx: "nat (int (length os) + 1 + 1) = length os + 2" by simp
  have drop: "drop (length os + 2) ?argv = args" by simp
  show ?thesis
  proof (cases r)
    case None
    then show ?thesis using r by (simp add: set_param_def do_call_def)
  next
    case (Some offs)
    note vals = parse_slash_values_behind [OF assms(3), of "''set''" os n "length offs"]
    have "1 \<le> length offs" using r(2) Some by (cases offs) auto
    then have run: "no_fault (set_values lib w p offs args 0 tr)"
      if "length args = 1 \<or> length args = length offs" for tr
      using that assms(4) by (intro set_values_safe) auto
    show ?thesis
    proof (cases "length args = 1 \<or> length args = length offs")
      case True
      then obtain ret tr where "set_values lib w p offs args 0 [Clear_timestamp p, Queue_init] = Inr (ret, tr)"
        using run [of "[Clear_timestamp p, Queue_init]"] by (auto simp: no_fault_iff)
      then show ?thesis
        using r Some vals True unfolding set_param_def idx drop by (cases ret) (simp_all add: do_call_def)
    next
      case False
      then show ?thesis using r Some vals unfolding set_param_def idx by (simp add: do_call_def)
    qed
  qed
qed

text \<open>
  C29: \<open>set\<close>, with any options in front, never reads beyond its offsets or arguments and never frees its offsets twice,
  whatever the values and the answers of the libraries, if the parameter has a positive array size, the offsets in
  brackets (if there are any) are not only commas, and there are at most 100 value arguments, none of them empty.
  (Without these the code goes wrong, as \<open>cmd_set_faults\<close> shows for two of them; a size of 0 without brackets frees twice
  as well.)
\<close>

theorem cmd_set_safe:
  assumes "parser \<lparr>set_node = slash_dfl_node dfl, set_server = 0, set_paramver = 2, set_ack_with_pull = True,
      set_force = False, set_prio = CSP_PRIO_NORM lib\<rparr> (os @ n # args) = (int (length os), opts)"
    and "\<And>n' p tok. parse_param_offset_string (finder lib) n (set_node opts) = (0, n', Some p, tok) \<Longrightarrow>
      0 < param_array_size p \<and> (\<forall>t. tok = Some t \<longrightarrow> strtok_all '','' t \<noteq> [])"
    and "length args \<le> 100" "[] \<notin> set args"
  shows "no_fault (cmd_set lib w dfl junk parser (''set'' # os @ n # args))"
proof -
  obtain code n' f tok where po: "parse_param_offset_string (finder lib) n (set_node opts) = (code, n', f, tok)"
    using prod_cases4 by blast
  then have "code < 0 \<or> code = 0" "code = 0 \<Longrightarrow> f \<noteq> None"
    by (auto simp: parse_param_offset_string_def split_beta split: if_splits option.splits dest!: sym [of "Some _"])
  then show ?thesis
    using assms(1) po assms(2) set_param_safe [OF _ _ assms(3,4)]
    by (auto simp: cmd_set_def optparse_parse_def nth_arg_behind)
qed

theorem cmd_set_safe_witness:
  "no_fault (cmd_set demo_lib (\<lambda>tr c. 0) demo_dfl NUL (\<lambda>opts args. (0, opts)) [''set'', ''gain'', ''7''])"
  using cmd_set_safe [of "\<lambda>opts args. (0, opts)" demo_dfl demo_lib "[]" "''gain''" "[''7'']" demo_set_opts "\<lambda>tr c. 0" NUL]
    demo_parse by auto

text \<open>
  Outside those conditions the code goes wrong: an offset list of commas only makes it free its offsets
  twice; and a parameter with 100 elements given 101 values passes the count, which stops at 100, and the
  101st value is stored with an offset read beyond the array.
\<close>

theorem cmd_set_faults:
  assumes "answering w" "plain_value t" "param_str_to_value lib (param_type_of p) t = Some v"
    and "length offs = 100"
  shows "set_offsets junk obc_param (Some '','') = Inl Double_Free \<and>
    parse_slash_values ([''set'', ''p'', CHR ''['' # t] @ replicate 100 t) 2 [1, 100] = Inr True \<and>
    set_values lib w p offs ((CHR ''['' # t) # replicate 100 t) 0 tr = Inl Out_Of_Bounds"
proof -
  have "strtok_all '','' '','' = []" by code_simp
  then have a: "set_offsets junk obc_param (Some '','') = Inl Double_Free"
    by (simp add: set_offsets_def param_offsets_parse_from_str_def)
  have b: "parse_slash_values ([''set'', ''p'', CHR ''['' # t] @ replicate 100 t) 2 [1, 100] = Inr True"
    by (simp add: parse_slash_values_def)
  have step: "set_values lib w p offs (replicate k t) it tr = Inl Out_Of_Bounds"
    if "0 < it" "it + k = 101" "0 < k" for it k tr
    using that
  proof (induction k arbitrary: it tr)
    case (Suc k)
    show ?case
    proof (cases k)
      case 0
      then show ?thesis
        using Suc.prems assms by (simp add: plain_value_def strchr_def)
    next
      case k: (Suc k')
      have "set_values lib w p offs (replicate (Suc k) t) it tr =
          set_values lib w p offs (replicate k t) (it + 1) (tr @ [Queue_add Local_queue p (offs ! it) (Some v)])"
        unfolding replicate_Suc set_values.simps Let_def
        using assms k Suc.prems by (simp add: plain_value_def strchr_def do_call_def)
      then show ?thesis using Suc.IH [of "it + 1"] Suc.prems k by simp
    qed
  qed simp
  have "set_values lib w p offs ((CHR ''['' # t) # args) 0 tr =
      set_values lib w p offs args 1 (tr @ [Queue_add Local_queue p (offs ! 0) (Some v)])" for args
    using assms by (simp add: plain_value_def strchr_def do_call_def)
  then show ?thesis using a b step [of 1 100] by simp
qed

theorem cmd_set_faults_witness:
  "set_offsets NUL obc_param (Some '','') = Inl Double_Free \<and>
   set_values demo_lib (\<lambda>tr c. 0) obc_param (map int [0..<100]) (''[7'' # replicate 100 ''7'') 0 [] = Inl Out_Of_Bounds"
  using cmd_set_faults [of "\<lambda>tr c. 0" "''7''" demo_lib obc_param "''7''" "map int [0..<100]" NUL "[]"]
  by (simp add: answering_def plain_value_def)

end
