(* ===== verification/Param_Queue.thy ===== *)
theory Param_Queue
  imports Param_Cmds
begin

text \<open>
  The commands of \<open>src/param_slash.c\<close> that edit and run a queue of parameters, \<open>cmd new\<close>, \<open>cmd add\<close>,
  \<open>cmd run\<close>, \<open>cmd done\<close> and \<open>cmd\<close>, around the global \<open>param_queue\<close>, and \<open>pull\<close>. What the queue holds
  is kept by the library; the state here is what the C file itself writes and reads of it.
\<close>

unbundle bit_operations_syntax

section \<open>The edited queue\<close>

datatype queue_type = PARAM_QUEUE_TYPE_GET | PARAM_QUEUE_TYPE_SET | PARAM_QUEUE_TYPE_EMPTY

record param_queue =
  queue_type :: queue_type
  queue_name :: string
  queue_used :: int
  queue_version :: int
  queue_last_timestamp :: "int \<times> int"

text \<open>The initial value of the global variable.\<close>

definition param_queue_init_value :: param_queue where
  "param_queue_init_value =
     \<lparr>queue_type = PARAM_QUEUE_TYPE_EMPTY, queue_name = [], queue_used = 0, queue_version = 2,
      queue_last_timestamp = (0, 0)\<rparr>"

subsection \<open>New, done, print\<close>

record new_opts =
  new_paramver :: int

text \<open>\<open>name_size\<close> is the size of the queue's name array, which the library declares. The type is set
  before the command name is looked at.\<close>

definition cmd_new ::
  "nat \<Rightarrow> new_opts optparse \<Rightarrow> param_queue \<Rightarrow> string list \<Rightarrow> slash_ret \<times> param_queue" where
  "cmd_new name_size parser q argv =
     (let (argi, opts) = optparse_parse parser \<lparr>new_paramver = 2\<rparr> argv
      in if argi < 0 then (SLASH_EINVAL, q)
         else if argi + 1 \<ge> argc argv then (SLASH_EINVAL, q)
         else
           (let t = nth_arg argv (argi + 1);
                type = (if strncmp_eq t ''get'' 4 then Some PARAM_QUEUE_TYPE_GET
                        else if strncmp_eq t ''set'' 4 then Some PARAM_QUEUE_TYPE_SET
                        else None)
            in case type of
                 None \<Rightarrow> (SLASH_EINVAL, q)
               | Some type \<Rightarrow>
                   (let q = q\<lparr>queue_type := type\<rparr> in
                    if argi + 2 \<ge> argc argv then (SLASH_EINVAL, q)
                    else (SLASH_SUCCESS,
                          q\<lparr>queue_name := take (name_size - 1) (nth_arg argv (argi + 2)), queue_used := 0,
                            queue_version := new_paramver opts, queue_last_timestamp := (0, 0)\<rparr>))))"

definition cmd_done :: "param_queue \<Rightarrow> slash_ret \<times> param_queue" where
  "cmd_done q = (SLASH_SUCCESS, q\<lparr>queue_type := PARAM_QUEUE_TYPE_EMPTY\<rparr>)"

definition cmd_print :: "'v param_world \<Rightarrow> param_queue \<Rightarrow> slash_ret \<times> 'v param_call list" where
  "cmd_print w q =
     (if queue_type q = PARAM_QUEUE_TYPE_EMPTY then (SLASH_SUCCESS, [])
      else (SLASH_SUCCESS, snd (do_call w Queue_print [])))"

subsection \<open>Add\<close>

record add_opts =
  add_node :: int
  add_imask :: "string option"
  add_emask :: "string option"
  add_force :: bool

definition add_selects :: "'v param_lib \<Rightarrow> add_opts \<Rightarrow> string \<Rightarrow> param_t \<Rightarrow> bool" where
  "add_selects lib opts n param \<longleftrightarrow>
     (let include_mask = (case add_imask opts of None \<Rightarrow> all_mask | Some m \<Rightarrow> param_maskstr_to_mask lib m);
          exclude_mask = (case add_emask opts of None \<Rightarrow> PM_HWREG lib | Some m \<Rightarrow> param_maskstr_to_mask lib m)
      in if \<not> strmatch lib (param_name param) n then False
         else if param_node param \<noteq> add_node opts then False
         else if param_mask param AND exclude_mask \<noteq> 0 then False
         else if include_mask \<noteq> all_mask \<and> param_mask param AND include_mask = 0 then False
         else True)"

text \<open>A full queue is only reported.\<close>

fun add_all :: "'v param_lib \<Rightarrow> 'v param_world \<Rightarrow> add_opts \<Rightarrow> string \<Rightarrow> param_t list \<Rightarrow> 'v param_call list
    \<Rightarrow> 'v param_call list" where
  "add_all lib w opts n [] tr = tr"
| "add_all lib w opts n (param # rest) tr =
     (if \<not> add_selects lib opts n param then add_all lib w opts n rest tr
      else add_all lib w opts n rest (snd (do_call w (Queue_add Edit_queue param (- 1) None) tr)))"

definition add_set ::
  "'v param_lib \<Rightarrow> 'v param_world \<Rightarrow> add_opts \<Rightarrow> string list \<Rightarrow> int \<Rightarrow> slash_ret option \<times> 'v param_call list"
where
  "add_set lib w opts argv argi =
     (let (n, found, offset) = param_slash_parse (finder lib) (nth_arg argv argi) (add_node opts) (- 1)
      in case found of
           None \<Rightarrow> (Some SLASH_EINVAL, [])
         | Some param \<Rightarrow>
             if param_mask param AND PM_READONLY lib \<noteq> 0 \<and> \<not> add_force opts then (Some SLASH_EINVAL, [])
             else if argi + 1 \<ge> argc argv then (Some SLASH_EINVAL, [])
             else
               (case param_str_to_value lib (param_type_of param) (nth_arg argv (argi + 1)) of
                  None \<Rightarrow> (Some SLASH_EINVAL, [])
                | Some v \<Rightarrow>
                    (let (r, tr) = do_call w (Clear_timestamp param) [];
                         (r, tr) = do_call w (Queue_add Edit_queue param offset (Some v)) tr
                     in (None, tr))))"

definition cmd_add ::
  "'v param_lib \<Rightarrow> 'v param_world \<Rightarrow> slash_defaults \<Rightarrow> add_opts optparse \<Rightarrow> param_queue \<Rightarrow> string list
     \<Rightarrow> slash_ret \<times> 'v param_call list"
where
  "cmd_add lib w dfl parser q argv =
     (let (argi, opts) = optparse_parse parser
            \<lparr>add_node = slash_dfl_node dfl, add_imask = None, add_emask = None, add_force = False\<rparr> argv
      in if argi < 0 then (SLASH_EINVAL, [])
         else if argi + 1 \<ge> argc argv then (SLASH_EINVAL, [])
         else
           (let (ret, tr) = (if queue_type q = PARAM_QUEUE_TYPE_SET then add_set lib w opts argv (argi + 1)
                             else (None, []))
            in case ret of
                 Some r \<Rightarrow> (r, tr)
               | None \<Rightarrow>
                   (let tr = (if queue_type q = PARAM_QUEUE_TYPE_GET
                              then add_all lib w opts (nth_arg argv (argi + 1)) (params lib) tr else tr)
                    in (SLASH_SUCCESS, snd (do_call w Queue_print tr)))))"

subsection \<open>Run\<close>

record run_opts =
  run_timeout :: int
  run_server :: int
  run_hwid :: int
  run_ack_with_pull :: bool
  run_prio :: int

definition cmd_run ::
  "'v param_lib \<Rightarrow> 'v param_world \<Rightarrow> slash_defaults \<Rightarrow> run_opts optparse \<Rightarrow> param_queue \<Rightarrow> string list
     \<Rightarrow> slash_ret \<times> 'v param_call list"
where
  "cmd_run lib w dfl parser q argv =
     (let (argi, opts) = optparse_parse parser
            \<lparr>run_timeout = slash_dfl_timeout dfl, run_server = slash_dfl_node dfl, run_hwid = 0,
             run_ack_with_pull = True, run_prio = CSP_PRIO_NORM lib\<rparr> argv
      in if argi < 0 then (SLASH_EINVAL, [])
         else
           (case queue_type q of
              PARAM_QUEUE_TYPE_SET \<Rightarrow>
                (let (time_now, tr) = do_call w Clock_get [];
                     (reply, tr) = do_call w (Push_queue Edit_queue (run_prio opts) (run_server opts)
                                                (run_timeout opts) (run_hwid opts) (run_ack_with_pull opts)) tr
                 in if reply < 0 then (SLASH_EIO, tr)
                    else (SLASH_SUCCESS, snd (do_call w (Queue_print_params time_now) tr)))
            | PARAM_QUEUE_TYPE_GET \<Rightarrow>
                (let (reply, tr) = do_call w (Pull_queue (run_prio opts) (run_server opts) (run_timeout opts)) []
                 in (if reply \<noteq> 0 then SLASH_EIO else SLASH_SUCCESS, tr))
            | PARAM_QUEUE_TYPE_EMPTY \<Rightarrow> (SLASH_SUCCESS, [])))"

section \<open>Pull\<close>

record pull_opts =
  pull_timeout :: int
  pull_server :: int
  pull_imask :: "string option"
  pull_emask :: "string option"
  pull_nodes :: "string option"
  pull_paramver :: int
  pull_prio :: int

text \<open>
  The walk over the copy of the node list in which commas have become NULs. The argument is the rest of
  the buffer from the current item. After an item the code skips to the next NUL that is not the item's
  first character, so the item behind an empty one is passed over.
\<close>

function list_items :: "char list \<Rightarrow> string list" where
  "list_items [] = []"
| "list_items (c # cs) = c_string (c # cs) # list_items (drop 1 (dropWhile (\<lambda>x. x \<noteq> NUL) cs))"
  by pat_completeness auto
termination
proof (relation "measure length", goal_cases)
  case (2 c cs)
  have "length (drop 1 (dropWhile (\<lambda>x. x \<noteq> NUL) cs)) \<le> length (dropWhile (\<lambda>x. x \<noteq> NUL) cs)" by simp
  also have "\<dots> \<le> length cs" by (rule length_dropWhile_le)
  finally show ?case by simp
qed simp

text \<open>The nodes that resolve are stored in an array of \<open>num_nodes\<close> elements; \<open>idx\<close> has 8 bits.\<close>

fun store_nodes :: "hosts_state \<Rightarrow> nat \<Rightarrow> string list \<Rightarrow> int list \<Rightarrow> nat \<Rightarrow> (int list \<times> nat) c_result" where
  "store_nodes hosts num_nodes [] nodes idx = Inr (nodes, idx)"
| "store_nodes hosts num_nodes (item # rest) nodes idx =
     (case get_host_by_addr_or_name hosts item of
        (r, Some node_id) \<Rightarrow>
          if length nodes \<le> idx then Inl Out_Of_Bounds
          else store_nodes hosts num_nodes rest (nodes[idx := node_id]) ((idx + 1) mod 256)
      | (r, None) \<Rightarrow> store_nodes hosts num_nodes rest nodes idx)"

definition pull_node_list :: "hosts_state \<Rightarrow> pull_opts \<Rightarrow> int list c_result" where
  "pull_node_list hosts opts =
     (case pull_nodes opts of
        None \<Rightarrow> Inr [pull_server opts]
      | Some nodes_str \<Rightarrow>
          (let num_nodes = (length (filter (\<lambda>c. c = CHR '','') nodes_str) + 1) mod 256;
               cur_node = map (\<lambda>c. if c = CHR '','' then NUL else c) nodes_str
           in case store_nodes hosts num_nodes (list_items cur_node) (replicate num_nodes 0) 0 of
                Inl f \<Rightarrow> Inl f
              | Inr (nodes, idx) \<Rightarrow> Inr (take idx nodes)))"

fun pull_loop ::
  "'v param_world \<Rightarrow> (int \<Rightarrow> 'v param_call) \<Rightarrow> int list \<Rightarrow> slash_ret \<Rightarrow> 'v param_call list
     \<Rightarrow> slash_ret \<times> 'v param_call list"
where
  "pull_loop w call [] result tr = (result, tr)"
| "pull_loop w call (node # nodes) result tr =
     (let (reply, tr) = do_call w (call node) tr
      in pull_loop w call nodes (if reply \<noteq> 0 then SLASH_EIO else result) tr)"

definition cmd_pull ::
  "'v param_lib \<Rightarrow> 'v param_world \<Rightarrow> hosts_state \<Rightarrow> slash_defaults \<Rightarrow> pull_opts optparse \<Rightarrow> string list
     \<Rightarrow> (slash_ret \<times> 'v param_call list) c_result"
where
  "cmd_pull lib w hosts dfl parser argv =
     (let (argi, opts) = optparse_parse parser
            \<lparr>pull_timeout = slash_dfl_timeout dfl, pull_server = slash_dfl_node dfl, pull_imask = None,
             pull_emask = None, pull_nodes = None, pull_paramver = 2, pull_prio = CSP_PRIO_NORM lib\<rparr> argv
      in if argi < 0 then Inr (SLASH_EINVAL, [])
         else
           (let include_mask = (case pull_imask opts of None \<Rightarrow> all_mask | Some m \<Rightarrow> param_maskstr_to_mask lib m);
                exclude_mask = (case pull_emask opts of None \<Rightarrow> PM_REMOTE lib OR PM_HWREG lib
                                 | Some m \<Rightarrow> param_maskstr_to_mask lib m);
                call = (\<lambda>node. Pull_all (pull_prio opts) node include_mask exclude_mask (pull_timeout opts)
                          (pull_paramver opts))
            in case pull_node_list hosts opts of
                 Inl f \<Rightarrow> Inl f
               | Inr nodes \<Rightarrow> Inr (pull_loop w call nodes SLASH_SUCCESS [])))"

section \<open>Properties\<close>

definition is_request :: "'v param_call \<Rightarrow> bool" where
  "is_request c \<longleftrightarrow> (case c of Push_queue q a b d e f \<Rightarrow> True | Pull_queue a b d \<Rightarrow> True | Queue_add q p i v \<Rightarrow> True
     | _ \<Rightarrow> False)"

text \<open>
  The edit mode is a state machine: \<open>cmd new get|set NAME\<close> enters it with an empty queue of that kind,
  \<open>cmd done\<close> leaves it; outside it \<open>cmd run\<close> calls nothing and \<open>cmd add\<close> only prints, and inside it
  \<open>cmd run\<close> sends one request of the queue's kind, first of all calls but the clock.
\<close>

theorem queue_edit_mode:
  assumes "new_parser \<lparr>new_paramver = 2\<rparr> [kind, n] = (0, new_opts)" "kind = ''get'' \<or> kind = ''set''"
    and "run_parser \<lparr>run_timeout = slash_dfl_timeout dfl, run_server = slash_dfl_node dfl, run_hwid = 0,
      run_ack_with_pull = True, run_prio = CSP_PRIO_NORM lib\<rparr> [] = (0, opts)"
  shows "fst (cmd_new name_size new_parser q [''cmd new'', kind, n]) = SLASH_SUCCESS \<and>
    queue_used (snd (cmd_new name_size new_parser q [''cmd new'', kind, n])) = 0 \<and>
    filter is_request (snd (cmd_run lib w dfl run_parser (snd (cmd_new name_size new_parser q [''cmd new'', kind, n]))
        [''cmd run''])) =
      [if kind = ''get'' then Pull_queue (run_prio opts) (run_server opts) (run_timeout opts)
       else Push_queue Edit_queue (run_prio opts) (run_server opts) (run_timeout opts) (run_hwid opts)
              (run_ack_with_pull opts)] \<and>
    snd (cmd_run lib w dfl run_parser (snd (cmd_done q)) [''cmd run'']) = [] \<and>
    filter is_request (snd (cmd_add lib w dfl add_parser (snd (cmd_done q)) argv)) = []"
proof -
  have "filter is_request (snd (cmd_add lib w dfl add_parser (snd (cmd_done q)) argv)) = []"
    by (auto simp: cmd_add_def cmd_done_def do_call_def is_request_def split_beta Let_def)
  moreover have "snd (cmd_run lib w dfl run_parser (snd (cmd_done q)) [''cmd run'']) = []"
    using assms(3) by (simp add: cmd_run_def cmd_done_def optparse_parse_def)
  moreover have "cmd_new name_size new_parser q [''cmd new'', kind, n] =
      (SLASH_SUCCESS, q\<lparr>queue_type := if kind = ''get'' then PARAM_QUEUE_TYPE_GET else PARAM_QUEUE_TYPE_SET,
         queue_name := take (name_size - 1) n, queue_used := 0, queue_version := new_paramver new_opts,
         queue_last_timestamp := (0, 0)\<rparr>)"
    using assms(1,2) by (auto simp: cmd_new_def optparse_parse_def nth_arg_def strncmp_eq_def Let_def)
  ultimately show ?thesis
    using assms(2,3) by (auto simp: cmd_run_def optparse_parse_def do_call_def is_request_def)
qed

theorem queue_edit_mode_witness:
  "fst (cmd_new 20 (\<lambda>opts args. (0, opts)) param_queue_init_value [''cmd new'', ''set'', ''boot'']) = SLASH_SUCCESS"
  using queue_edit_mode [of "\<lambda>opts args. (0, opts)" "''set''" "''boot''" "\<lparr>new_paramver = 2\<rparr>"
    "\<lambda>opts args. (0, opts)" demo_dfl demo_lib
    "\<lparr>run_timeout = 1000, run_server = 5, run_hwid = 0, run_ack_with_pull = True, run_prio = 2\<rparr>" 20
    param_queue_init_value "\<lambda>tr c. 0" "\<lambda>opts args. (0, opts)" "[]"]
  by simp

subsection \<open>Pull\<close>

fun comma_list :: "string list \<Rightarrow> string" where
  "comma_list [] = []"
| "comma_list [item] = item"
| "comma_list (item # items) = item @ CHR '','' # comma_list items"

definition item_ok :: "string \<Rightarrow> bool" where
  "item_ok s \<longleftrightarrow> s \<noteq> [] \<and> CHR '','' \<notin> set s \<and> nul_free s"

abbreviation cut_commas :: "string \<Rightarrow> char list" where
  "cut_commas \<equiv> map (\<lambda>c. if c = CHR '','' then NUL else c)"

lemma cut_commas_item: "item_ok s \<Longrightarrow> cut_commas s = s"
  by (auto simp: item_ok_def intro!: map_idI)

lemma list_items_item:
  assumes "item_ok s" "rest = [] \<or> hd rest = NUL"
  shows "list_items (s @ rest) = s # list_items (drop 1 rest)"
proof -
  obtain c cs where s: "s = c # cs" using assms(1) by (cases s) (auto simp: item_ok_def)
  have nn: "\<forall>x \<in> set cs. x \<noteq> NUL" "\<forall>x \<in> set s. x \<noteq> NUL"
    using assms(1) s by (auto simp: item_ok_def nul_free_def)
  have "c_string (s @ rest) = s" "dropWhile (\<lambda>x. x \<noteq> NUL) (cs @ rest) = rest"
    using takeWhile_all_append [OF nn(2), of rest] dropWhile_all_append [OF nn(1), of rest] assms(2)
    unfolding c_string_def by simp_all
  then show ?thesis by (simp add: s)
qed

lemma list_items_comma_list:
  "(\<forall>s \<in> set items. item_ok s) \<Longrightarrow> list_items (cut_commas (comma_list items)) = items"
proof (induction items rule: comma_list.induct)
  case (2 item)
  then show ?case using list_items_item [of item "[]"] by (simp add: cut_commas_item)
next
  case (3 item i2 items)
  then show ?case
    using list_items_item [of item "NUL # cut_commas (comma_list (i2 # items))"] by (simp add: cut_commas_item)
qed simp

lemma comma_list_count:
  "(\<forall>s \<in> set items. item_ok s) \<Longrightarrow> items \<noteq> [] \<Longrightarrow>
   length (filter (\<lambda>c. c = CHR '','') (comma_list items)) + 1 = length items"
  by (induction items rule: comma_list.induct) (auto simp: item_ok_def filter_empty_conv)

text \<open>The nodes that resolve, in the order of the list.\<close>

definition resolved_nodes :: "hosts_state \<Rightarrow> string list \<Rightarrow> int list" where
  "resolved_nodes hosts items = concat (map (\<lambda>s. case snd (get_host_by_addr_or_name hosts s) of
     None \<Rightarrow> [] | Some n \<Rightarrow> [n]) items)"

lemma store_nodes_resolved:
  "idx + length items \<le> length nodes \<Longrightarrow> length nodes < 256 \<Longrightarrow>
   \<exists>nodes' idx'. store_nodes hosts k items nodes idx = Inr (nodes', idx') \<and>
     take idx' nodes' = take idx nodes @ resolved_nodes hosts items"
proof (induction items arbitrary: nodes idx)
  case Nil
  then show ?case by (simp add: resolved_nodes_def)
next
  case (Cons s items)
  show ?case
  proof (cases "snd (get_host_by_addr_or_name hosts s)")
    case None
    then show ?thesis
      using Cons.IH [of idx nodes] Cons.prems
      by (cases "get_host_by_addr_or_name hosts s") (simp add: resolved_nodes_def)
  next
    case (Some n)
    have i: "(idx + 1) mod 256 = idx + 1" "idx < length nodes" using Cons.prems by simp_all
    then show ?thesis
      using Cons.IH [of "idx + 1" "nodes[idx := n]"] Cons.prems Some
      by (cases "get_host_by_addr_or_name hosts s") (auto simp: resolved_nodes_def)
  qed
qed

lemma pull_loop_result:
  "pull_loop w call nodes result tr =
     (if \<forall>i < length nodes. w (tr @ map call (take i nodes)) (call (nodes ! i)) = 0 then result else SLASH_EIO,
      tr @ map call nodes)"
proof (induction nodes arbitrary: result tr)
  case (Cons n nodes)
  have "(\<forall>i < length (n # nodes). w (tr @ map call (take i (n # nodes))) (call ((n # nodes) ! i)) = 0) \<longleftrightarrow>
      w tr (call n) = 0 \<and>
      (\<forall>i < length nodes. w ((tr @ [call n]) @ map call (take i nodes)) (call (nodes ! i)) = 0)"
    by (auto simp: less_Suc_eq_0_disj)
  then show ?case using Cons.IH by (auto simp: do_call_def)
qed simp

text \<open>
  \<open>pull -n\<close> with a list of up to 255 non-empty items pulls from every node that resolves, by address or
  name, in the order of the list, also after a node that does not answer, and reports an error exactly when
  one did not.
\<close>

theorem cmd_pull_nodes:
  assumes "parser \<lparr>pull_timeout = slash_dfl_timeout dfl, pull_server = slash_dfl_node dfl, pull_imask = None,
      pull_emask = None, pull_nodes = None, pull_paramver = 2, pull_prio = CSP_PRIO_NORM lib\<rparr> args = (0, opts)"
    and "pull_nodes opts = Some (comma_list items)" "pull_imask opts = None" "pull_emask opts = None"
    and "\<forall>s \<in> set items. item_ok s" "items \<noteq> []" "length items < 256"
    and "calls = map (\<lambda>node. Pull_all (pull_prio opts) node all_mask (PM_REMOTE lib OR PM_HWREG lib)
      (pull_timeout opts) (pull_paramver opts)) (resolved_nodes hosts items)"
  shows "cmd_pull lib w hosts dfl parser (''pull'' # args) =
    Inr (if \<forall>i < length calls. w (take i calls) (calls ! i) = 0 then SLASH_SUCCESS else SLASH_EIO, calls)"
proof -
  let ?call = "\<lambda>node. Pull_all (pull_prio opts) node all_mask (PM_REMOTE lib OR PM_HWREG lib)
      (pull_timeout opts) (pull_paramver opts)"
  have k: "(length (filter (\<lambda>c. c = CHR '','') (comma_list items)) + 1) mod 256 = length items"
    using comma_list_count [OF assms(5,6)] assms(7) by simp
  have "pull_node_list hosts opts = Inr (resolved_nodes hosts items)"
    using store_nodes_resolved [of 0 items "replicate (length items) 0" hosts "length items"] assms(2,5,7)
      list_items_comma_list [OF assms(5)] k
    by (auto simp: pull_node_list_def)
  then show ?thesis
    using assms(1,3,4,8) pull_loop_result [of w ?call "resolved_nodes hosts items" SLASH_SUCCESS "[]"]
    by (simp add: cmd_pull_def optparse_parse_def take_map)
qed

theorem cmd_pull_nodes_witness:
  "\<exists>ret. cmd_pull demo_lib (\<lambda>tr c. 0) no_hosts demo_dfl (\<lambda>opts args. (0, opts\<lparr>pull_nodes := Some ''3,12''\<rparr>)) [''pull''] =
    Inr (ret, [Pull_all 2 3 all_mask 6 1000 2, Pull_all 2 12 all_mask 6 1000 2])"
proof -
  have r: "resolved_nodes no_hosts [''3'', ''12''] = [3, 12]" by code_simp
  show ?thesis
    using cmd_pull_nodes [of "\<lambda>opts args. (0, opts\<lparr>pull_nodes := Some ''3,12''\<rparr>)" demo_dfl demo_lib "[]"
      "\<lparr>pull_timeout = 1000, pull_server = 5, pull_imask = None, pull_emask = None, pull_nodes = Some ''3,12'',
        pull_paramver = 2, pull_prio = 2\<rparr>" "[''3'', ''12'']"
      "[Pull_all 2 3 all_mask 6 1000 2, Pull_all 2 12 all_mask 6 1000 2]" no_hosts "\<lambda>tr c. 0"] r
    by (simp add: item_ok_def)
qed

text \<open>
  An empty item of the list resolves as address 0 and hides the item behind it: \<open>pull -n ,5\<close> pulls
  from node 0 and not from node 5. With 256 items the 8-bit count is 0, and the first node that resolves is
  stored outside the array.
\<close>

theorem cmd_pull_list_faults:
  assumes "pull_nodes opts = Some '',5''"
    and "pull_nodes opts' = Some (comma_list items)" "\<forall>s \<in> set items. item_ok s" "length items = 256"
    and "snd (get_host_by_addr_or_name hosts (hd items)) \<noteq> None"
  shows "pull_node_list hosts opts = Inr [0] \<and> pull_node_list hosts opts' = Inl Out_Of_Bounds"
proof
  have "get_host_by_addr_or_name hosts [] = (2, Some 0)"
    by (simp add: get_host_by_addr_or_name_def strtol_def strto_scan_def scan_sign_def strip_0x_def c_int_simps)
  then show "pull_node_list hosts opts = Inr [0]"
    using assms(1) by (simp add: pull_node_list_def c_string_def numeral_2_eq_2)
  obtain item rest where items: "items = item # rest" using assms(4) by (cases items) auto
  have "items \<noteq> []" using assms(4) by auto
  from comma_list_count [OF assms(3) this] assms(4)
  have "(length (filter (\<lambda>c. c = CHR '','') (comma_list items)) + 1) mod 256 = 0" by simp
  then show "pull_node_list hosts opts' = Inl Out_Of_Bounds"
    using assms(2,5) list_items_comma_list [OF assms(3)] items
    by (cases "get_host_by_addr_or_name hosts item") (auto simp: pull_node_list_def)
qed

theorem cmd_pull_list_faults_witness:
  "pull_node_list no_hosts \<lparr>pull_timeout = 1000, pull_server = 5, pull_imask = None, pull_emask = None,
      pull_nodes = Some '',5'', pull_paramver = 2, pull_prio = 2\<rparr> = Inr [0]"
proof -
  let ?opts = "\<lparr>pull_timeout = 1000, pull_server = 5, pull_imask = None, pull_emask = None,
      pull_nodes = Some '',5'', pull_paramver = 2, pull_prio = 2\<rparr>"
  have "get_host_by_addr_or_name no_hosts ''3'' = (2, Some 3)" by code_simp
  then have "snd (get_host_by_addr_or_name no_hosts (hd (replicate 256 ''3''))) \<noteq> None"
    by (simp add: hd_replicate)
  then show ?thesis
    using cmd_pull_list_faults [of ?opts "?opts\<lparr>pull_nodes := Some (comma_list (replicate 256 ''3''))\<rparr>"
      "replicate 256 ''3''" no_hosts]
    by (simp add: item_ok_def)
qed

end
