(* ===== verification/Env_Var_Cmds.thy ===== *)
theory Env_Var_Cmds
  imports Environment Slash_Base
begin

text \<open>
  The \<open>var\<close> commands of \<open>src/slash_env_var_cmds.c\<close> on the variable store, and the completion of variable
  names and of references. The completers write into the shell's line buffer without looking at its size,
  and one of them without terminating what it writes, so the buffer is modelled as the array it is.
\<close>

section \<open>The line buffer\<close>

record env_line =
  el_buffer :: "char list"
  el_length :: nat
  el_cursor :: nat
  el_printed :: "string list"

text \<open>\<open>strcpy(buf + off, s)\<close> followed by \<open>strcat(buf, tail)\<close>, and \<open>strncpy(buf + off, s, n)\<close>.\<close>

definition copy_and_append :: "char list \<Rightarrow> nat \<Rightarrow> string \<Rightarrow> string \<Rightarrow> char list c_result" where
  "copy_and_append buf off s tail =
     (case write_at buf off (s @ [NUL]) of
        Inl f \<Rightarrow> Inl f
      | Inr buf \<Rightarrow> write_at buf (length (c_string buf)) (tail @ [NUL]))"

definition copy_prefix :: "char list \<Rightarrow> nat \<Rightarrow> string \<Rightarrow> nat \<Rightarrow> char list c_result" where
  "copy_prefix buf off s n = write_at buf off (take n s @ replicate (n - length s) NUL)"

section \<open>Matching variable names\<close>

record env_var_completer_t =
  previous_match :: "string option"
  to_match :: string
  matches :: nat
  prev_match_length :: nat
  printed :: "string list"

fun prefix_length :: "string \<Rightarrow> string \<Rightarrow> nat" where
  "prefix_length (a # s1) (b # s2) = (if a = b then Suc (prefix_length s1 s2) else 0)"
| "prefix_length s1 s2 = 0"

definition env_var_completer_csh_foreach_var_cb ::
  "string \<Rightarrow> env_var_completer_t \<Rightarrow> env_var_completer_t" where
  "env_var_completer_csh_foreach_var_cb n ctx =
     (if strncmp_eq (to_match ctx) n (min (length n) (length (to_match ctx))) then
        (let m = matches ctx + 1;
             (prev, len) = (case previous_match ctx of
                              Some p \<Rightarrow> (p, prefix_length n p)
                            | None \<Rightarrow> (n, length n))
         in ctx\<lparr>matches := m, previous_match := Some prev, prev_match_length := len,
                printed := printed ctx @ (if m = 1 then [] else if m = 2 then [[], prev, n] else [n])\<rparr>)
      else if matches ctx = 2 then ctx\<lparr>matches := matches ctx + 1\<rparr>
      else ctx)"

definition match_vars :: "csh_env \<Rightarrow> string \<Rightarrow> env_var_completer_t" where
  "match_vars env text =
     csh_foreach_var env_var_completer_csh_foreach_var_cb env
       \<lparr>previous_match = None, to_match = text, matches = 0, prev_match_length = 0, printed = []\<rparr>"

text \<open>
  What is done with the matches, at offset \<open>start\<close> of the line: one match is written in full with \<open>tail\<close>
  behind it; of several, a prefix of the first is written, with a terminator if \<open>terminate\<close>.
\<close>

definition apply_matches ::
  "env_line \<Rightarrow> env_var_completer_t \<Rightarrow> nat \<Rightarrow> string \<Rightarrow> bool \<Rightarrow> env_line c_result" where
  "apply_matches line ctx start tail terminate =
     (let line = line\<lparr>el_printed := el_printed line @ printed ctx\<rparr> in
      if matches ctx = 0 then Inr line
      else
        (case previous_match ctx of
           None \<Rightarrow> Inl Null_Deref
         | Some p \<Rightarrow>
             (let written =
                    (if matches ctx = 1 then copy_and_append (el_buffer line) start p tail
                     else
                       (case copy_prefix (el_buffer line) start p (prev_match_length ctx) of
                          Inl f \<Rightarrow> Inl f
                        | Inr buf \<Rightarrow>
                            if terminate then write_at buf (start + prev_match_length ctx) [NUL] else Inr buf))
              in case written of
                   Inl f \<Rightarrow> Inl f
                 | Inr buf \<Rightarrow>
                     if NUL \<notin> set buf then Inl Out_Of_Bounds
                     else (let n = length (c_string buf)
                           in Inr (line\<lparr>el_buffer := buf, el_length := n, el_cursor := n\<rparr>)))))"

section \<open>The completers\<close>

text \<open>The offset behind the last space of the token, \<open>None\<close> when there is none.\<close>

fun last_space :: "string \<Rightarrow> nat \<Rightarrow> nat option" where
  "last_space token 0 = None"
| "last_space token (Suc i) = (if char_at token i = CHR '' '' then Some (Suc i) else last_space token i)"

definition env_var_completer :: "csh_env \<Rightarrow> env_line \<Rightarrow> nat \<Rightarrow> env_line c_result" where
  "env_var_completer env line token_off =
     (let token = drop token_off (c_string (el_buffer line)) in
      case last_space token (length token) of
        Some i \<Rightarrow> apply_matches line (match_vars env (drop i token)) (token_off + i) '' '' False
      | None \<Rightarrow>
          (let ctx = match_vars env token in
           if token = [] then Inr (line\<lparr>el_printed := el_printed line @ printed ctx\<rparr>)
           else apply_matches line ctx token_off '' '' True))"

text \<open>\<open>strndup(var_start, var_end - var_start + 1)\<close>: up to the first space, which is included.\<close>

definition ref_name :: "string \<Rightarrow> string" where
  "ref_name s = takeWhile (\<lambda>c. c \<noteq> CHR '' '') s @ take 1 (dropWhile (\<lambda>c. c \<noteq> CHR '' '') s)"

text \<open>The scan from the end for an open reference: the offset of its name.\<close>

fun open_ref :: "string \<Rightarrow> nat \<Rightarrow> bool \<Rightarrow> nat option" where
  "open_ref token 0 closing_bracket = None"
| "open_ref token (Suc i) closing_bracket =
     (if char_at token i = CHR '')'' then open_ref token i True
      else if char_at token i = CHR ''$'' \<and> char_at token (i + 1) = CHR ''('' then
        (if \<not> closing_bracket then Some (i + 2) else None)
      else open_ref token i closing_bracket)"

definition env_var_ref_completer :: "csh_env \<Rightarrow> env_line \<Rightarrow> nat \<Rightarrow> env_line c_result" where
  "env_var_ref_completer env line token_off =
     (let token = drop token_off (c_string (el_buffer line)) in
      if 1 < length token then
        (case open_ref token (length token) False of
           None \<Rightarrow> Inr line
         | Some i \<Rightarrow> apply_matches line (match_vars env (ref_name (drop i token))) (token_off + i) '') '' True)
      else Inr line)"

section \<open>The commands\<close>

text \<open>An argument the handler reads without looking at \<open>argc\<close>; behind the last one is a null pointer.\<close>

definition raw_arg :: "string list \<Rightarrow> nat \<Rightarrow> string c_result" where
  "raw_arg argv i = (if i < length argv then Inr (argv ! i) else Inl Null_Deref)"

text \<open>Each command: its result code, the store afterwards and the lines it prints.\<close>

definition slash_var_set ::
  "unit optparse \<Rightarrow> csh_env \<Rightarrow> string list \<Rightarrow> (slash_ret \<times> csh_env) c_result" where
  "slash_var_set parser env argv =
     (let (argi, u) = optparse_parse parser () argv in
      if argi = - 1 then Inr (SLASH_EINVAL, env)
      else if argc argv - argi \<noteq> 3 then Inr (SLASH_EINVAL, env)
      else
        (case raw_arg argv 1 of
           Inl f \<Rightarrow> Inl f
         | Inr n \<Rightarrow>
             (case raw_arg argv 2 of
                Inl f \<Rightarrow> Inl f
              | Inr v \<Rightarrow> Inr (SLASH_SUCCESS, csh_putvar env n v))))"

definition slash_var_unset ::
  "unit optparse \<Rightarrow> csh_env \<Rightarrow> string list \<Rightarrow> (slash_ret \<times> csh_env) c_result" where
  "slash_var_unset parser env argv =
     (let (argi, u) = optparse_parse parser () argv in
      if argi = - 1 then Inr (SLASH_EINVAL, env)
      else if argc argv - argi \<noteq> 2 then Inr (SLASH_EINVAL, env)
      else
        (case raw_arg argv 1 of
           Inl f \<Rightarrow> Inl f
         | Inr n \<Rightarrow> Inr (SLASH_SUCCESS, fst (csh_delvar env n))))"

definition slash_var_clear :: "unit optparse \<Rightarrow> csh_env \<Rightarrow> string list \<Rightarrow> slash_ret \<times> csh_env" where
  "slash_var_clear parser env argv =
     (let (argi, u) = optparse_parse parser () argv in
      if argi = - 1 then (SLASH_EINVAL, env)
      else if argc argv - argi > 1 then (SLASH_EINVAL, env)
      else (SLASH_SUCCESS, csh_clearenv env))"

definition slash_var_get ::
  "unit optparse \<Rightarrow> csh_env \<Rightarrow> string list \<Rightarrow> (slash_ret \<times> string list) c_result" where
  "slash_var_get parser env argv =
     (let (argi, u) = optparse_parse parser () argv in
      if argi = - 1 then Inr (SLASH_EINVAL, [])
      else if argc argv - argi \<noteq> 2 then Inr (SLASH_EINVAL, [])
      else
        (case raw_arg argv 1 of
           Inl f \<Rightarrow> Inl f
         | Inr n \<Rightarrow>
             (case csh_getvar env n of
                Some value \<Rightarrow> Inr (SLASH_SUCCESS, [value])
              | None \<Rightarrow> Inr (SLASH_SUCCESS, []))))"

definition print_var :: "csh_env \<Rightarrow> string \<Rightarrow> string list \<Rightarrow> string list" where
  "print_var env n out =
     out @ [n @ ''='' @ (case csh_getvar env n of Some value \<Rightarrow> value | None \<Rightarrow> ''(null)'')]"

definition slash_var_show :: "unit optparse \<Rightarrow> csh_env \<Rightarrow> string list \<Rightarrow> slash_ret \<times> string list" where
  "slash_var_show parser env argv =
     (let (argi, u) = optparse_parse parser () argv in
      if argi = - 1 then (SLASH_EINVAL, [])
      else if argc argv - argi > 1 then (SLASH_EINVAL, [])
      else (SLASH_SUCCESS, csh_foreach_var (print_var env) env []))"

record expand_opts =
  expand_execute :: bool
  expand_quiet :: bool

text \<open>
  \<open>var expand\<close>: the code, the lines printed and the line executed. \<open>slash_execute\<close> is the shell's, and
  \<open>line_size\<close> the size of its line buffer, into which an expansion that is executed is copied.
\<close>

definition slash_var_expand ::
  "(nat \<Rightarrow> bool) \<Rightarrow> char \<Rightarrow> (string \<Rightarrow> slash_ret) \<Rightarrow> nat \<Rightarrow> expand_opts optparse \<Rightarrow> csh_env \<Rightarrow> string list
     \<Rightarrow> (slash_ret \<times> string list \<times> string option) c_result"
where
  "slash_var_expand alloc junk slash_execute line_size parser env argv =
     (let (argi, opts) = optparse_parse parser \<lparr>expand_execute = False, expand_quiet = False\<rparr> argv in
      if argi = - 1 then Inr (SLASH_EINVAL, [], None)
      else if argc argv - argi \<noteq> 2 then Inr (SLASH_EINVAL, [], None)
      else
        (case csh_expand_vars alloc junk env (nth_arg argv (argc argv - 1)) of
           Inl f \<Rightarrow> Inl f
         | Inr expansion \<Rightarrow>
             if \<not> expand_execute opts then
               Inr (SLASH_SUCCESS, [case expansion of None \<Rightarrow> ''(null)'' | Some buf \<Rightarrow> c_string buf], None)
             else
               (case expansion of
                  None \<Rightarrow> Inl Null_Deref
                | Some buf \<Rightarrow>
                    (let line = c_string buf in
                     if line_size \<le> length line then Inl Out_Of_Bounds
                     else Inr (slash_execute line, if expand_quiet opts then [] else [line], Some line)))))"

section \<open>Properties\<close>

lemma foreach_show: "csh_foreach_var (print_var e) env out =
    out @ map (\<lambda>cur. fst cur @ ''='' @ (case csh_getvar e (fst cur) of Some v \<Rightarrow> v | None \<Rightarrow> ''(null)'')) env"
  by (induction env arbitrary: out) (auto simp: csh_foreach_var_def print_var_def)

text \<open>
  When the option parser takes no options, \<open>var set\<close> makes \<open>var get\<close> of the name print the value and
  leaves every other variable alone, \<open>var unset\<close> makes it print nothing, \<open>var clear\<close> empties the store, and
  \<open>var show\<close> prints every variable once, as \<open>name=value\<close>.
\<close>

theorem var_commands:
  assumes "\<And>args. parser () args = (0, ())" "env_inv env"
  shows "\<exists>env1 env2. slash_var_set parser env [''var set'', n, v] = Inr (SLASH_SUCCESS, env1) \<and>
    slash_var_get parser env1 [''var get'', n] = Inr (SLASH_SUCCESS, [v]) \<and>
    (\<forall>m. m \<noteq> n \<longrightarrow> slash_var_get parser env1 [''var get'', m] = slash_var_get parser env [''var get'', m]) \<and>
    slash_var_unset parser env1 [''var unset'', n] = Inr (SLASH_SUCCESS, env2) \<and>
    slash_var_get parser env2 [''var get'', n] = Inr (SLASH_SUCCESS, []) \<and>
    slash_var_clear parser env [''var clear''] = (SLASH_SUCCESS, []) \<and>
    slash_var_show parser env [''var show''] = (SLASH_SUCCESS, map (\<lambda>cur. fst cur @ ''='' @ snd cur) env)"
proof -
  have "csh_getvar env (fst cur) = Some (snd cur)" if "cur \<in> set env" for cur
    using that assms(2) by (simp add: csh_getvar_map_of env_inv_def)
  then have "slash_var_show parser env [''var show''] = (SLASH_SUCCESS, map (\<lambda>cur. fst cur @ ''='' @ snd cur) env)"
    using assms(1) by (simp add: slash_var_show_def optparse_parse_def foreach_show)
  moreover have "csh_getvar (fst (csh_delvar (csh_putvar env n v) n)) n = None"
    using env_store.get_del [OF env_inv_putvar [OF assms(2)], of n v n n] by simp
  ultimately show ?thesis
    using assms(1) env_store.get_put [of env n v]
    by (simp add: slash_var_set_def slash_var_get_def slash_var_unset_def slash_var_clear_def
        optparse_parse_def raw_arg_def)
qed

theorem var_commands_witness:
  "slash_var_show (\<lambda>u args. (0, u)) [(''B'', ''2''), (''A'', ''1'')] [''var show''] =
    (SLASH_SUCCESS, [''B=2'', ''A=1''])"
  using var_commands [of "\<lambda>u args. (0, u)" "[(''B'', ''2''), (''A'', ''1'')]" "''C''" "''3''"]
  by (auto simp: env_inv_def)

text \<open>
  \<open>var expand -e\<close> executes exactly the expansion of its last argument and passes on the result of the
  line, printing it first unless it is to be quiet; an expansion that does not fit the shell's line buffer
  is written beyond its end.
\<close>

theorem var_expand_executes:
  assumes "parser \<lparr>expand_execute = False, expand_quiet = False\<rparr> [flag, input] = (1, opts)" "expand_execute opts"
    and "nul_free (expand_ref env input)"
  shows "slash_var_expand (\<lambda>_. True) junk slash_execute line_size parser env [''var expand'', flag, input] =
    (if length (expand_ref env input) < line_size
     then Inr (slash_execute (expand_ref env input),
               if expand_quiet opts then [] else [expand_ref env input], Some (expand_ref env input))
     else Inl Out_Of_Bounds)"
  using assms(1,2) expand_vars_string [OF assms(3), of junk]
  by (auto simp: slash_var_expand_def optparse_parse_def nth_arg_def Let_def)

theorem var_expand_executes_witness:
  "slash_var_expand (\<lambda>_. True) NUL (\<lambda>l. SLASH_SUCCESS) 512 (\<lambda>opts args. (1, opts\<lparr>expand_execute := True\<rparr>)) []
      [''var expand'', ''-e'', ''ping''] = Inr (SLASH_SUCCESS, [''ping''], Some ''ping'')"
proof -
  have "expand_ref [] ''ping'' = ''ping''" by (simp add: expand_ref.simps(2))
  then show ?thesis
    using var_expand_executes [of "\<lambda>opts args. (1, opts\<lparr>expand_execute := True\<rparr>)" "''-e''" "''ping''"
      "\<lparr>expand_execute = True, expand_quiet = False\<rparr>" "[]" NUL "\<lambda>l. SLASH_SUCCESS" 512] by simp
qed

text \<open>
  The completion of a variable name compares each match with the first one only and keeps the last
  length, so it can write more than the matches have in common: of \<open>ABC\<close>, \<open>AD\<close> and \<open>ABD\<close> it completes \<open>A\<close>
  to \<open>AB\<close>. And a variable whose name is shorter than the text matches it: with \<open>AB\<close> set, the text \<open>ABCDEF\<close> is
  replaced by \<open>AB\<close>.
\<close>

theorem env_var_completer_overwrites:
  "env_var_completer [(''ABC'', v), (''AD'', v), (''ABD'', v)]
      \<lparr>el_buffer = ''A'' @ replicate 9 NUL, el_length = 1, el_cursor = 1, el_printed = []\<rparr> 0 =
    Inr \<lparr>el_buffer = ''AB'' @ replicate 8 NUL, el_length = 2, el_cursor = 2,
      el_printed = [[], ''ABC'', ''AD'', ''ABD'']\<rparr> \<and>
   env_var_completer [(''AB'', v)]
      \<lparr>el_buffer = ''ABCDEF'' @ replicate 4 NUL, el_length = 6, el_cursor = 6, el_printed = []\<rparr> 0 =
    Inr \<lparr>el_buffer = ''AB '' @ [NUL] @ ''EF'' @ replicate 4 NUL, el_length = 3, el_cursor = 3, el_printed = []\<rparr>"
  by code_simp

end
