(* ===== verification/Node_Cmds.thy ===== *)
theory Node_Cmds
  imports Known_Hosts Slash_Base
begin

text \<open>
  The commands of \<open>src/slash_nodes_cmds.c\<close>: the default node and timeout of the shell, and the table of
  known hosts. The custom option \<open>-n\<close> of \<open>src/slash_utils.c\<close> starts from the default node and is parsed by
  \<open>get_host_by_addr_or_name\<close>.
\<close>

record node_state =
  defaults :: slash_defaults
  hosts :: hosts_state

text \<open>The default node is an unsigned 32-bit integer.\<close>

definition csh_add_node_option :: "node_state \<Rightarrow> int" where
  "csh_add_node_option st = slash_dfl_node (defaults st)"

text \<open>The node command prints the default only when \<open>argc\<close> is below 1; an argument that does not resolve
  is reported, with success as the result.\<close>

definition cmd_node ::
  "unit optparse \<Rightarrow> node_state \<Rightarrow> string list \<Rightarrow> slash_ret \<times> node_state \<times> string list" where
  "cmd_node parser st argv =
     (let (argi, u) = optparse_parse parser () argv in
      if argi < 0 then (SLASH_EINVAL, st, [])
      else
        (let out = (if argc argv < 1 then [''Default node = '' @ show_int (slash_dfl_node (defaults st))] else [])
         in if argc argv = 2 then
              (case get_host_by_addr_or_name (hosts st) (nth_arg argv 1) of
                 (r, Some node) \<Rightarrow>
                   (SLASH_SUCCESS, st\<lparr>defaults := defaults st\<lparr>slash_dfl_node := to_uint32 node\<rparr>\<rparr>, out)
               | (r, None) \<Rightarrow> (SLASH_SUCCESS, st, out))
            else (SLASH_SUCCESS, st, out)))"

record save_opts =
  save_filename :: "string option"

definition cmd_node_save ::
  "(string \<Rightarrow> bool) \<Rightarrow> save_opts optparse \<Rightarrow> node_state \<Rightarrow> string list
     \<Rightarrow> (slash_ret \<times> (out_file \<times> string list) option) c_result" where
  "cmd_node_save can_open parser st argv =
     (let (argi, opts) = optparse_parse parser \<lparr>save_filename = None\<rparr> argv in
      if argi < 0 then Inr (SLASH_EINVAL, None)
      else
        (case node_save can_open (hosts st) (save_filename opts) of
           Inl f \<Rightarrow> Inl f
         | Inr out \<Rightarrow> Inr (SLASH_SUCCESS, Some out)))"

text \<open>\<open>node list\<close> has a handler of its own with the same body.\<close>

definition cmd_node_list ::
  "(string \<Rightarrow> bool) \<Rightarrow> save_opts optparse \<Rightarrow> node_state \<Rightarrow> string list
     \<Rightarrow> (slash_ret \<times> (out_file \<times> string list) option) c_result" where
  "cmd_node_list can_open parser st argv =
     (let (argi, opts) = optparse_parse parser \<lparr>save_filename = None\<rparr> argv in
      if argi < 0 then Inr (SLASH_EINVAL, None)
      else
        (case node_save can_open (hosts st) (save_filename opts) of
           Inl f \<Rightarrow> Inl f
         | Inr out \<Rightarrow> Inr (SLASH_SUCCESS, Some out)))"

record node_add_opts =
  node_add_node :: int

definition cmd_node_add ::
  "bool \<Rightarrow> node_add_opts optparse \<Rightarrow> node_state \<Rightarrow> string list \<Rightarrow> (slash_ret \<times> node_state) c_result" where
  "cmd_node_add mem parser st argv =
     (let (argi, opts) = optparse_parse parser \<lparr>node_add_node = csh_add_node_option st\<rparr> argv;
          node = node_add_node opts
      in if argi < 0 then Inr (SLASH_EINVAL, st)
         else if node = 0 then Inr (SLASH_EINVAL, st)
         else if argi + 1 \<ge> argc argv then Inr (SLASH_EINVAL, st)
         else
           (case known_hosts_add mem (hosts st) (to_int32 node) (nth_arg argv (argi + 1)) True of
              Inl f \<Rightarrow> Inl f
            | Inr (h, None) \<Rightarrow> Inr (SLASH_ENOMEM, st\<lparr>hosts := h\<rparr>)
            | Inr (h, Some host) \<Rightarrow> Inr (SLASH_SUCCESS, st\<lparr>hosts := h\<rparr>)))"

text \<open>The timeout is an unsigned 32-bit integer; what \<open>atoi\<close> makes of the argument is stored unchecked.\<close>

definition cmd_timeout :: "node_state \<Rightarrow> string list \<Rightarrow> slash_ret \<times> node_state \<times> string list" where
  "cmd_timeout st argv =
     (let st = (if argc argv = 2
                then st\<lparr>defaults := defaults st\<lparr>slash_dfl_timeout := to_uint32 (atoi (nth_arg argv 1))\<rparr>\<rparr>
                else st)
      in (SLASH_SUCCESS, st, [''timeout = '' @ show_int (to_int32 (slash_dfl_timeout (defaults st)))]))"

section \<open>Properties\<close>

text \<open>An option parser that reads \<open>-n NODE\<close> in front of a name with \<open>get_host_by_addr_or_name\<close>, as the custom
  option is declared. A name with a dash in front would be read as an option, so nothing is said of one.\<close>

definition looks_like_option :: "string \<Rightarrow> bool" where
  "looks_like_option w \<longleftrightarrow> w \<noteq> [] \<and> hd w = CHR ''-''"

definition parses_node_option :: "hosts_state \<Rightarrow> node_add_opts optparse \<Rightarrow> bool" where
  "parses_node_option hs parser \<longleftrightarrow>
     (\<forall>opts a name node r. get_host_by_addr_or_name hs a = (r, Some node) \<and>
        \<not> looks_like_option a \<and> \<not> looks_like_option name \<longrightarrow>
        parser opts [''-n'', a, name] = (2, opts\<lparr>node_add_node := to_uint32 node\<rparr>))"

lemma show_nat_no_option: "\<not> looks_like_option (show_nat n)"
  using show_nat_digits [of n] by (cases "show_nat n") (auto simp: looks_like_option_def isdigit_def code_def)

text \<open>What the table is after \<open>node add -n ADDR NAME\<close>.\<close>

lemma cmd_node_add_stores:
  assumes "hosts_inv (hosts st)" "parses_node_option (hosts st) add_parser" "0 < a" "a < 16384" "\<not> looks_like_option n"
  shows "cmd_node_add True add_parser st [''node add'', ''-n'', show_nat a, n] =
      Inr (SLASH_SUCCESS, st\<lparr>hosts := added (hosts st) (known_hosts_del (known_hosts (hosts st)) (int a)) (int a) n\<rparr>)"
    and "hosts_inv (added (hosts st) (known_hosts_del (known_hosts (hosts st)) (int a)) (int a) n)"
proof -
  have "get_host_by_addr_or_name (hosts st) (show_nat a) = (2, Some (int a))"
    using assms(4) by (simp add: get_host_by_addr_or_name_def strtol_show_nat_end c_int_simps)
  then have p: "add_parser \<lparr>node_add_node = csh_add_node_option st\<rparr> [''-n'', show_nat a, n] =
      (2, \<lparr>node_add_node = int a\<rparr>)"
    using assms(2,4,5) by (simp add: parses_node_option_def show_nat_no_option c_int_simps)
  have "known_hosts_add True (hosts st) (int a) n True =
      Inr (added (hosts st) (known_hosts_del (known_hosts (hosts st)) (int a)) (int a) n,
           Some \<lparr>host_node = int a, host_name = host_clip n\<rparr>)"
    using assms(1,3) by (simp add: known_hosts_add_def new_host_added hosts_inv_def)
  then show "cmd_node_add True add_parser st [''node add'', ''-n'', show_nat a, n] =
      Inr (SLASH_SUCCESS, st\<lparr>hosts := added (hosts st) (known_hosts_del (known_hosts (hosts st)) (int a)) (int a) n\<rparr>)"
    using p assms(3,4) by (simp add: cmd_node_add_def optparse_parse_def nth_arg_def c_int_simps Let_def)
  show "hosts_inv (added (hosts st) (known_hosts_del (known_hosts (hosts st)) (int a)) (int a) n)"
    using assms(1,3) by (simp add: inv_added)
qed

text \<open>
  \<open>node add -n ADDR NAME\<close> followed by \<open>node NAME\<close> makes \<open>ADDR\<close> the default node, for every address
  from 1 to 16383 and every name below 50 characters that is no number and has no dash in front.
\<close>

theorem node_add_then_select:
  assumes "hosts_inv (hosts st)" "parses_node_option (hosts st) add_parser" "\<And>args. parser () args = (0, ())"
    and "0 < a" "a < 16384" "nul_free n" "length n < HOSTNAME_MAXLEN" "snd (strtol 10 n) \<noteq> []"
    and "\<not> looks_like_option n"
  shows "\<exists>st'. cmd_node_add True add_parser st [''node add'', ''-n'', show_nat a, n] = Inr (SLASH_SUCCESS, st') \<and>
    hosts_inv (hosts st') \<and>
    slash_dfl_node (defaults (fst (snd (cmd_node parser st' [''node'', n])))) = int a"
proof -
  let ?h = "added (hosts st) (known_hosts_del (known_hosts (hosts st)) (int a)) (int a) n"
  note add = cmd_node_add_stores [OF assms(1,2,4,5,9)]
  have "get_host_by_addr_or_name ?h n = (1, Some (int a))"
    using assms(4-8) node_of_head [of "hosts st" _ "int a" n]
    by (simp add: get_host_by_addr_or_name_def split_beta c_int_simps host_clip_short)
  then show ?thesis
    using add assms(3,5) by (simp add: cmd_node_def optparse_parse_def nth_arg_def c_int_simps)
qed

text \<open>An empty table, and a parser of the option.\<close>

abbreviation no_nodes :: node_state where
  "no_nodes \<equiv> \<lparr>defaults = \<lparr>slash_dfl_node = 0, slash_dfl_timeout = 1000\<rparr>, hosts = no_hosts\<rparr>"

abbreviation demo_node_parser :: "node_add_opts optparse" where
  "demo_node_parser \<equiv> \<lambda>opts args. case snd (get_host_by_addr_or_name no_hosts (args ! 1)) of
     None \<Rightarrow> (- 1, opts) | Some node \<Rightarrow> (2, opts\<lparr>node_add_node := to_uint32 node\<rparr>)"

theorem node_add_then_select_witness:
  "\<exists>st'. cmd_node_add True demo_node_parser no_nodes
      [''node add'', ''-n'', show_nat 5, ''obc''] = Inr (SLASH_SUCCESS, st') \<and> hosts_inv (hosts st')"
proof -
  have "snd (strtol 10 ''obc'') \<noteq> []" by code_simp
  then show ?thesis
    using node_add_then_select [of no_nodes demo_node_parser "\<lambda>u args. (0, u)" 5 "''obc''"]
    by (auto simp: hosts_inv_def env_inv_def parses_node_option_def looks_like_option_def)
qed

subsection \<open>Saving and restoring\<close>

text \<open>The shell cuts a line of a script into words at white space, if they hold no quotes and nothing else that is special to
  it, and hands them to the command whose name is at its start; here that is \<open>node add\<close>. The parser of the node option looks
  names up in the table there is.\<close>

definition plain_name :: "string \<Rightarrow> bool" where
  "plain_name n \<longleftrightarrow> n \<noteq> [] \<and> \<not> looks_like_option n \<and>
     list_all (\<lambda>c. isdigit c \<or> isupper c \<or> 97 \<le> code c \<and> code c \<le> 122 \<or> c = CHR ''-'' \<or> c = CHR ''_'') n"

definition line_words :: "string \<Rightarrow> string list" where
  "line_words line = strtok_all [CHR '' '', CHR 0x0A] line"

definition run_node_add_line ::
  "(hosts_state \<Rightarrow> node_add_opts optparse) \<Rightarrow> node_state \<Rightarrow> string \<Rightarrow> node_state" where
  "run_node_add_line parser st line =
     (if take 2 (line_words line) = [''node'', ''add''] then
        (case cmd_node_add True (parser (hosts st)) st (''node add'' # drop 2 (line_words line)) of
           Inl f \<Rightarrow> st
         | Inr (ret, st) \<Rightarrow> st)
      else st)"

lemma line_words_word:
  assumes "tok \<noteq> []" "set tok \<inter> {CHR '' '', CHR 0x0A} = {}" "c \<in> {CHR '' '', CHR 0x0A}"
  shows "line_words (tok @ c # rest) = tok # line_words rest"
  using strtok_r_plain [of tok "[CHR '' '', CHR 0x0A]" "c # rest"] assms
  by (auto simp: line_words_def strtok_all.simps [of _ "tok @ c # rest"])

lemma show_nat_no_blank: "set (show_nat n) \<inter> {CHR '' '', CHR 0x0A} = {}"
  using show_nat_digits [of n] by (auto simp: isdigit_def code_def)

lemma plain_name_no_blank: "plain_name n \<Longrightarrow> n \<noteq> [] \<and> set n \<inter> {CHR '' '', CHR 0x0A} = {}"
  by (auto simp: plain_name_def list_all_iff isdigit_def isupper_def code_def)

lemma plain_name_no_option: "plain_name n \<Longrightarrow> \<not> looks_like_option n"
  by (simp add: plain_name_def)

lemma save_line_words:
  assumes "0 < a" "host_node h = int a" "plain_name (host_name h)"
  shows "line_words (save_line h) = [''node'', ''add'', ''-n'', show_nat a, host_name h]"
proof -
  have l: "save_line h = ''node'' @ CHR '' '' # ''add'' @ CHR '' '' # ''-n'' @ CHR '' '' # show_nat a @ CHR '' '' #
      host_name h @ CHR 0x0A # []"
    using assms(1,2) by (simp add: save_line_def show_int_def)
  have w: "line_words (''node'' @ CHR '' '' # r) = ''node'' # line_words r"
    "line_words (''add'' @ CHR '' '' # r) = ''add'' # line_words r"
    "line_words (''-n'' @ CHR '' '' # r) = ''-n'' # line_words r"
    "line_words (show_nat a @ CHR '' '' # r) = show_nat a # line_words r"
    "line_words (host_name h @ CHR 0x0A # r) = host_name h # line_words r" for r
    by (rule line_words_word; use plain_name_no_blank [OF assms(3)] show_nat_no_blank [of a] in simp)+
  have "line_words [] = []" by (simp add: line_words_def strtok_all.simps strtok_r_def)
  then show ?thesis unfolding l w by simp
qed

lemma run_saved_line:
  assumes "hosts_inv (hosts st)" "\<And>hs. parses_node_option hs (parser hs)" "0 < a" "a < 16384"
    and "host_node h = int a" "plain_name (host_name h)"
  shows "run_node_add_line parser st (save_line h) = st\<lparr>hosts := add_host (hosts st) (int a) (host_name h)\<rparr>"
    and "hosts_inv (add_host (hosts st) (int a) (host_name h))"
proof -
  note add = cmd_node_add_stores [OF assms(1,2,3,4), of "host_name h", OF plain_name_no_option [OF assms(6)]]
  have eq: "added (hosts st) (known_hosts_del (known_hosts (hosts st)) (int a)) (int a) (host_name h) =
      add_host (hosts st) (int a) (host_name h)"
    using assms(1,3) by (simp add: add_host_eq)
  show "run_node_add_line parser st (save_line h) = st\<lparr>hosts := add_host (hosts st) (int a) (host_name h)\<rparr>"
    using add(1) by (simp add: run_node_add_line_def save_line_words [OF assms(3,5,6)] eq)
  show "hosts_inv (add_host (hosts st) (int a) (host_name h))" using add(2) by (simp add: eq)
qed

lemma run_saved_lines:
  assumes "\<And>hs. parses_node_option hs (parser hs)"
    and "\<forall>h \<in> set hs. 0 < host_node h \<and> host_node h < 16384 \<and> plain_name (host_name h)" "hosts_inv (hosts st)"
  shows "foldl (run_node_add_line parser) st (map save_line hs) =
    st\<lparr>hosts := foldl (\<lambda>t h. add_host t (host_node h) (host_name h)) (hosts st) hs\<rparr>"
  using assms(2,3)
proof (induction hs arbitrary: st)
  case (Cons h hs)
  obtain a where a: "host_node h = int a" "0 < a" "a < 16384"
    using Cons.prems(1) by (metis list.set_intros(1) of_nat_0_less_iff of_nat_less_numeral_iff zero_less_imp_eq_int)
  have p: "plain_name (host_name h)" using Cons.prems(1) by simp
  note run = run_saved_line [OF Cons.prems(2) assms(1) a(2,3,1) p]
  show ?case using Cons.IH [of "st\<lparr>hosts := add_host (hosts st) (int a) (host_name h)\<rparr>"] run Cons.prems(1) by (simp add: a(1))
qed simp

text \<open>
  C9: The hosts of a session come back in the next one: the file that \<open>node save\<close> has written, run line by line as a script by
  a shell whose table is empty, gives every address the name it had and no other address a name, for addresses up to
  16383 and names of letters, digits, dashes and underscores without a dash in front. A name with a dash in front is saved
  as well, but the line then holds an option and is refused. The file has to open, and its name is given.
\<close>

theorem saved_hosts_come_back:
  assumes "hosts_inv (hosts st)" "hosts_inv (hosts fresh)" "known_hosts (hosts fresh) = []" "can_open f"
    and "\<forall>h \<in> set (known_hosts (hosts st)). 0 < host_node h \<and> host_node h < 16384 \<and> plain_name (host_name h)"
    and "\<And>hs. parses_node_option hs (parser hs)" "save_parser \<lparr>save_filename = None\<rparr> args = (argi, \<lparr>save_filename = Some f\<rparr>)"
    and "0 \<le> argi"
  shows "\<exists>ls. cmd_node_save can_open save_parser st (''node save'' # args) = Inr (SLASH_SUCCESS, Some (File f, ls)) \<and>
    name_of_host (hosts (foldl (run_node_add_line parser) fresh ls)) = name_of_host (hosts st)"
proof -
  have "cmd_node_save can_open save_parser st (''node save'' # args) =
      Inr (SLASH_SUCCESS, Some (File f, map save_line (known_hosts (hosts st))))"
    using assms(1,4,7,8) by (simp add: cmd_node_save_def optparse_parse_def node_save_lines)
  moreover have "name_of_host (hosts (foldl (run_node_add_line parser) fresh (map save_line (known_hosts (hosts st))))) =
      name_of_host (hosts st)"
    using replay_restores [OF assms(1-3)] run_saved_lines [OF assms(6,5,2)] by simp
  ultimately show ?thesis by blast
qed

definition table_parser :: "hosts_state \<Rightarrow> node_add_opts optparse" where
  "table_parser hs = (\<lambda>opts args.
     case args of
       d # a # rest \<Rightarrow>
         (case snd (get_host_by_addr_or_name hs a) of
            None \<Rightarrow> (- 1, opts) | Some node \<Rightarrow> (2, opts\<lparr>node_add_node := to_uint32 node\<rparr>))
     | _ \<Rightarrow> (- 1, opts))"

theorem saved_hosts_come_back_witness:
  "\<exists>ls. cmd_node_save (\<lambda>f. True) (\<lambda>opts args. (1, \<lparr>save_filename = Some ''hosts''\<rparr>))
      (no_nodes\<lparr>hosts := no_hosts\<lparr>known_hosts := [\<lparr>host_node = 5, host_name = ''obc''\<rparr>]\<rparr>\<rparr>) [''node save'', ''hosts''] =
      Inr (SLASH_SUCCESS, Some (File ''hosts'', ls)) \<and>
    name_of_host (hosts (foldl (run_node_add_line table_parser) no_nodes ls)) 5 = Some ''obc''"
proof -
  let ?st = "no_nodes\<lparr>hosts := no_hosts\<lparr>known_hosts := [\<lparr>host_node = 5, host_name = ''obc''\<rparr>]\<rparr>\<rparr>"
  have "plain_name ''obc''" by code_simp
  moreover have "parses_node_option hs (table_parser hs)" for hs
    by (simp add: parses_node_option_def table_parser_def)
  ultimately obtain ls where ls: "cmd_node_save (\<lambda>f. True) (\<lambda>opts args. (1, \<lparr>save_filename = Some ''hosts''\<rparr>)) ?st
      [''node save'', ''hosts''] = Inr (SLASH_SUCCESS, Some (File ''hosts'', ls))"
    "name_of_host (hosts (foldl (run_node_add_line table_parser) no_nodes ls)) = name_of_host (hosts ?st)"
    using saved_hosts_come_back [where st = ?st
        and fresh = no_nodes and can_open = "\<lambda>f. True" and f = "''hosts''" and parser = table_parser and argi = 1
        and save_parser = "\<lambda>opts args. (1, \<lparr>save_filename = Some ''hosts''\<rparr>)" and args = "[''hosts'']"]
    by (auto simp: hosts_inv_def env_inv_def)
  have "name_of_host (hosts ?st) 5 = Some ''obc''" by (simp add: name_of_host_def)
  with ls show ?thesis by metis
qed

end
