(* ===== verification/Walkdir.thy ===== *)
theory Walkdir
  imports Csh_Prelude
begin

text \<open>
  The directory walk of \<open>src/walkdir.c\<close>. The path is one buffer of \<open>path_cap\<close> bytes that the walk extends
  with \<open>strncat\<close> and cuts back; a write beyond it is a fault. The file system is given by functions of a
  path: the entries of a directory (\<open>None\<close> if it cannot be opened), whether the failure is \<open>ENOTDIR\<close>, and
  the kind of a file. The callbacks work on a state, on which the shell's signal can also be read.
\<close>

datatype file_kind = Directory | Regular | Other_file

record 's walk_env =
  fs_readdir :: "string \<Rightarrow> string list option"
  fs_notdir :: "string \<Rightarrow> bool"
  fs_lstat :: "string \<Rightarrow> file_kind"
  path_size :: nat
  path_cap :: nat
  dir_cb :: "string \<Rightarrow> string \<Rightarrow> 's \<Rightarrow> bool"
  file_cb :: "string \<Rightarrow> string \<Rightarrow> 's \<Rightarrow> 's c_result"
  interrupted :: "'s \<Rightarrow> bool"

text \<open>\<open>strncat(path, s, n)\<close>: at most \<open>n\<close> characters and a terminator.\<close>

definition strncat :: "nat \<Rightarrow> string \<Rightarrow> string \<Rightarrow> nat \<Rightarrow> string c_result" where
  "strncat cap path s n =
     (let r = path @ take n s in if length r < cap then Inr r else Inl Out_Of_Bounds)"

text \<open>The path of an entry: a slash unless there is one, then the name.\<close>

definition entry_path :: "'s walk_env \<Rightarrow> string \<Rightarrow> string \<Rightarrow> string c_result" where
  "entry_path env path name =
     (if path = [] then Inl Out_Of_Bounds
      else
        (case (if last path \<noteq> CHR ''/''
               then strncat (path_cap env) path ''/'' (size_minus (path_size env) (length path))
               else Inr path) of
           Inl f \<Rightarrow> Inl f
         | Inr path \<Rightarrow> strncat (path_cap env) path name (size_minus (path_size env) (length path))))"

text \<open>
  The loop over the entries. \<open>deep\<close> is whether \<open>depth\<close> is not zero, and \<open>sub\<close> the recursive call. The
  path is cut back after each entry.
\<close>

fun walk_entries ::
  "'s walk_env \<Rightarrow> bool \<Rightarrow> (string \<Rightarrow> 's \<Rightarrow> 's c_result) \<Rightarrow> string \<Rightarrow> string list \<Rightarrow> 's \<Rightarrow> 's c_result" where
  "walk_entries env deep sub path [] st = Inr st"
| "walk_entries env deep sub path (name # entries) st =
     (case entry_path env path name of
        Inl f \<Rightarrow> Inl f
      | Inr p \<Rightarrow>
          (let kind = fs_lstat env p;
               result =
                 (if (kind = Directory \<and> deep \<or> kind = Regular) \<and> char_at name 0 \<noteq> CHR ''.'' then
                    (if kind = Directory then (if dir_cb env p name st then sub p st else Inr st)
                     else file_cb env p name st)
                  else Inr st)
           in case result of
                Inl f \<Rightarrow> Inl f
              | Inr st \<Rightarrow>
                  if interrupted env st then Inr st
                  else walk_entries env deep sub path entries st))"

definition walk_dir ::
  "'s walk_env \<Rightarrow> bool \<Rightarrow> (string \<Rightarrow> 's \<Rightarrow> 's c_result) \<Rightarrow> string \<Rightarrow> 's \<Rightarrow> 's c_result" where
  "walk_dir env deep sub path st =
     (case fs_readdir env path of
        None \<Rightarrow> if fs_notdir env path then file_cb env path path st else Inr st
      | Some entries \<Rightarrow> walk_entries env deep sub path entries st)"

primrec walkdir :: "'s walk_env \<Rightarrow> nat \<Rightarrow> string \<Rightarrow> 's \<Rightarrow> 's c_result" where
  "walkdir env 0 = walk_dir env False (\<lambda>p st. Inr st)"
| "walkdir env (Suc depth) = walk_dir env True (walkdir env depth)"

section \<open>Properties\<close>

text \<open>What a call of the file callback is given, for a walk into directories.\<close>

definition reported :: "'s walk_env \<Rightarrow> string \<Rightarrow> string \<Rightarrow> bool" where
  "reported env p name \<longleftrightarrow> length p \<le> path_size env \<and>
     (fs_readdir env p = None \<and> name = p \<or> fs_lstat env p = Regular \<and> char_at name 0 \<noteq> CHR ''.'')"

lemma strncat_ok:
  assumes "sz < cap" "length path \<le> sz" "path \<noteq> []"
  shows "\<exists>p. strncat cap path s (size_minus sz (length path)) = Inr p \<and> p \<noteq> [] \<and> length p \<le> sz"
proof -
  have "length (path @ take (sz - length path) s) \<le> sz" using assms(2) by simp
  then have "length (path @ take (sz - length path) s) < cap" using assms(1) by (rule le_less_trans)
  then show ?thesis using assms \<open>length (path @ take (sz - length path) s) \<le> sz\<close>
    by (simp add: strncat_def Let_def)
qed

lemma entry_path_ok:
  assumes "path_size env < path_cap env" "path \<noteq> []" "length path \<le> path_size env"
  shows "\<exists>p. entry_path env path name = Inr p \<and> p \<noteq> [] \<and> length p \<le> path_size env"
proof (cases "last path \<noteq> CHR ''/''")
  case True
  obtain q where q: "strncat (path_cap env) path ''/'' (size_minus (path_size env) (length path)) = Inr q"
      "q \<noteq> []" "length q \<le> path_size env"
    using strncat_ok [OF assms(1,3,2)] by blast
  then show ?thesis
    using strncat_ok [OF assms(1) q(3,2), of name] assms(2) True by (simp add: entry_path_def)
next
  case False
  then show ?thesis
    using strncat_ok [OF assms(1,3,2), of name] assms(2) by (simp add: entry_path_def)
qed

lemma walk_entries_inv:
  assumes "path_size env < path_cap env" "path \<noteq> []" "length path \<le> path_size env"
    and cb: "\<And>p name st. I st \<Longrightarrow> reported env p name \<Longrightarrow> \<exists>st'. file_cb env p name st = Inr st' \<and> I st'"
    and sub: "\<And>p st. p \<noteq> [] \<Longrightarrow> length p \<le> path_size env \<Longrightarrow> I st \<Longrightarrow> \<exists>st'. sub p st = Inr st' \<and> I st'"
  shows "I st \<Longrightarrow> \<exists>st'. walk_entries env deep sub path entries st = Inr st' \<and> I st'"
proof (induction entries arbitrary: st)
  case Nil
  then show ?case by simp
next
  case (Cons name entries)
  obtain p where p: "entry_path env path name = Inr p" "p \<noteq> []" "length p \<le> path_size env"
    using entry_path_ok [OF assms(1-3)] by blast
  let ?kind = "fs_lstat env p"
  let ?result = "if (?kind = Directory \<and> deep \<or> ?kind = Regular) \<and> char_at name 0 \<noteq> CHR ''.'' then
      (if ?kind = Directory then (if dir_cb env p name st then sub p st else Inr st) else file_cb env p name st)
    else Inr st"
  have "\<exists>st'. ?result = Inr st' \<and> I st'"
    using sub [OF p(2,3) Cons.prems] cb [OF Cons.prems, of p name] Cons.prems p(3)
    by (auto simp: reported_def)
  then obtain st' where "?result = Inr st'" "I st'" by blast
  then show ?case
    using p(1) Cons.IH [of st'] by (simp add: Let_def)
qed

lemma walkdir_inv:
  assumes "path_size env < path_cap env"
    and cb: "\<And>p name st. I st \<Longrightarrow> reported env p name \<Longrightarrow> \<exists>st'. file_cb env p name st = Inr st' \<and> I st'"
  shows "path \<noteq> [] \<Longrightarrow> length path \<le> path_size env \<Longrightarrow> I st \<Longrightarrow> \<exists>st'. walkdir env depth path st = Inr st' \<and> I st'"
proof (induction depth arbitrary: path st)
  case 0
  then show ?case
    using walk_entries_inv [OF assms(1), of path I "\<lambda>p st. Inr st" st False] cb
    by (auto simp: walk_dir_def reported_def split: option.split)
next
  case (Suc depth)
  then show ?case
    using walk_entries_inv [OF assms(1), of path I "walkdir env depth" st True] cb
    by (auto simp: walk_dir_def reported_def split: option.split)
qed

text \<open>
  With a path buffer larger than \<open>path_size\<close>, a walk that starts at a non-empty path of at most
  \<open>path_size\<close> characters stays inside the buffer whatever the file system holds; and what it reports is
  the start path itself if that is no directory, or regular files whose names do not start with a dot,
  under paths of at most \<open>path_size\<close> characters.
\<close>

theorem walkdir_reports:
  assumes "path_size env < path_cap env" "path \<noteq> []" "length path \<le> path_size env"
    and "\<And>p name st. file_cb env p name st = Inr (st @ [(p, name)])"
  shows "\<exists>st. walkdir env depth path [] = Inr st \<and> (\<forall>(p, name) \<in> set st. reported env p name)"
proof -
  have "\<exists>st. walkdir env depth path [] = Inr st \<and> list_all (\<lambda>(p, name). reported env p name) st"
    by (rule walkdir_inv [OF assms(1) _ assms(2,3)]) (auto simp: assms(4))
  then show ?thesis by (simp add: list_all_iff)
qed

abbreviation demo_walk :: "(string \<times> string) list walk_env" where
  "demo_walk \<equiv> \<lparr>fs_readdir = (\<lambda>p. if p = ''.'' then Some [''.'', ''..'', ''a.bin'', ''.git''] else None),
     fs_notdir = \<lambda>p. False, fs_lstat = \<lambda>p. Regular, path_size = 246, path_cap = 256,
     dir_cb = \<lambda>p n st. True, file_cb = \<lambda>p n st. Inr (st @ [(p, n)]), interrupted = \<lambda>st. False\<rparr>"

theorem walkdir_reports_witness:
  "walkdir demo_walk 10 ''.'' [] = Inr [(''./a.bin'', ''a.bin'')] \<and>
   reported demo_walk ''./a.bin'' ''a.bin''"
proof -
  have "walkdir demo_walk 10 ''.'' [] = Inr [(''./a.bin'', ''a.bin'')]" by code_simp
  with walkdir_reports [of demo_walk "''.''" 10] show ?thesis by auto
qed

text \<open>
  With \<open>path_size\<close> equal to the size of the buffer, as \<open>sps\<close> passes it, an entry whose path has that
  many characters makes \<open>strncat\<close> put its terminator behind the buffer.
\<close>

lemma walkdir_path_overflow:
  assumes "path_size env = path_cap env" "fs_readdir env ''.'' = Some (name # entries)"
    and "path_cap env = 256" "254 \<le> length name"
  shows "walkdir env depth ''.'' st = Inl Out_Of_Bounds"
proof -
  have "entry_path env ''.'' name = Inl Out_Of_Bounds"
    using assms by (simp add: entry_path_def strncat_def)
  then show ?thesis
    using assms(2) by (cases depth) (simp_all add: walk_dir_def)
qed

end
