(* ===== verification/Spaceboot.thy ===== *)
theory Spaceboot
  imports Walkdir Slash_Base
begin

text \<open>
  The firmware commands of \<open>src/spaceboot_slash.c\<close>: \<open>switch\<close> boots a module into a slot, \<open>program\<close> uploads
  an image to a slot, \<open>sps\<close> switches, programs and switches back. Network, terminal and parameter library
  are oracles that may depend on the calls made before; the handlers record their calls, so that what is
  sent to a module, and in which order, can be stated. Files are byte sequences given by their path.
\<close>

section \<open>Calls and answers\<close>

datatype boot_call =
    Ping int
  | Create_param int int
  | Remove_param int int
  | Boot_push int "(int \<times> int) list"
  | Reboot int
  | Wait nat
  | Rdp_set
  | Rdp_reset
  | Find_vmem int int string
  | Readline
  | Upload int int "32 word" "8 word list"
  | Download int "32 word" int
  | Calc_crc32 int "32 word" int

record boot_world =
  bw_ping :: "boot_call list \<Rightarrow> int \<Rightarrow> bool"
  bw_has_param :: "boot_call list \<Rightarrow> int \<Rightarrow> int \<Rightarrow> bool"
  bw_list_add :: "boot_call list \<Rightarrow> int"
  bw_find_vmem :: "boot_call list \<Rightarrow> int \<Rightarrow> string \<Rightarrow> 32 word \<times> int"
  bw_readline :: "boot_call list \<Rightarrow> string"
  bw_upload :: "boot_call list \<Rightarrow> int"
  bw_download :: "boot_call list \<Rightarrow> 8 word list"
  bw_calc_crc32 :: "boot_call list \<Rightarrow> int \<times> int"
  bw_crc32_memory :: "8 word list \<Rightarrow> int"
  bw_file :: "string \<Rightarrow> 8 word list option"
  CSP_ERR_TIMEDOUT :: int
  CSP_ERR_NOBUFS :: int

definition ping :: "boot_world \<Rightarrow> int \<Rightarrow> boot_call list \<Rightarrow> bool \<times> boot_call list" where
  "ping w node tr = (bw_ping w tr node, tr @ [Ping node])"

section \<open>Switching slots\<close>

abbreviation NUM_SLOTS :: int where "NUM_SLOTS \<equiv> 4"

text \<open>The identifiers of the four boot parameters, by slot.\<close>

definition boot_param_ids :: "int list" where
  "boot_param_ids = [21, 20, 22, 23]"

text \<open>The parameters that are not in the list are created; the second component tells which of them the
  code takes as existing, which is what the library's addition to the list returns.\<close>

fun create_boot_params ::
  "boot_world \<Rightarrow> int \<Rightarrow> int list \<Rightarrow> boot_call list \<Rightarrow> (int \<times> bool) list \<times> boot_call list" where
  "create_boot_params w node [] tr = ([], tr)"
| "create_boot_params w node (pid # ids) tr =
     (let (exist, tr) =
            (if bw_has_param w tr node pid then (True, tr)
             else (bw_list_add w tr \<noteq> 0, tr @ [Create_param node pid]));
          (rest, tr) = create_boot_params w node ids tr
      in ((pid, exist) # rest, tr))"

function wait_steps :: "int \<Rightarrow> nat" where
  "wait_steps ms = (if 0 < ms then Suc (wait_steps (ms - 25)) else 0)"
  by pat_completeness auto
termination
  by (relation "measure nat") auto

declare wait_steps.simps [simp del]

text \<open>The value pushed for the chosen slot is the low byte of \<open>times\<close>, which the queue reads through a
  pointer to an 8-bit parameter.\<close>

definition reset_to_flash ::
  "boot_world \<Rightarrow> int \<Rightarrow> int \<Rightarrow> int \<Rightarrow> int \<Rightarrow> boot_call list \<Rightarrow> boot_call list" where
  "reset_to_flash w node flash n_times ms tr =
     (let (boot_img, tr) = create_boot_params w node boot_param_ids tr in
      if flash < 0 \<or> flash \<ge> NUM_SLOTS then tr
      else
        (let tr = tr @ [Boot_push node ([(0, 0), (1, 0), (2, 0), (3, 0)] @ [(flash, n_times mod 256)]),
                        Reboot node, Wait (wait_steps ms)];
             tr = tr @ map (\<lambda>p. Remove_param node (fst p)) (filter (\<lambda>p. \<not> snd p) boot_img)
         in snd (ping w node tr)))"

record switch_opts =
  switch_node :: int
  switch_times :: int
  switch_delay :: int

definition slash_csp_switch ::
  "boot_world \<Rightarrow> slash_defaults \<Rightarrow> switch_opts optparse \<Rightarrow> string list \<Rightarrow> slash_ret \<times> boot_call list" where
  "slash_csp_switch w dfl parser argv =
     (let (argi, opts) = optparse_parse parser
            \<lparr>switch_node = slash_dfl_node dfl, switch_times = 1, switch_delay = 1000\<rparr> argv
      in if argi < 0 then (SLASH_EINVAL, [])
         else if argi + 1 \<ge> argc argv then (SLASH_EINVAL, [])
         else
           (let slot = to_uint32 (atoi (nth_arg argv (argi + 1)))
            in (SLASH_SUCCESS,
                reset_to_flash w (switch_node opts) (to_int32 slot) (to_int32 (switch_times opts))
                  (to_int32 (switch_delay opts)) [])))"

section \<open>Images\<close>

text \<open>The bytes of a file of at least 4 bytes and at most the largest \<open>int\<close>.\<close>

definition image_get :: "boot_world \<Rightarrow> string \<Rightarrow> 8 word list option" where
  "image_get w filename =
     (case bw_file w filename of
        None \<Rightarrow> None
      | Some bytes \<Rightarrow> if int (length bytes) > INT32_MAX \<or> length bytes < 4 then None else Some bytes)"

record bin_file_ident_t =
  ident_valid :: bool
  ident_strings :: "string list"
  ident_stext :: int

abbreviation WALKDIR_MAX_ENTRIES :: nat where "WALKDIR_MAX_ENTRIES \<equiv> 32"
abbreviation WALKDIR_MAX_PATH_SIZE :: nat where "WALKDIR_MAX_PATH_SIZE \<equiv> 256"

record bin_info_t =
  addr_min :: int
  addr_max :: int
  bin_count :: nat
  idents :: "bin_file_ident_t list"
  files :: "string list"

definition entry_offsets :: "int list" where
  "entry_offsets = [4, 0x2c4]"

text \<open>Four bytes at an offset of the image, and as a little-endian number.\<close>

definition bytes4 :: "8 word list \<Rightarrow> int \<Rightarrow> 8 word list c_result" where
  "bytes4 img i =
     (if 0 \<le> i \<and> i + 4 \<le> int (length img) then Inr (take 4 (drop (nat i) img)) else Inl Out_Of_Bounds)"

definition le32 :: "8 word list \<Rightarrow> int" where
  "le32 bs = foldr (\<lambda>b n. uint b + 256 * n) bs 0"

definition ident_end_magic :: "8 word list" where
  "ident_end_magic = [0xC0, 0xDE, 0xBA, 0xD0]"

definition ident_begin_magic :: "8 word list" where
  "ident_begin_magic = [0xBA, 0xD0, 0xFA, 0xCE]"

text \<open>The scan backwards for the marker: the offset behind it.\<close>

function find_ident_begin :: "8 word list \<Rightarrow> int \<Rightarrow> int option c_result" where
  "find_ident_begin img idx =
     (let idx = idx - 1 in
      case bytes4 img (int (length img) + idx) of
        Inl f \<Rightarrow> Inl f
      | Inr b \<Rightarrow>
          if b = ident_begin_magic then Inr (Some (int (length img) + idx + 4))
          else if idx \<ge> - 256 then find_ident_begin img idx
          else Inr None)"
  by pat_completeness auto
termination
  by (relation "measure (\<lambda>(img, idx). nat (idx + 257))") auto

declare find_ident_begin.simps [simp del]

text \<open>The strings from an offset on, at most three, up to the end marker; each is read to its NUL.\<close>

fun ident_texts :: "nat \<Rightarrow> 8 word list \<Rightarrow> nat \<Rightarrow> string list c_result" where
  "ident_texts 0 img iter = Inr []"
| "ident_texts (Suc n) img iter =
     (if iter < length img - 4 then
        (let text = takeWhile (\<lambda>b. b \<noteq> 0) (drop iter img) in
         if length img \<le> iter + length text then Inl Out_Of_Bounds
         else
           (case ident_texts n img (iter + length text + 1) of
              Inl f \<Rightarrow> Inl f
            | Inr ts \<Rightarrow> Inr (map (\<lambda>b. char_of (unat b)) (take 32 text) # ts)))
      else Inr [])"

text \<open>Whether an address of the vector table lies in the area, trying the two positions in turn.\<close>

fun entry_in_area :: "bin_info_t \<Rightarrow> 8 word list \<Rightarrow> int list \<Rightarrow> bool c_result" where
  "entry_in_area binf img [] = Inr False"
| "entry_in_area binf img (i # offsets) =
     (case bytes4 img i of
        Inl f \<Rightarrow> Inl f
      | Inr b \<Rightarrow>
          if addr_min binf \<le> le32 b \<and> le32 b \<le> addr_max binf then Inr True
          else entry_in_area binf img offsets)"

definition fits_area :: "bin_info_t \<Rightarrow> 8 word list \<Rightarrow> bool" where
  "fits_area binf img \<longleftrightarrow> to_uint32 (addr_min binf + int (length img)) \<le> addr_max binf"

abbreviation no_ident :: bin_file_ident_t where
  "no_ident \<equiv> \<lparr>ident_valid = False, ident_strings = [], ident_stext = 0\<rparr>"

text \<open>The identification at the end of the image: \<open>None\<close> if it is of another area, else the strings found.\<close>

definition read_ident :: "bin_info_t \<Rightarrow> 8 word list \<Rightarrow> (bin_file_ident_t \<times> bool) option c_result" where
  "read_ident binf img =
     (case bytes4 img (int (length img) - 4) of
        Inl f \<Rightarrow> Inl f
      | Inr b \<Rightarrow>
          if b \<noteq> ident_end_magic then Inr (Some (no_ident, False))
          else
            (case bytes4 img (int (length img) - 8) of
               Inl f \<Rightarrow> Inl f
             | Inr b \<Rightarrow>
                 (let stext = le32 b in
                  if addr_min binf \<le> stext \<and> addr_max binf \<ge> stext \<and> fits_area binf img then
                    (case find_ident_begin img (- 8) of
                       Inl f \<Rightarrow> Inl f
                     | Inr None \<Rightarrow> Inr (Some (no_ident\<lparr>ident_stext := stext\<rparr>, False))
                     | Inr (Some begin') \<Rightarrow>
                         (case ident_texts 3 img (nat begin') of
                            Inl f \<Rightarrow> Inl f
                          | Inr ts \<Rightarrow>
                              Inr (Some (\<lparr>ident_valid = ts \<noteq> [], ident_strings = ts, ident_stext = stext\<rparr>,
                                         ts \<noteq> []))))
                  else Inr None)))"

definition is_valid_binary :: "boot_world \<Rightarrow> string \<Rightarrow> bin_info_t \<Rightarrow> (bool \<times> bin_file_ident_t) c_result" where
  "is_valid_binary w path binf =
     (if length path \<le> 4 \<or> drop (length path - 4) path \<noteq> ''.bin'' then Inr (False, no_ident)
      else
        (case image_get w path of
           None \<Rightarrow> Inr (False, no_ident)
         | Some img \<Rightarrow>
             (case read_ident binf img of
                Inl f \<Rightarrow> Inl f
              | Inr None \<Rightarrow> Inr (False, no_ident)
              | Inr (Some (ident, ident_found)) \<Rightarrow>
                  if \<not> ident_found \<and> fits_area binf img then
                    (case entry_in_area binf img entry_offsets of
                       Inl f \<Rightarrow> Inl f
                     | Inr found \<Rightarrow> Inr (found, ident))
                  else Inr (ident_found, ident))))"

definition dir_callback :: "string \<Rightarrow> string \<Rightarrow> bin_info_t \<Rightarrow> bool" where
  "dir_callback path last_entry custom = True"

definition file_callback :: "boot_world \<Rightarrow> string \<Rightarrow> string \<Rightarrow> bin_info_t \<Rightarrow> bin_info_t c_result" where
  "file_callback w path last_entry binf =
     (case is_valid_binary w path binf of
        Inl f \<Rightarrow> Inl f
      | Inr (False, ident) \<Rightarrow> Inr binf
      | Inr (True, ident) \<Rightarrow>
          if bin_count binf < WALKDIR_MAX_ENTRIES then
            Inr (binf\<lparr>idents := (idents binf)[bin_count binf := ident],
                      files := (files binf)[bin_count binf := take WALKDIR_MAX_PATH_SIZE path],
                      bin_count := bin_count binf + 1\<rparr>)
          else Inr binf)"

section \<open>Uploading\<close>

text \<open>The address is a parameter of type \<open>int\<close>; the requests, of version 1 of the protocol, carry its 32 bits.\<close>

definition do_upload :: "boot_world \<Rightarrow> int \<Rightarrow> int \<Rightarrow> int \<Rightarrow> 8 word list \<Rightarrow> boot_call list \<Rightarrow> slash_ret \<times> boot_call list" where
  "do_upload w node timeout address img tr =
     (let count = bw_upload w tr; tr = tr @ [Upload node timeout (word_of_int address) img]
      in if count = CSP_ERR_TIMEDOUT w then (SLASH_EIO, tr)
         else if count = CSP_ERR_NOBUFS w then (SLASH_ENOMEM, tr)
         else if count \<noteq> int (length img) then (SLASH_EIO, tr)
         else (SLASH_SUCCESS, tr))"

text \<open>\<open>bw_download\<close> gives the contents of the download buffer, of the length of the image, whether or not
  the download succeeded.\<close>

definition upload_and_verify :: "boot_world \<Rightarrow> int \<Rightarrow> int \<Rightarrow> 8 word list \<Rightarrow> boot_call list \<Rightarrow> slash_ret \<times> boot_call list" where
  "upload_and_verify w node address img tr =
     (let (res, tr) = do_upload w node 10000 address img tr in
      if slash_failed res then (res, tr)
      else
        (let datain = bw_download w tr; tr = tr @ [Download node (word_of_int address) (int (length img))]
         in if take (length img) datain \<noteq> img then (SLASH_EINVAL, tr) else (SLASH_SUCCESS, tr)))"

text \<open>What \<open>program\<close> and \<open>sps\<close> both do with an image; a failed upload returns before the option of the
  transport is reset, which is the second component.\<close>

definition program_image ::
  "boot_world \<Rightarrow> int \<Rightarrow> 32 word \<Rightarrow> bool \<Rightarrow> 8 word list \<Rightarrow> boot_call list \<Rightarrow> slash_ret \<times> bool \<times> boot_call list" where
  "program_image w node vaddr do_crc32 img tr =
     (if do_crc32 then
        (let crc = bw_crc32_memory w img;
             (result, tr) = do_upload w node 10000 (sint vaddr) img tr
         in if slash_failed result then (result, False, tr)
            else
              (let (res, crc_node) = bw_calc_crc32 w tr;
                   tr = tr @ [Calc_crc32 node vaddr (int (length img))]
               in (if res \<ge> 0 \<and> crc_node = crc then result else SLASH_ENOSPC, True, tr)))
      else
        (let (result, tr) = upload_and_verify w node (sint vaddr) img tr in (result, True, tr)))"

section \<open>Choosing the image\<close>

text \<open>\<open>snprintf(vmem_name, 5, "fl%u", slot)\<close>: cut to four characters.\<close>

definition vmem_name :: "int \<Rightarrow> string" where
  "vmem_name slot = take 4 (''fl'' @ show_int slot)"

definition search_binaries ::
  "boot_world \<Rightarrow> bin_info_t walk_env \<Rightarrow> nat \<Rightarrow> 32 word \<times> int \<Rightarrow> bin_info_t \<Rightarrow> bin_info_t c_result" where
  "search_binaries w env psize vmem binf =
     walkdir (env\<lparr>path_size := psize, path_cap := WALKDIR_MAX_PATH_SIZE, dir_cb := dir_callback,
                  file_cb := file_callback w\<rparr>) 10 ''.''
       (binf\<lparr>addr_min := uint (fst vmem), addr_max := to_uint32 (uint (fst vmem) + snd vmem - 1), bin_count := 0\<rparr>)"

text \<open>The path to program, or the code returned; the index typed is not compared with the number of
  files found.\<close>

definition choose_binary ::
  "boot_world \<Rightarrow> bin_info_t walk_env \<Rightarrow> nat \<Rightarrow> string option \<Rightarrow> 32 word \<times> int \<Rightarrow> bin_info_t \<Rightarrow> boot_call list
     \<Rightarrow> ((slash_ret + string) \<times> bin_info_t \<times> boot_call list) c_result"
where
  "choose_binary w env psize filename vmem binf tr =
     (case (case filename of
              Some f \<Rightarrow>
                Inr (binf\<lparr>files := (files binf)[0 := take (WALKDIR_MAX_PATH_SIZE - 1) f], bin_count := 0\<rparr>)
            | None \<Rightarrow> search_binaries w env psize vmem binf) of
        Inl f \<Rightarrow> Inl f
      | Inr binf \<Rightarrow>
          if filename = None \<and> interrupted env binf then Inr (Inl SLASH_EINVAL, binf, tr)
          else if filename = None \<and> bin_count binf = 0 then Inr (Inl SLASH_EINVAL, binf, tr)
          else if bin_count binf > 1 then
            (let c = bw_readline w tr; tr = tr @ [Readline]
             in if c = [] then Inr (Inl SLASH_EUSAGE, binf, tr)
                else
                  (let index = atoi c
                   in if index < 0 \<or> index \<ge> int (length (files binf)) then Inl Out_Of_Bounds
                      else Inr (Inr (files binf ! nat index), binf, tr)))
          else if files binf = [] then Inl Out_Of_Bounds
          else Inr (Inr (files binf ! 0), binf, tr))"

section \<open>The command \<open>program\<close>\<close>

record program_opts =
  program_node :: int
  program_filename :: "string option"
  program_force :: bool
  program_crc32 :: bool

text \<open>After the path is chosen: the module must answer, the user must confirm unless forced, and the file
  must be readable.\<close>

definition program_confirmed ::
  "boot_world \<Rightarrow> program_opts \<Rightarrow> 32 word \<Rightarrow> string \<Rightarrow> boot_call list \<Rightarrow> slash_ret \<times> boot_call list" where
  "program_confirmed w opts vaddr path tr =
     (let (alive, tr) = ping w (program_node opts) tr in
      if \<not> alive then (SLASH_EINVAL, tr @ [Rdp_reset])
      else
        (let confirm = bw_readline w tr;
             tr' = (if program_force opts then tr else tr @ [Readline])
         in if \<not> program_force opts \<and> confirm \<noteq> ''yes'' then (SLASH_EUSAGE, tr' @ [Rdp_reset])
            else
              (case image_get w path of
                 None \<Rightarrow> (SLASH_EIO, tr' @ [Rdp_reset])
               | Some img \<Rightarrow>
                   (let (result, finished, tr) =
                          program_image w (program_node opts) vaddr (program_crc32 opts) img tr'
                    in (result, if finished then tr @ [Rdp_reset] else tr)))))"

definition slash_csp_program ::
  "boot_world \<Rightarrow> bin_info_t walk_env \<Rightarrow> slash_defaults \<Rightarrow> program_opts optparse \<Rightarrow> bin_info_t \<Rightarrow> string list
     \<Rightarrow> (slash_ret \<times> bin_info_t \<times> boot_call list) c_result"
where
  "slash_csp_program w env dfl parser binf argv =
     (let (argi, opts) = optparse_parse parser
            \<lparr>program_node = slash_dfl_node dfl, program_filename = None, program_force = False,
             program_crc32 = False\<rparr> argv
      in if argi < 0 then Inr (SLASH_EINVAL, binf, [])
         else if argi + 1 \<ge> argc argv then Inr (SLASH_EINVAL, binf, [Rdp_reset])
         else
           (let name = vmem_name (to_uint32 (atoi (nth_arg argv (argi + 1))));
                vmem = bw_find_vmem w [] (program_node opts) name;
                tr = [Find_vmem (program_node opts) (slash_dfl_timeout dfl) name]
            in if snd vmem = 0 then Inr (SLASH_EINVAL, binf, tr @ [Rdp_reset])
               else
                 (case choose_binary w env (WALKDIR_MAX_PATH_SIZE - 10) (program_filename opts) vmem binf tr of
                    Inl f \<Rightarrow> Inl f
                  | Inr (Inl ret, binf, tr) \<Rightarrow> Inr (ret, binf, tr @ [Rdp_reset])
                  | Inr (Inr path, binf, tr) \<Rightarrow>
                      (let (ret, tr) = program_confirmed w opts (fst vmem) path tr in Inr (ret, binf, tr)))))"

section \<open>The command \<open>sps\<close>\<close>

record sps_opts =
  sps_node :: int
  sps_filename :: "string option"
  sps_delay :: int
  sps_crc32 :: bool

definition sps_program ::
  "boot_world \<Rightarrow> sps_opts \<Rightarrow> int \<Rightarrow> 32 word \<Rightarrow> string \<Rightarrow> boot_call list \<Rightarrow> slash_ret \<times> boot_call list" where
  "sps_program w opts to vaddr path tr =
     (let (alive, tr) = ping w (sps_node opts) tr in
      if \<not> alive then (SLASH_EINVAL, tr @ [Rdp_reset])
      else
        (case image_get w path of
           None \<Rightarrow> (SLASH_EIO, tr @ [Rdp_reset])
         | Some img \<Rightarrow>
             (let (result, finished, tr) = program_image w (sps_node opts) vaddr (sps_crc32 opts) img tr;
                  tr = (if finished \<and> result = SLASH_SUCCESS
                        then reset_to_flash w (sps_node opts) to 1 (to_int32 (sps_delay opts)) tr else tr)
              in (result, if finished then tr @ [Rdp_reset] else tr))))"

definition slash_sps ::
  "boot_world \<Rightarrow> bin_info_t walk_env \<Rightarrow> slash_defaults \<Rightarrow> sps_opts optparse \<Rightarrow> bin_info_t \<Rightarrow> string list
     \<Rightarrow> (slash_ret \<times> bin_info_t \<times> boot_call list) c_result"
where
  "slash_sps w env dfl parser binf argv =
     (let (argi, opts) = optparse_parse parser
            \<lparr>sps_node = slash_dfl_node dfl, sps_filename = None, sps_delay = 1000, sps_crc32 = False\<rparr> argv
      in if argi < 0 then Inr (SLASH_EINVAL, binf, [Rdp_reset])
         else if argi + 1 \<ge> argc argv then Inr (SLASH_EINVAL, binf, [Rdp_set, Rdp_reset])
         else if argi + 2 \<ge> argc argv then Inr (SLASH_EINVAL, binf, [Rdp_set, Rdp_reset])
         else
           (let from_slot = to_int32 (to_uint32 (atoi (nth_arg argv (argi + 1))));
                to_slot = to_uint32 (atoi (nth_arg argv (argi + 2)));
                tr = reset_to_flash w (sps_node opts) from_slot 1 (to_int32 (sps_delay opts)) [Rdp_set];
                name = vmem_name to_slot;
                vmem = bw_find_vmem w tr (sps_node opts) name;
                tr = tr @ [Find_vmem (sps_node opts) (slash_dfl_timeout dfl) name]
            in if snd vmem = 0 then Inr (SLASH_EINVAL, binf, tr @ [Rdp_reset])
               else
                 (case choose_binary w env WALKDIR_MAX_PATH_SIZE (sps_filename opts) vmem binf tr of
                    Inl f \<Rightarrow> Inl f
                  | Inr (Inl ret, binf, tr) \<Rightarrow> Inr (ret, binf, tr @ [Rdp_reset])
                  | Inr (Inr path, binf, tr) \<Rightarrow>
                      (let (ret, tr) = sps_program w opts (to_int32 to_slot) (fst vmem) path tr
                       in Inr (ret, binf, tr)))))"

section \<open>Properties\<close>

definition is_upload :: "boot_call \<Rightarrow> bool" where
  "is_upload c \<longleftrightarrow> (case c of Upload n t a d \<Rightarrow> True | _ \<Rightarrow> False)"

definition is_boot_push :: "boot_call \<Rightarrow> bool" where
  "is_boot_push c \<longleftrightarrow> (case c of Boot_push n vs \<Rightarrow> True | _ \<Rightarrow> False)"

lemma is_upload_simps [simp]:
  "\<not> is_upload (Ping n)" "\<not> is_upload Rdp_reset" "\<not> is_upload Rdp_set" "\<not> is_upload Readline"
  "\<not> is_upload (Find_vmem n t s)" "\<not> is_upload (Calc_crc32 n a l)" "\<not> is_upload (Download n a l)"
  "is_upload (Upload n t a d)"
  by (simp_all add: is_upload_def)

lemma choose_binary_trace:
  assumes "choose_binary w env psize filename vmem binf tr = Inr (r, binf', tr')"
  shows "tr' = tr \<or> tr' = tr @ [Readline]"
  using assms by (auto simp: choose_binary_def Let_def split: sum.splits option.splits if_splits)

lemma program_image_trace:
  assumes "program_image w node address crc img tr = (ret, finished, tr')"
  shows "\<exists>post. tr' = tr @ [Upload node 10000 address img] @ post \<and> \<not> list_ex is_upload post \<and>
    \<not> list_ex is_boot_push post"
  using assms
  by (auto simp: program_image_def upload_and_verify_def do_upload_def Let_def is_boot_push_def
      split: if_splits prod.splits)

text \<open>The image is the one in the memory of the node, as far as the command looks.\<close>

definition image_accepted :: "boot_world \<Rightarrow> bool \<Rightarrow> 8 word list \<Rightarrow> int \<Rightarrow> 32 word \<Rightarrow> boot_call list \<Rightarrow> bool" where
  "image_accepted w crc img node address tr \<longleftrightarrow>
     bw_upload w tr = int (length img) \<and>
     (let tr = tr @ [Upload node 10000 address img]
      in if crc then 0 \<le> fst (bw_calc_crc32 w tr) \<and> snd (bw_calc_crc32 w tr) = bw_crc32_memory w img
         else take (length img) (bw_download w tr) = img)"

lemma program_image_success:
  assumes "program_image w node address crc img tr = (ret, finished, tr')"
    and "CSP_ERR_TIMEDOUT w < 0" "CSP_ERR_NOBUFS w < 0"
  shows "ret = SLASH_SUCCESS \<longleftrightarrow> image_accepted w crc img node address tr"
  using assms
  by (auto simp: program_image_def upload_and_verify_def do_upload_def image_accepted_def Let_def
      split: if_splits prod.splits)

lemma program_confirmed_trace:
  assumes "program_confirmed w opts vaddr path tr = (ret, tr')"
  shows "(\<exists>post. tr' = tr @ post \<and> \<not> list_ex is_upload post \<and> ret \<noteq> SLASH_SUCCESS) \<or>
    (\<exists>q post img. tr' = tr @ [Ping (program_node opts)] @ q @ [Upload (program_node opts) 10000 vaddr img] @ post \<and>
      \<not> list_ex is_upload (q @ post) \<and> bw_ping w tr (program_node opts) \<and> image_get w path = Some img \<and>
      (program_force opts \<or> q = [Readline] \<and> bw_readline w (tr @ [Ping (program_node opts)]) = ''yes'') \<and>
      (CSP_ERR_TIMEDOUT w < 0 \<longrightarrow> CSP_ERR_NOBUFS w < 0 \<longrightarrow>
        (ret = SLASH_SUCCESS \<longleftrightarrow> image_accepted w (program_crc32 opts) img (program_node opts) vaddr
          (tr @ [Ping (program_node opts)] @ q))))"
proof -
  let ?n = "program_node opts"
  let ?q = "if program_force opts then [] else [Readline]"
  consider (dead) "\<not> bw_ping w tr ?n"
    | (no) "bw_ping w tr ?n" "\<not> program_force opts" "bw_readline w (tr @ [Ping ?n]) \<noteq> ''yes''"
    | (unread) "bw_ping w tr ?n" "program_force opts \<or> bw_readline w (tr @ [Ping ?n]) = ''yes''"
        "image_get w path = None"
    | (go) img where "bw_ping w tr ?n" "program_force opts \<or> bw_readline w (tr @ [Ping ?n]) = ''yes''"
        "image_get w path = Some img"
    by (cases "image_get w path") auto
  then show ?thesis
  proof cases
    case go
    obtain ret' finished tr2 where pi:
      "program_image w ?n vaddr (program_crc32 opts) img (tr @ [Ping ?n] @ ?q) = (ret', finished, tr2)"
      using prod_cases3 by blast
    from program_image_trace [OF this] obtain post where
      post: "tr2 = (tr @ [Ping ?n] @ ?q) @ [Upload ?n 10000 vaddr img] @ post" "\<not> list_ex is_upload post" by blast
    have r: "ret = ret'" "tr' = (if finished then tr2 @ [Rdp_reset] else tr2)"
      using assms go pi by (auto simp: program_confirmed_def ping_def Let_def split: if_splits)
    have "tr' = tr @ [Ping ?n] @ ?q @ [Upload ?n 10000 vaddr img] @ (if finished then post @ [Rdp_reset] else post)"
      using r post by simp
    moreover have "\<not> list_ex is_upload (?q @ (if finished then post @ [Rdp_reset] else post))"
      using post by simp
    moreover have "program_force opts \<or> ?q = [Readline] \<and> bw_readline w (tr @ [Ping ?n]) = ''yes''"
      using go by auto
    ultimately show ?thesis
      using go r program_image_success [OF pi] by blast
  qed (use assms in \<open>auto simp: program_confirmed_def ping_def Let_def split: if_splits\<close>)
qed

lemma choose_binary_failed:
  "choose_binary w env psize filename vmem binf tr = Inr (Inl ret, binf', tr') \<Longrightarrow> ret \<noteq> SLASH_SUCCESS"
  by (auto simp: choose_binary_def Let_def split: sum.splits option.splits if_splits)

lemma program_cases:
  assumes "parser \<lparr>program_node = slash_dfl_node dfl, program_filename = None, program_force = False,
      program_crc32 = False\<rparr> (tl argv) = (argi, opts)"
    and "slash_csp_program w env dfl parser binf argv = Inr (ret, binf', tr)"
  obtains (early) "ret \<noteq> SLASH_SUCCESS" "\<not> list_ex is_upload tr"
    | (chosen) name path tr0 where "snd (bw_find_vmem w [] (program_node opts) name) \<noteq> 0"
      "\<not> list_ex is_upload tr0"
      "program_confirmed w opts (fst (bw_find_vmem w [] (program_node opts) name)) path tr0 = (ret, tr)"
proof -
  let ?n = "program_node opts"
  let ?name = "vmem_name (to_uint32 (atoi (nth_arg argv (argi + 1))))"
  let ?vmem = "bw_find_vmem w [] ?n ?name"
  let ?ch = "choose_binary w env (WALKDIR_MAX_PATH_SIZE - 10) (program_filename opts) ?vmem binf
      [Find_vmem ?n (slash_dfl_timeout dfl) ?name]"
  show thesis
  proof (cases "argi < 0 \<or> argi + 1 \<ge> argc argv \<or> snd ?vmem = 0")
    case True
    then show thesis
      using assms by (intro early) (auto simp: slash_csp_program_def optparse_parse_def Let_def split: if_splits)
  next
    case False
    then have run: "(case ?ch of Inl f \<Rightarrow> Inl f
        | Inr (Inl ret, binf, tr) \<Rightarrow> Inr (ret, binf, tr @ [Rdp_reset])
        | Inr (Inr path, binf, tr) \<Rightarrow>
            (let (ret, tr) = program_confirmed w opts (fst ?vmem) path tr in Inr (ret, binf, tr))) =
        Inr (ret, binf', tr)"
      using assms by (simp add: slash_csp_program_def optparse_parse_def Let_def)
    then obtain r b tr0 where ch: "?ch = Inr (r, b, tr0)" by (cases ?ch) auto
    have t0: "\<not> list_ex is_upload tr0" using choose_binary_trace [OF ch] by auto
    show thesis
    proof (cases r)
      case (Inl x)
      then show thesis
        using run ch t0 choose_binary_failed by (intro early) auto
    next
      case (Inr path)
      then show thesis
        using run ch t0 False by (intro chosen [of ?name tr0 path]) (auto split: prod.splits)
    qed
  qed
qed

text \<open>
  C5: \<open>program\<close> uploads at most once, only to the node it was told and at the address of the memory area it
  found there, only after that node has answered a ping, and, unless forced, only after \<open>yes\<close> was typed.
\<close>

theorem program_upload_guarded:
  assumes "parser \<lparr>program_node = slash_dfl_node dfl, program_filename = None, program_force = False,
      program_crc32 = False\<rparr> (tl argv) = (argi, opts)"
    and "slash_csp_program w env dfl parser binf argv = Inr (ret, binf', tr)" "list_ex is_upload tr"
  shows "\<exists>pre img post vmem. tr = pre @ [Upload (program_node opts) 10000 (fst vmem) img] @ post \<and>
    \<not> list_ex is_upload pre \<and> \<not> list_ex is_upload post \<and> snd vmem \<noteq> 0 \<and>
    (\<exists>name. vmem = bw_find_vmem w [] (program_node opts) name) \<and>
    (\<exists>p q. pre = p @ [Ping (program_node opts)] @ q \<and> bw_ping w p (program_node opts) \<and>
       (program_force opts \<or> q = [Readline] \<and> bw_readline w (p @ [Ping (program_node opts)]) = ''yes''))"
proof -
  let ?n = "program_node opts"
  obtain name path tr0 where p: "snd (bw_find_vmem w [] ?n name) \<noteq> 0" "\<not> list_ex is_upload tr0"
      "program_confirmed w opts (fst (bw_find_vmem w [] ?n name)) path tr0 = (ret, tr)"
    by (cases rule: program_cases [OF assms(1,2)]) (use assms(3) in auto)
  obtain q post img where t:
    "tr = tr0 @ [Ping ?n] @ q @ [Upload ?n 10000 (fst (bw_find_vmem w [] ?n name)) img] @ post"
    "\<not> list_ex is_upload (q @ post)" "bw_ping w tr0 ?n"
    "program_force opts \<or> q = [Readline] \<and> bw_readline w (tr0 @ [Ping ?n]) = ''yes''"
    using program_confirmed_trace [OF p(3)] assms(3) p(2) by auto
  have "\<exists>p r. tr0 @ [Ping ?n] @ q = p @ [Ping ?n] @ r \<and> bw_ping w p ?n \<and>
      (program_force opts \<or> r = [Readline] \<and> bw_readline w (p @ [Ping ?n]) = ''yes'')"
    using t(3,4) by blast
  moreover have "\<not> list_ex is_upload (tr0 @ [Ping ?n] @ q)" "\<not> list_ex is_upload post"
    using t(2) p(2) by simp_all
  moreover have "tr = (tr0 @ [Ping ?n] @ q) @ [Upload ?n 10000 (fst (bw_find_vmem w [] ?n name)) img] @ post"
    using t(1) by simp
  ultimately show ?thesis using p(1) by blast
qed

text \<open>A module that answers, stores what it is sent and reads it back.\<close>

abbreviation demo_image :: "8 word list" where
  "demo_image \<equiv> [1, 2, 3, 4]"

abbreviation demo_boot :: boot_world where
  "demo_boot \<equiv> \<lparr>bw_ping = \<lambda>tr n. True, bw_has_param = \<lambda>tr n i. True, bw_list_add = \<lambda>tr. 0,
     bw_find_vmem = \<lambda>tr n s. (0x400000, 0x10000), bw_readline = \<lambda>tr. ''yes'', bw_upload = \<lambda>tr. 4,
     bw_download = \<lambda>tr. demo_image, bw_calc_crc32 = \<lambda>tr. (0, 0), bw_crc32_memory = \<lambda>d. 0,
     bw_file = \<lambda>p. Some demo_image, CSP_ERR_TIMEDOUT = - 3, CSP_ERR_NOBUFS = - 4\<rparr>"

abbreviation demo_program_opts :: program_opts where
  "demo_program_opts \<equiv> \<lparr>program_node = 5, program_filename = Some ''a.bin'', program_force = False, program_crc32 = False\<rparr>"

abbreviation demo_bin_info :: bin_info_t where
  "demo_bin_info \<equiv> \<lparr>addr_min = 0, addr_max = 0, bin_count = 0, idents = [], files = [[]]\<rparr>"

lemma demo_program:
  "slash_csp_program demo_boot env \<lparr>slash_dfl_node = 5, slash_dfl_timeout = 1000\<rparr>
      (\<lambda>opts args. (0, demo_program_opts)) demo_bin_info [''program'', ''0''] =
    Inr (SLASH_SUCCESS, demo_bin_info\<lparr>files := [''a.bin'']\<rparr>,
      [Find_vmem 5 1000 ''fl0'', Ping 5, Readline, Upload 5 10000 0x400000 demo_image,
       Download 5 0x400000 4, Rdp_reset])"
proof -
  have "vmem_name (to_uint32 (atoi ''0'')) = ''fl0''" by code_simp
  then show ?thesis
    by (simp add: slash_csp_program_def optparse_parse_def nth_arg_def choose_binary_def program_confirmed_def ping_def
        image_get_def program_image_def upload_and_verify_def do_upload_def)
qed

theorem program_upload_guarded_witness:
  "\<exists>pre img post. [Find_vmem 5 1000 ''fl0'', Ping 5, Readline, Upload 5 10000 0x400000 demo_image,
       Download 5 0x400000 4, Rdp_reset] = pre @ [Upload 5 10000 0x400000 img] @ post \<and> \<not> list_ex is_upload pre"
  using program_upload_guarded [OF _ demo_program [of env], of 0 demo_program_opts] by auto

text \<open>
  When \<open>program\<close> reports success, the image it read is in the memory of the node as far as it can tell:
  the whole of it was sent, and either the checksum the node computed over it is the one of the file, or
  the bytes read back are the bytes of the file.
\<close>

theorem program_success_verified:
  assumes "parser \<lparr>program_node = slash_dfl_node dfl, program_filename = None, program_force = False,
      program_crc32 = False\<rparr> (tl argv) = (argi, opts)" "CSP_ERR_TIMEDOUT w < 0" "CSP_ERR_NOBUFS w < 0"
    and "slash_csp_program w env dfl parser binf argv = Inr (SLASH_SUCCESS, binf', tr)"
  shows "\<exists>pre img post vaddr path. tr = pre @ [Upload (program_node opts) 10000 vaddr img] @ post \<and>
    image_get w path = Some img \<and> image_accepted w (program_crc32 opts) img (program_node opts) vaddr pre"
proof -
  let ?n = "program_node opts"
  obtain name path tr0 where p:
      "program_confirmed w opts (fst (bw_find_vmem w [] ?n name)) path tr0 = (SLASH_SUCCESS, tr)"
    by (cases rule: program_cases [OF assms(1,4)]) auto
  obtain q post img where
    "tr = tr0 @ [Ping ?n] @ q @ [Upload ?n 10000 (fst (bw_find_vmem w [] ?n name)) img] @ post"
    "image_get w path = Some img"
    "image_accepted w (program_crc32 opts) img ?n (fst (bw_find_vmem w [] ?n name)) (tr0 @ [Ping ?n] @ q)"
    using program_confirmed_trace [OF p] assms(2,3) by blast
  then show ?thesis
    by (intro exI [of _ "tr0 @ [Ping ?n] @ q"] exI [of _ img] exI [of _ post]
        exI [of _ "fst (bw_find_vmem w [] ?n name)"] exI [of _ path]) simp
qed

theorem program_success_verified_witness:
  "\<exists>pre img post vaddr path. [Find_vmem 5 1000 ''fl0'', Ping 5, Readline, Upload 5 10000 0x400000 demo_image,
       Download 5 0x400000 4, Rdp_reset] = pre @ [Upload 5 10000 vaddr img] @ post \<and>
    image_get demo_boot path = Some img"
  using program_success_verified [OF _ _ _ demo_program [of env], of 0 demo_program_opts] by auto

subsection \<open>Switch, program, switch\<close>

lemma reset_to_flash_extends: "\<exists>post. reset_to_flash w node flash n ms tr = tr @ post"
proof -
  have "\<exists>post. snd (create_boot_params w node ids tr) = tr @ post" for ids tr
  proof (induction ids arbitrary: tr)
    case (Cons pid ids)
    show ?case
      using Cons.IH [of tr] Cons.IH [of "tr @ [Create_param node pid]"] by (auto simp: split_beta Let_def)
  qed simp
  then obtain post where "snd (create_boot_params w node boot_param_ids tr) = tr @ post" by blast
  then show ?thesis by (auto simp: reset_to_flash_def split_beta Let_def ping_def)
qed

text \<open>
  C10: After its upload, \<open>sps\<close> switches to the programmed slot only if the upload was verified; otherwise it
  pushes no boot parameters to the node after the upload and does not report success.
\<close>

theorem sps_switches_only_after_success:
  assumes "CSP_ERR_TIMEDOUT w < 0" "CSP_ERR_NOBUFS w < 0"
    and "bw_ping w tr (sps_node opts)" "image_get w path = Some img"
  shows "\<exists>post ret. sps_program w opts to vaddr path tr =
      (ret, tr @ [Ping (sps_node opts), Upload (sps_node opts) 10000 vaddr img] @ post) \<and>
    (ret = SLASH_SUCCESS \<longleftrightarrow> image_accepted w (sps_crc32 opts) img (sps_node opts) vaddr (tr @ [Ping (sps_node opts)])) \<and>
    (ret \<noteq> SLASH_SUCCESS \<longrightarrow> \<not> list_ex is_boot_push post)"
proof -
  let ?n = "sps_node opts"
  obtain ret finished tr2 where pi:
    "program_image w ?n vaddr (sps_crc32 opts) img (tr @ [Ping ?n]) = (ret, finished, tr2)"
    using prod_cases3 by blast
  obtain post where post: "tr2 = (tr @ [Ping ?n]) @ [Upload ?n 10000 vaddr img] @ post" "\<not> list_ex is_boot_push post"
    using program_image_trace [OF pi] by blast
  obtain more where more: "reset_to_flash w ?n to 1 (to_int32 (sps_delay opts)) tr2 = tr2 @ more"
    using reset_to_flash_extends by blast
  let ?post = "post @ (if finished \<and> ret = SLASH_SUCCESS then more else []) @ (if finished then [Rdp_reset] else [])"
  have "sps_program w opts to vaddr path tr = (ret, tr @ [Ping ?n, Upload ?n 10000 vaddr img] @ ?post)"
    using assms(3,4) pi post(1) more by (simp add: sps_program_def ping_def)
  moreover have "ret \<noteq> SLASH_SUCCESS \<longrightarrow> \<not> list_ex is_boot_push ?post"
    using post(2) by (simp add: is_boot_push_def)
  ultimately show ?thesis
    using program_image_success [OF pi assms(1,2)] by blast
qed

theorem sps_switches_only_after_success_witness:
  "\<exists>post ret. sps_program demo_boot \<lparr>sps_node = 5, sps_filename = None, sps_delay = 1000, sps_crc32 = False\<rparr> 1 0x400000
      ''a.bin'' [] = (ret, [Ping 5, Upload 5 10000 0x400000 demo_image] @ post)"
proof -
  have "image_get demo_boot ''a.bin'' = Some demo_image" by (simp add: image_get_def)
  then show ?thesis
    using sps_switches_only_after_success [where w = demo_boot and tr = "[]" and path = "''a.bin''" and img = demo_image
      and opts = "\<lparr>sps_node = 5, sps_filename = None, sps_delay = 1000, sps_crc32 = False\<rparr>"
      and to = 1 and vaddr = "0x400000"]
    by auto
qed

text \<open>
  Two inputs the code does not expect: a slot number of three digits is cut to two in the name of the
  memory area, so that \<open>program 123\<close> looks for slot 12; and a file of six bytes that ends with the
  identification marker makes the test of a binary read in front of its data.
\<close>

lemma spaceboot_unexpected_inputs:
  "vmem_name 123 = ''fl12'' \<and>
   is_valid_binary (demo_boot\<lparr>bw_file := \<lambda>p. Some ([0, 0] @ ident_end_magic)\<rparr>) ''a.bin'' demo_bin_info = Inl Out_Of_Bounds"
proof
  show "vmem_name 123 = ''fl12''" by code_simp
  show "is_valid_binary (demo_boot\<lparr>bw_file := \<lambda>p. Some ([0, 0] @ ident_end_magic)\<rparr>) ''a.bin'' demo_bin_info =
      Inl Out_Of_Bounds"
    by (simp add: is_valid_binary_def image_get_def read_ident_def bytes4_def ident_end_magic_def)
qed

end
