(* ===== verification/Apm.thy ===== *)
theory Apm
  imports Walkdir Slash_Base "HOL-Library.Multiset"
begin

text \<open>
  The loading of extension modules (APMs) of \<open>src/slash_apm.c\<close>: directories are searched for libraries,
  each is opened, checked for the version of the interface it was built for and initialised, and kept in a
  list sorted by file name. The dynamic linker is given by what it finds at a path.
\<close>

section \<open>The list of modules\<close>

record apm_entry_t =
  apm_path :: string
  apm_file :: string
  apm_version :: int
  apm_has_info :: bool

text \<open>\<open>strcmp(a, b) > 0\<close>: by the first character that differs, as unsigned bytes.\<close>

fun strcmp_gt :: "string \<Rightarrow> string \<Rightarrow> bool" where
  "strcmp_gt [] b = False"
| "strcmp_gt (x # a) [] = True"
| "strcmp_gt (x # a) (y # b) = (if x = y then strcmp_gt a b else code x > code y)"

text \<open>The insertion walk: the new entry passes every entry whose file name is smaller.\<close>

fun apm_queue_add :: "apm_entry_t \<Rightarrow> apm_entry_t list \<Rightarrow> apm_entry_t list" where
  "apm_queue_add e [] = [e]"
| "apm_queue_add e (n # rest) =
     (if strcmp_gt (apm_file e) (apm_file n) then n # apm_queue_add e rest else e # n # rest)"

text \<open>A library: its version symbol (\<open>None\<close> if it has none), what its \<open>libmain\<close> returns (\<open>None\<close> if it has
  none), and whether it has an information function.\<close>

record apm_lib =
  lib_version :: "int option"
  lib_main :: "int option"
  lib_has_info :: bool

abbreviation WALKDIR_MAX_ENTRIES :: nat where "WALKDIR_MAX_ENTRIES \<equiv> 32"
abbreviation WALKDIR_MAX_PATH_SIZE :: nat where "WALKDIR_MAX_PATH_SIZE \<equiv> 256"

text \<open>The file name of a path: what is behind the last slash.\<close>

definition base_name :: "string \<Rightarrow> string" where
  "base_name path = rev (takeWhile (\<lambda>c. c \<noteq> CHR ''/'') (rev path))"

text \<open>\<open>None\<close> if the library cannot be opened; the version symbol is read without a check.\<close>

definition load_apm :: "(string \<Rightarrow> apm_lib option) \<Rightarrow> string \<Rightarrow> (apm_entry_t \<times> apm_lib) option c_result" where
  "load_apm dl path =
     (case dl path of
        None \<Rightarrow> Inr None
      | Some lib \<Rightarrow>
          (case lib_version lib of
             None \<Rightarrow> Inl Null_Deref
           | Some v \<Rightarrow>
               (let p = take (WALKDIR_MAX_PATH_SIZE - 1) path
                in Inr (Some (\<lparr>apm_path = p, apm_file = base_name p, apm_version = v,
                               apm_has_info = lib_has_info lib\<rparr>, lib)))))"

text \<open>The result of \<open>initialize_apm\<close>: refused (-1), loaded (0), or the process has exited.\<close>

datatype init_result = Refused | Loaded | Exited

definition initialize_apm :: "int \<Rightarrow> apm_lib \<Rightarrow> init_result" where
  "initialize_apm apm_init_version lib =
     (case lib_version lib of
        None \<Rightarrow> Refused
      | Some v \<Rightarrow>
          if apm_init_version \<noteq> v \<and> \<not> (apm_init_version = 9 \<and> v = 8) then Refused
          else
            (let res = (case lib_main lib of None \<Rightarrow> 1 | Some r \<Rightarrow> r)
             in if res \<noteq> 0 then Exited else Loaded))"

section \<open>The search\<close>

record lib_search_t =
  search_path :: "string option"
  search_str :: "string option"
  libs :: "string list"

text \<open>\<open>libs\<close> holds the paths of the libraries found, the first \<open>lib_count\<close> elements of the array.\<close>

definition apm_file_callback :: "apm_entry_t list \<Rightarrow> string \<Rightarrow> string \<Rightarrow> lib_search_t \<Rightarrow> lib_search_t" where
  "apm_file_callback queue path_and_file last_entry search =
     (if length (libs search) \<ge> WALKDIR_MAX_ENTRIES then search
      else if (case search_str search of None \<Rightarrow> False | Some s \<Rightarrow> strstr last_entry s = None) then search
      else if strstr last_entry ''libcsh_'' = None then search
      else if strstr last_entry ''.so'' = None then search
      else
        (let path = take (WALKDIR_MAX_PATH_SIZE - 1) path_and_file in
         if find (\<lambda>e. apm_file e = last_entry) queue \<noteq> None then search
         else if find (\<lambda>p. base_name p = last_entry) (libs search) \<noteq> None then search
         else search\<lparr>libs := libs search @ [path]\<rparr>))"

definition apm_dir_callback :: "string \<Rightarrow> string \<Rightarrow> lib_search_t \<Rightarrow> bool" where
  "apm_dir_callback path_and_file last_entry custom = True"

text \<open>
  The directories of the list, separated by semicolons, are copied one after the other into the same
  buffer; all but the last without a terminator. \<open>leftover\<close> is what the walk leaves behind the terminator
  of the path it was given.
\<close>

function build_apm_list ::
  "lib_search_t walk_env \<Rightarrow> (char list \<Rightarrow> char list) \<Rightarrow> char list \<Rightarrow> string \<Rightarrow> lib_search_t \<Rightarrow> lib_search_t c_result"
where
  "build_apm_list env leftover wpath path search =
     (if path = [] then Inr search
      else
        (let split = strchr path CHR '';'';
             dir = takeWhile (\<lambda>c. c \<noteq> CHR '';'') path
         in case write_at wpath 0 (if split \<noteq> None then dir else path @ [NUL]) of
              Inl f \<Rightarrow> Inl f
            | Inr wpath \<Rightarrow>
                if NUL \<notin> set wpath then Inl Out_Of_Bounds
                else
                  (case walkdir env 1 (c_string wpath) search of
                     Inl f \<Rightarrow> Inl f
                   | Inr search \<Rightarrow>
                       if split = None then Inr search
                       else build_apm_list env leftover (leftover wpath)
                              (drop 1 (dropWhile (\<lambda>c. c \<noteq> CHR '';'') path)) search)))"
  by pat_completeness auto
termination
proof (relation "measure (\<lambda>(env, l, w, path, s). length path)", goal_cases)
  case (2 env leftover wpath path search split dir w b)
  then have "path \<noteq> []" by simp
  then show ?case
    using length_dropWhile_le [of "\<lambda>c. c \<noteq> CHR '';''" path] by (cases path) auto
qed simp

declare build_apm_list.simps [simp del]

section \<open>Loading\<close>

text \<open>The libraries found, in the order in which they were found. \<open>None\<close> as the code stands for the end of
  the process.\<close>

fun load_libs ::
  "int \<Rightarrow> (string \<Rightarrow> apm_lib option) \<Rightarrow> string list \<Rightarrow> apm_entry_t list \<Rightarrow> (slash_ret option \<times> apm_entry_t list) c_result"
where
  "load_libs version dl [] queue = Inr (Some SLASH_SUCCESS, queue)"
| "load_libs version dl (path # paths) queue =
     (case load_apm dl path of
        Inl f \<Rightarrow> Inl f
      | Inr None \<Rightarrow> Inr (Some SLASH_EUSAGE, queue)
      | Inr (Some (e, lib)) \<Rightarrow>
          (case initialize_apm version lib of
             Exited \<Rightarrow> Inr (None, queue)
           | Refused \<Rightarrow> load_libs version dl paths queue
           | Loaded \<Rightarrow> load_libs version dl paths (apm_queue_add e queue)))"

text \<open>
  The search path: the one given, or the directory below the home directory, the directory of the
  executable and the system directory. \<open>home\<close> is the home directory and \<open>exe_dir\<close> the directory of the
  executable, \<open>None\<close> when they cannot be found.
\<close>

definition strncat_path :: "string \<Rightarrow> string \<Rightarrow> string c_result" where
  "strncat_path path s = strncat WALKDIR_MAX_PATH_SIZE path s (WALKDIR_MAX_PATH_SIZE - length path)"

fun strncat_all :: "string \<Rightarrow> string list \<Rightarrow> string c_result" where
  "strncat_all path [] = Inr path"
| "strncat_all path (s # ss) = (case strncat_path path s of Inl f \<Rightarrow> Inl f | Inr path \<Rightarrow> strncat_all path ss)"

definition default_search_path :: "string option \<Rightarrow> string option \<Rightarrow> (slash_ret + string) c_result" where
  "default_search_path home exe_dir =
     (case home of
        None \<Rightarrow> Inr (Inl SLASH_EINVAL)
      | Some p \<Rightarrow>
          (case strncat_path (take (WALKDIR_MAX_PATH_SIZE - 1) p) ''/.local/lib/csh'' of
             Inl f \<Rightarrow> Inl f
           | Inr path \<Rightarrow>
               (case exe_dir of
                  None \<Rightarrow> Inr (Inl SLASH_EUSAGE)
                | Some dir \<Rightarrow>
                    (case strncat_all path ['';'', dir, '';'', ''/usr/lib/csh''] of
                       Inl f \<Rightarrow> Inl f
                     | Inr path \<Rightarrow> Inr (Inr path)))))"

definition apm_load_search ::
  "int \<Rightarrow> (string \<Rightarrow> apm_lib option) \<Rightarrow> lib_search_t walk_env \<Rightarrow> (char list \<Rightarrow> char list) \<Rightarrow> string option
     \<Rightarrow> string option \<Rightarrow> lib_search_t \<Rightarrow> apm_entry_t list \<Rightarrow> (slash_ret option \<times> apm_entry_t list) c_result"
where
  "apm_load_search version dl env leftover home exe_dir search queue =
     (case (case search_path search of Some p \<Rightarrow> Inr (Inr p) | None \<Rightarrow> default_search_path home exe_dir) of
        Inl f \<Rightarrow> Inl f
      | Inr (Inl ret) \<Rightarrow> Inr (Some ret, queue)
      | Inr (Inr path) \<Rightarrow>
          (case build_apm_list
                  (env\<lparr>path_size := WALKDIR_MAX_PATH_SIZE - 10, path_cap := WALKDIR_MAX_PATH_SIZE,
                       dir_cb := apm_dir_callback,
                       file_cb := \<lambda>p name st. Inr (apm_file_callback queue p name st),
                       interrupted := \<lambda>st. False\<rparr>)
                  leftover (replicate WALKDIR_MAX_PATH_SIZE NUL) path (search\<lparr>libs := []\<rparr>) of
             Inl f \<Rightarrow> Inl f
           | Inr search \<Rightarrow> load_libs version dl (libs search) queue))"

record load_opts =
  load_path :: "string option"
  load_file :: "string option"

text \<open>\<open>apm info\<close> lists the entries whose file name contains the search string.\<close>

record info_opts =
  info_search :: "string option"

definition apm_info_cmd ::
  "info_opts optparse \<Rightarrow> apm_entry_t list \<Rightarrow> string list \<Rightarrow> slash_ret \<times> apm_entry_t list" where
  "apm_info_cmd parser queue argv =
     (let (argi, opts) = optparse_parse parser \<lparr>info_search = None\<rparr> argv
      in if argi < 0 then (SLASH_EINVAL, [])
         else
           (let search_str = (case info_search opts of
                                Some s \<Rightarrow> Some s
                              | None \<Rightarrow> if argi + 1 < argc argv then Some (nth_arg argv (argi + 1)) else None)
            in (SLASH_SUCCESS,
                filter (\<lambda>e. case search_str of None \<Rightarrow> True | Some s \<Rightarrow> strstr (apm_file e) s \<noteq> None) queue)))"

section \<open>Properties\<close>

lemma strcmp_gt_irrefl [simp]: "\<not> strcmp_gt a a"
  by (induction a) auto

lemma code_inj: "code x = code y \<longleftrightarrow> x = y"
  by (simp add: code_def)

lemma strcmp_gt_asym: "strcmp_gt a b \<Longrightarrow> \<not> strcmp_gt b a"
  by (induction a b rule: strcmp_gt.induct) (auto split: if_splits)

lemma strcmp_ge_trans: "\<not> strcmp_gt a b \<Longrightarrow> \<not> strcmp_gt b c \<Longrightarrow> \<not> strcmp_gt a c"
proof (induction a c arbitrary: b rule: strcmp_gt.induct)
  case (2 x a)
  then show ?case by (cases b) auto
next
  case (3 x a y c)
  then show ?case
    by (cases b) (auto split: if_splits simp: not_less dest: order_trans simp flip: code_inj)
qed simp

definition apm_sorted :: "apm_entry_t list \<Rightarrow> bool" where
  "apm_sorted queue \<longleftrightarrow> sorted_wrt (\<lambda>a b. \<not> strcmp_gt (apm_file a) (apm_file b)) queue"

lemma mset_apm_queue_add [simp]: "mset (apm_queue_add e queue) = add_mset e (mset queue)"
  by (induction queue) auto

lemma set_apm_queue_add [simp]: "set (apm_queue_add e queue) = insert e (set queue)"
  by (induction queue) auto

lemma apm_queue_add_sorted: "apm_sorted queue \<Longrightarrow> apm_sorted (apm_queue_add e queue)"
proof (induction queue)
  case (Cons n rest)
  then show ?case
    using strcmp_gt_asym [of "apm_file e" "apm_file n"] strcmp_ge_trans [of "apm_file e" "apm_file n"]
    by (auto simp: apm_sorted_def)
qed (simp add: apm_sorted_def)

text \<open>An entry of a library that the linker found, that was built for the version of the shell (or for 8, for a shell of version
  9), and whose \<open>libmain\<close> returned 0.\<close>

definition library_entry :: "int \<Rightarrow> (string \<Rightarrow> apm_lib option) \<Rightarrow> apm_entry_t \<Rightarrow> bool" where
  "library_entry version dl e \<longleftrightarrow>
     (\<exists>p lib. dl p = Some lib \<and> lib_version lib = Some (apm_version e) \<and>
        (apm_version e = version \<or> version = 9 \<and> apm_version e = 8) \<and> lib_main lib = Some 0 \<and>
        apm_path e = take (WALKDIR_MAX_PATH_SIZE - 1) p \<and> apm_file e = base_name (apm_path e))"

lemma load_libs_sorted:
  assumes "apm_sorted queue" "load_libs version dl paths queue = Inr (ret, queue')"
  shows "apm_sorted queue' \<and> (\<exists>new. mset queue' = mset queue + mset new \<and> (\<forall>e \<in> set new. library_entry version dl e))"
  using assms
proof (induction paths arbitrary: queue)
  case Nil
  then show ?case by (auto intro: exI [of _ "[]"])
next
  case (Cons p paths)
  have stop: "queue' = queue \<Longrightarrow> ?case" using Cons.prems(1) by (auto intro: exI [of _ "[]"])
  show ?case
  proof (cases "dl p")
    case None
    then show ?thesis using Cons.prems by (intro stop) (simp add: load_apm_def)
  next
    case (Some lib)
    with Cons.prems(2) obtain v where v: "lib_version lib = Some v"
      by (cases "lib_version lib") (auto simp: load_apm_def)
    let ?e = "\<lparr>apm_path = take (WALKDIR_MAX_PATH_SIZE - 1) p, apm_file = base_name (take (WALKDIR_MAX_PATH_SIZE - 1) p),
      apm_version = v, apm_has_info = lib_has_info lib\<rparr>"
    have l: "load_apm dl p = Inr (Some (?e, lib))" using Some v by (simp add: load_apm_def Let_def)
    show ?thesis
    proof (cases "initialize_apm version lib")
      case Refused
      then show ?thesis using Cons l by simp
    next
      case Exited
      then show ?thesis using Cons.prems l by (intro stop) simp
    next
      case Loaded
      then have e: "library_entry version dl ?e"
        using v Some by (auto simp: library_entry_def initialize_apm_def Let_def split: if_splits option.splits)
      have "load_libs version dl paths (apm_queue_add ?e queue) = Inr (ret, queue')"
        using Cons.prems(2) l Loaded by simp
      from Cons.IH [OF apm_queue_add_sorted [OF Cons.prems(1)] this] obtain new where
        "apm_sorted queue'" "mset queue' = mset queue + mset (?e # new)" "\<forall>e \<in> set new. library_entry version dl e"
        by auto
      then show ?thesis using e by (intro conjI exI [of _ "?e # new"]) simp_all
    qed
  qed
qed

lemma load_search_sorted:
  assumes "apm_sorted queue" "apm_load_search version dl env leftover home exe_dir search queue = Inr (ret, queue')"
  shows "apm_sorted queue' \<and> (\<exists>new. mset queue' = mset queue + mset new \<and> (\<forall>e \<in> set new. library_entry version dl e))"
proof -
  have "queue' = queue \<or> (\<exists>paths ret. load_libs version dl paths queue = Inr (ret, queue'))"
    using assms(2) by (auto simp: apm_load_search_def split: if_splits sum.splits)
  then show ?thesis
  proof
    assume "queue' = queue"
    then show ?thesis using assms(1) by (auto intro: exI [of _ "[]"])
  next
    assume "\<exists>paths ret. load_libs version dl paths queue = Inr (ret, queue')"
    then obtain paths ret where "load_libs version dl paths queue = Inr (ret, queue')" by blast
    from load_libs_sorted [OF assms(1) this] show ?thesis .
  qed
qed

text \<open>A file system with one directory that holds one library, and the linker that opens it.\<close>

definition demo_walk :: "lib_search_t walk_env" where
  "demo_walk = \<lparr>fs_readdir = (\<lambda>p. if p = ''/x'' then Some [''libcsh_b.so'', ''notes''] else None),
     fs_notdir = (\<lambda>p. False), fs_lstat = (\<lambda>p. Regular), path_size = 0, path_cap = 0,
     dir_cb = apm_dir_callback, file_cb = (\<lambda>p name st. Inr st), interrupted = (\<lambda>st. False)\<rparr>"

definition demo_linker :: "string \<Rightarrow> apm_lib option" where
  "demo_linker p = (if p = ''/x/libcsh_b.so'' then Some \<lparr>lib_version = Some 8, lib_main = Some 0, lib_has_info = False\<rparr> else None)"

abbreviation demo_load :: "load_opts optparse" where
  "demo_load \<equiv> \<lambda>opts argv. (1, \<lparr>load_path = Some ''/x'', load_file = None\<rparr>)"

abbreviation demo_module :: apm_entry_t where
  "demo_module \<equiv> \<lparr>apm_path = ''/x/libcsh_b.so'', apm_file = ''libcsh_b.so'', apm_version = 8, apm_has_info = False\<rparr>"

lemma build_apm_list_step:
  assumes "d \<noteq> []" "CHR '';'' \<notin> set d" "length d \<le> length wpath" "NUL \<in> set (d @ drop (length d) wpath)"
  shows "build_apm_list env leftover wpath (d @ '';'' @ rest) search =
    (case walkdir env 1 (c_string (d @ drop (length d) wpath)) search of
       Inl f \<Rightarrow> Inl f
     | Inr search \<Rightarrow> build_apm_list env leftover (leftover (d @ drop (length d) wpath)) rest search)"
proof -
  have t: "takeWhile (\<lambda>c. c \<noteq> CHR '';'') (d @ '';'' @ rest) = d"
    and d: "dropWhile (\<lambda>c. c \<noteq> CHR '';'') (d @ CHR '';'' # rest) = CHR '';'' # rest"
    using assms(2) by (induction d) auto
  show ?thesis
    unfolding build_apm_list.simps [of _ _ _ "d @ '';'' @ rest"] Let_def t
    using assms d by (auto simp: write_at_def strchr_def split: sum.splits)
qed

text \<open>
  Of the directories of a search path only the first is searched under its own name: a shorter one
  after it is copied over the previous name without a terminator, and the walk goes to the path that has the
  rest of the longer name behind it.
\<close>

theorem apm_directories_run_together:
  assumes "dir \<noteq> []" "nul_free dir" "CHR '';'' \<notin> set dir" "shorter \<noteq> []" "nul_free shorter" "CHR '';'' \<notin> set shorter"
    and "length shorter \<le> length dir" "length dir < length wpath" "wpath = replicate n NUL"
    and "\<And>w. NUL \<in> set w \<Longrightarrow> NUL \<in> set (leftover w) \<and> length (leftover w) = length w \<and> c_string (leftover w) = c_string w"
    and "walkdir env 1 dir search = Inr search1"
  shows "\<exists>wpath2. build_apm_list env leftover wpath (dir @ '';'' @ shorter @ '';'' @ rest) search =
    (case walkdir env 1 (shorter @ drop (length shorter) dir) search1 of
       Inl f \<Rightarrow> Inl f
     | Inr search2 \<Rightarrow> build_apm_list env leftover wpath2 rest search2)"
proof -
  have n: "length dir < n" using assms(8,9) by simp
  let ?w1 = "dir @ drop (length dir) wpath"
  have w1: "?w1 = dir @ NUL # replicate (n - Suc (length dir)) NUL"
    using n assms(9) by (cases "n - length dir") (auto simp: Suc_diff_Suc)
  have c1: "c_string ?w1 = dir"
    unfolding w1 by (rule c_string_NUL [OF assms(2)])
  have n1: "NUL \<in> set ?w1" unfolding w1 by simp
  have len: "length (leftover ?w1) = length ?w1" and cl: "c_string (leftover ?w1) = dir"
    using assms(10) [OF n1] c1 by auto
  have nl: "NUL \<in> set (leftover ?w1)" using assms(10) [OF n1] by blast
  obtain r where r: "leftover ?w1 = dir @ NUL # r"
    using c_string_decomp [OF nl] cl by auto
  have c2: "c_string (shorter @ drop (length shorter) (leftover ?w1)) = shorter @ drop (length shorter) dir"
    unfolding r using assms(2,5,7) nul_free_drop [of dir "length shorter"]
      c_string_NUL [of "shorter @ drop (length shorter) dir" r] by simp
  have l2: "length shorter \<le> length (leftover ?w1)" using len assms(7,8) by simp
  have n2: "NUL \<in> set (shorter @ drop (length shorter) (leftover ?w1))" using r assms(7) by simp
  show ?thesis
    unfolding build_apm_list_step [OF assms(1,3) less_imp_le [OF assms(8)] n1] c1 assms(11) sum.case
      build_apm_list_step [OF assms(4,6) l2 n2] c2 by blast
qed

theorem apm_directories_run_together_witness:
  "\<exists>wpath2. build_apm_list demo_walk id (replicate 256 NUL) (''/ab'' @ '';'' @ ''/c'' @ '';'' @ ''/d'')
      \<lparr>search_path = None, search_str = None, libs = []\<rparr> =
    (case walkdir demo_walk 1 ''/cb'' \<lparr>search_path = None, search_str = None, libs = []\<rparr> of
       Inl f \<Rightarrow> Inl f
     | Inr search2 \<Rightarrow> build_apm_list demo_walk id wpath2 ''/d'' search2)"
proof -
  have w: "walkdir demo_walk 1 ''/ab'' \<lparr>search_path = None, search_str = None, libs = []\<rparr> =
      Inr \<lparr>search_path = None, search_str = None, libs = []\<rparr>"
    by code_simp
  show ?thesis
    using apm_directories_run_together [where dir = "''/ab''" and shorter = "''/c''" and rest = "''/d''"
        and wpath = "replicate 256 NUL" and n = 256 and leftover = id, OF _ _ _ _ _ _ _ _ _ _ w] by simp
qed

end
