(* ===== verification/Hk_Sniffer.thy ===== *)
theory Hk_Sniffer
  imports Known_Hosts Param_Parse Slash_Base
begin

text \<open>
  Housekeeping packets: \<open>src/hk_param_sniffer.c\<close> and the packet check of \<open>src/param_sniffer.c\<close>. The module
  keeps the epoch of each housekeeping node, to which the timestamps of its packets are relative, and the
  parameters that carry UTC time. Each table is an array of 16 elements and a count; the model is the list of
  the first \<open>count\<close> elements. Deserialising (libparam and mpack) is an argument: the items that successive
  calls return until the reader is at its end.
\<close>

abbreviation MAX_HKS :: nat where "MAX_HKS \<equiv> 16"

text \<open>1 January 2020, below which a timestamp is no UTC time.\<close>

abbreviation UTC_2020 :: int where "UTC_2020 \<equiv> 1577836800"

definition to_uint16 :: "int \<Rightarrow> int" where
  "to_uint16 x = uint (word_of_int x :: 16 word)"

lemma to_uint16_eq: "to_uint16 x = x mod 65536"
  by (simp add: to_uint16_def uint_word_of_int)

lemma to_uint16_id [c_int_simps]: "0 \<le> x \<Longrightarrow> x < 65536 \<Longrightarrow> to_uint16 x = x"
  by (simp add: to_uint16_eq)

lemma to_uint16_bounds: "0 \<le> to_uint16 x" "to_uint16 x < 65536"
  by (simp_all add: to_uint16_eq)

text \<open>Nodes with their epochs, and nodes with the identifier of their time parameter.\<close>

record hk_state =
  hks :: "(int \<times> int) list"
  timesync_nodes :: "(int \<times> int) list"

text \<open>The update of the first element with a given node.\<close>

fun update_node :: "int \<Rightarrow> int \<times> int \<Rightarrow> (int \<times> int) list \<Rightarrow> (int \<times> int) list" where
  "update_node node e [] = []"
| "update_node node e (x # xs) = (if fst x = node then e # xs else x # update_node node e xs)"

section \<open>The tables\<close>

definition hk_set_utcparam :: "hk_state \<Rightarrow> int \<Rightarrow> int \<Rightarrow> hk_state" where
  "hk_set_utcparam st node paramid =
     (let entry = (to_uint16 node, to_uint16 paramid) in
      if find (\<lambda>e. fst e = node) (timesync_nodes st) \<noteq> None
      then st\<lparr>timesync_nodes := update_node node entry (timesync_nodes st)\<rparr>
      else if length (timesync_nodes st) \<ge> MAX_HKS then st
      else st\<lparr>timesync_nodes := timesync_nodes st @ [entry]\<rparr>)"

definition hk_set_epoch :: "int \<Rightarrow> hk_state \<Rightarrow> int \<Rightarrow> int \<Rightarrow> bool \<Rightarrow> hk_state" where
  "hk_set_epoch current_epoch st epoch node auto_sync =
     (if epoch > current_epoch \<or> epoch < UTC_2020 then st
      else
        (case find (\<lambda>e. fst e = node) (hks st) of
           Some e \<Rightarrow>
             if auto_sync \<and> snd e - epoch > 86400 then st
             else st\<lparr>hks := update_node node (node, epoch) (hks st)\<rparr>
         | None \<Rightarrow>
             if length (hks st) \<ge> MAX_HKS then st
             else st\<lparr>hks := hks st @ [(node, epoch)]\<rparr>))"

definition hk_get_epoch :: "hk_state \<Rightarrow> int \<Rightarrow> int option" where
  "hk_get_epoch st node = map_option snd (find (\<lambda>e. node = fst e) (hks st))"

section \<open>The commands\<close>

text \<open>
  The reference to a parameter may start with a node and a colon; a colon at the very start is taken as a part
  of the name. The index the option parser returns is not checked, only that there is an argument at all.
\<close>

definition hk_utcparam ::
  "unit optparse \<Rightarrow> hosts_state \<Rightarrow> param_finder \<Rightarrow> slash_defaults \<Rightarrow> hk_state \<Rightarrow> string list
     \<Rightarrow> (slash_ret \<times> hk_state) c_result"
where
  "hk_utcparam parser hosts finder dfl st argv =
     (let (argi, u) = optparse_parse parser () argv in
      if argc argv < 2 then Inr (SLASH_EINVAL, st)
      else if argi + 1 < 0 \<or> argi + 1 > argc argv then Inl Out_Of_Bounds
      else if argi + 1 = argc argv then Inl Null_Deref
      else
        (let arg = nth_arg argv (argi + 1);
             front = takeWhile (\<lambda>c. c \<noteq> CHR '':'') arg;
             behind = drop 1 (dropWhile (\<lambda>c. c \<noteq> CHR '':'') arg);
             (resolved, node, name) =
               (if CHR '':'' \<in> set arg \<and> front \<noteq> [] then
                  (case get_host_by_addr_or_name hosts front of
                     (r, Some n) \<Rightarrow> (0 < r, to_uint32 n, behind)
                   | (r, None) \<Rightarrow> (0 < r, slash_dfl_node dfl, behind))
                else (True, slash_dfl_node dfl, arg))
         in if \<not> resolved then Inr (SLASH_EINVAL, st)
            else
              (case param_list_find_name finder (to_int32 node) name of
                 None \<Rightarrow> Inr (SLASH_EINVAL, st)
               | Some utcparam \<Rightarrow> Inr (SLASH_SUCCESS, hk_set_utcparam st node (param_id utcparam)))))"

record timeoffset_opts =
  offset_node :: int

text \<open>The epochs printed are the last component.\<close>

definition hk_timeoffset ::
  "timeoffset_opts optparse \<Rightarrow> int \<Rightarrow> slash_defaults \<Rightarrow> hk_state \<Rightarrow> string list \<Rightarrow> slash_ret \<times> hk_state \<times> int list"
where
  "hk_timeoffset parser current_epoch dfl st argv =
     (let (argi, opts) = optparse_parse parser \<lparr>offset_node = slash_dfl_node dfl\<rparr> argv in
      if argi < 0 then (SLASH_EINVAL, st, [])
      else
        (let time_offset = (if argi + 1 < argc argv then atoi (nth_arg argv (argi + 1)) else 0) in
         if time_offset > 0
         then (SLASH_SUCCESS, hk_set_epoch current_epoch st time_offset (to_uint16 (offset_node opts)) False, [])
         else (SLASH_SUCCESS, st, map snd (filter (\<lambda>e. fst e = offset_node opts) (hks st)))))"

section \<open>Packets\<close>

record csp_packet =
  packet_src :: int
  packet_dst :: int
  packet_sport :: int
  packet_dport :: int
  packet_crc32 :: bool
  packet_rdp :: bool
  packet_length :: nat

text \<open>\<open>csp_crc32_verify\<close> of the CSP library returns 0 when the checksum is right, and takes it off the packet.\<close>

definition param_sniffer_crc ::
  "(csp_packet \<Rightarrow> int \<times> csp_packet) \<Rightarrow> csp_packet \<Rightarrow> int \<times> csp_packet" where
  "param_sniffer_crc csp_crc32_verify packet =
     (if packet_crc32 packet then
        if packet_length packet < 4 then (- 1, packet)
        else
          (let (r, packet) = csp_crc32_verify packet in if r \<noteq> 0 then (- 1, packet) else (0, packet))
      else (0, packet))"

text \<open>What a call of \<open>param_deserialize_id\<close> returns, and the number in the tag of the value behind it.\<close>

record hk_item =
  item_id :: int
  item_node :: int
  item_tv_sec :: int
  item_offset :: int
  item_tag :: int

text \<open>The length of the data behind the header, in wrapping \<open>size_t\<close> arithmetic.\<close>

definition hk_data_len :: "csp_packet \<Rightarrow> nat" where
  "hk_data_len packet = size_minus (size_minus (packet_length packet) 5) (if packet_rdp packet then 5 else 0)"

text \<open>The epoch that the packet itself gives when an item is a time parameter, \<open>None\<close> if it is not.\<close>

definition synced_epoch :: "hk_state \<Rightarrow> int \<Rightarrow> param_t \<Rightarrow> hk_item \<Rightarrow> int option" where
  "synced_epoch st node param item =
     (if (node, param_id param) \<in> set (timesync_nodes st) then Some (item_tag item - item_tv_sec item) else None)"

text \<open>
  The loop over the items. \<open>src\<close> is the sender; what is logged is the parameter, the offset and the
  timestamp, an unsigned 32-bit number (the code also leaves it in the parameter). The code uses -1 for an
  epoch that is not known.
\<close>

fun hk_items ::
  "(int \<Rightarrow> int \<Rightarrow> param_t option) \<Rightarrow> int \<Rightarrow> int \<Rightarrow> hk_item list \<Rightarrow> hk_state \<Rightarrow> hk_state \<times> (param_t \<times> int \<times> int) list"
where
  "hk_items find_id current_epoch src [] st = (st, [])"
| "hk_items find_id current_epoch src (item # items) st =
     (let node = (if item_node item = 0 then src else item_node item) in
      case find_id node (item_id item) of
        None \<Rightarrow> hk_items find_id current_epoch src items st
      | Some param \<Rightarrow>
          if item_tv_sec item = 0 then (st, [])
          else if item_tv_sec item < UTC_2020 then
            (let synced = synced_epoch st node param item;
                 st = (case synced of None \<Rightarrow> st | Some e \<Rightarrow> hk_set_epoch current_epoch st e src True);
                 local_epoch = (case synced of
                     Some e \<Rightarrow> if e = - 1 then hk_get_epoch st src else Some e
                   | None \<Rightarrow> hk_get_epoch st src)
             in case local_epoch of
                  None \<Rightarrow> hk_items find_id current_epoch src items st
                | Some e \<Rightarrow>
                    (let (st, logged) = hk_items find_id current_epoch src items st
                     in (st, (param, item_offset item, to_uint32 (item_tv_sec item + e)) # logged)))
          else
            (let (st, logged) = hk_items find_id current_epoch src items st
             in (st, (param, item_offset item, item_tv_sec item) # logged)))"

text \<open>The result is whether the packet was a housekeeping packet. \<open>items\<close> is what the reader finds in the data
  of a given length. In a packet shorter than its header the wrapped length makes the reader run out of the packet.\<close>

definition hk_param_sniffer ::
  "(csp_packet \<Rightarrow> int \<times> csp_packet) \<Rightarrow> (int \<Rightarrow> int \<Rightarrow> param_t option) \<Rightarrow> int \<Rightarrow> (nat \<Rightarrow> hk_item list) \<Rightarrow> csp_packet
     \<Rightarrow> hk_state \<Rightarrow> (bool \<times> hk_state \<times> (param_t \<times> int \<times> int) list) c_result"
where
  "hk_param_sniffer csp_crc32_verify find_id current_epoch items packet st =
     (if packet_sport packet \<noteq> 13 then Inr (False, st, [])
      else
        (let (r, packet) = param_sniffer_crc csp_crc32_verify packet in
         if r < 0 then Inr (False, st, [])
         else if hk_data_len packet > packet_length packet then Inl Out_Of_Bounds
         else Inr (True, hk_items find_id current_epoch (packet_src packet) (items (hk_data_len packet)) st)))"

section \<open>Properties\<close>

subsection \<open>The tables are maps of bounded size\<close>

lemma update_node_fst [simp]: "map fst (update_node n (n, v) xs) = map fst xs"
  by (induction xs) auto

lemma length_update_node [simp]: "length (update_node n e xs) = length xs"
  by (induction xs) auto

lemma set_update_node: "set (update_node n e xs) \<subseteq> insert e (set xs)"
  by (induction xs) auto

lemma map_of_update_node: "map_of (update_node n (n, v) xs) = (if n \<in> fst ` set xs then (map_of xs)(n \<mapsto> v) else map_of xs)"
  by (induction xs) (auto simp: fun_eq_iff)

lemma find_fst_None: "find (\<lambda>e. fst e = n) xs = None \<longleftrightarrow> n \<notin> fst ` set xs"
  by (force simp: find_None_iff)

lemma hk_get_epoch_map_of: "hk_get_epoch st n = map_of (hks st) n"
proof -
  have "(\<lambda>e. n = fst e) = (\<lambda>e :: int \<times> int. fst e = n)" by auto
  then show ?thesis by (simp add: hk_get_epoch_def find_map_fst)
qed

lemma find_fst_Some: "find (\<lambda>e. fst e = n) xs = Some x \<Longrightarrow> map_of xs n = Some (snd x) \<and> n \<in> fst ` set xs"
  by (induction xs) (auto split: if_splits)

definition table_inv :: "(int \<times> int) list \<Rightarrow> bool" where
  "table_inv xs \<longleftrightarrow> distinct (map fst xs) \<and> length xs \<le> MAX_HKS \<and> (\<forall>e \<in> set xs. 0 \<le> fst e \<and> fst e < 65536)"

definition hk_inv :: "int \<Rightarrow> hk_state \<Rightarrow> bool" where
  "hk_inv now st \<longleftrightarrow> table_inv (hks st) \<and> table_inv (timesync_nodes st) \<and>
     (\<forall>e \<in> set (hks st). UTC_2020 \<le> snd e \<and> snd e \<le> now)"

lemma table_inv_update:
  assumes "table_inv xs" "0 \<le> n" "n < 65536"
  shows "table_inv (update_node n (n, v) xs)"
  using assms set_update_node [of n "(n, v)" xs] by (auto simp: table_inv_def)

lemma table_inv_snoc:
  assumes "table_inv xs" "0 \<le> n" "n < 65536" "n \<notin> fst ` set xs" "length xs < MAX_HKS"
  shows "table_inv (xs @ [(n, v)])"
  using assms by (auto simp: table_inv_def)

lemma hk_set_epoch_inv:
  assumes "hk_inv now st" "current_epoch \<le> now" "0 \<le> n" "n < 65536"
  shows "hk_inv now (hk_set_epoch current_epoch st epoch n auto_sync)"
proof (cases "find (\<lambda>e. fst e = n) (hks st)")
  case None
  then have "n \<notin> fst ` set (hks st)" by (simp add: find_fst_None)
  then show ?thesis
    using None assms by (auto simp: hk_set_epoch_def hk_inv_def intro!: table_inv_snoc)
next
  case (Some e)
  then show ?thesis
    using assms set_update_node [of n "(n, epoch)" "hks st"]
    by (auto simp: hk_set_epoch_def hk_inv_def intro: table_inv_update)
qed

lemma hk_set_utcparam_inv:
  assumes "hk_inv now st" "0 \<le> n" "n < 65536"
  shows "hk_inv now (hk_set_utcparam st n paramid)"
proof (cases "find (\<lambda>e. fst e = n) (timesync_nodes st)")
  case None
  then have "n \<notin> fst ` set (timesync_nodes st)" by (simp add: find_fst_None)
  then show ?thesis
    using None assms by (auto simp: hk_set_utcparam_def hk_inv_def to_uint16_id Let_def intro!: table_inv_snoc)
next
  case (Some e)
  then show ?thesis
    using assms by (auto simp: hk_set_utcparam_def hk_inv_def to_uint16_id Let_def intro!: table_inv_update)
qed

lemma hk_items_inv:
  assumes "hk_inv now st" "current_epoch \<le> now" "0 \<le> src" "src < 65536"
  shows "hk_inv now (fst (hk_items find_id current_epoch src items st))"
  using assms(1)
proof (induction items arbitrary: st)
  case (Cons item items)
  have "hk_inv now (hk_set_epoch current_epoch st e src True)" for e
    using Cons.prems assms(2-4) by (rule hk_set_epoch_inv)
  then show ?case
    using Cons by (auto simp: Let_def split_beta split: option.split)
qed simp

datatype hk_op = Set_epoch int int int bool | Set_utcparam int int | Hk_packet int int "hk_item list"

fun hk_step :: "(int \<Rightarrow> int \<Rightarrow> param_t option) \<Rightarrow> hk_state \<Rightarrow> hk_op \<Rightarrow> hk_state" where
  "hk_step find_id st (Set_epoch current_epoch epoch n auto_sync) = hk_set_epoch current_epoch st epoch n auto_sync"
| "hk_step find_id st (Set_utcparam n paramid) = hk_set_utcparam st n paramid"
| "hk_step find_id st (Hk_packet current_epoch src items) = fst (hk_items find_id current_epoch src items st)"

text \<open>Nodes are 16-bit numbers, and the clock does not go beyond \<open>now\<close>.\<close>

fun hk_op_ok :: "int \<Rightarrow> hk_op \<Rightarrow> bool" where
  "hk_op_ok now (Set_epoch current_epoch epoch n auto_sync) \<longleftrightarrow> current_epoch \<le> now \<and> 0 \<le> n \<and> n < 65536"
| "hk_op_ok now (Set_utcparam n paramid) \<longleftrightarrow> 0 \<le> n \<and> n < 65536"
| "hk_op_ok now (Hk_packet current_epoch src items) \<longleftrightarrow> current_epoch \<le> now \<and> 0 \<le> src \<and> src < 65536"

lemma hk_step_inv: "hk_inv now st \<Longrightarrow> hk_op_ok now op \<Longrightarrow> hk_inv now (hk_step find_id st op)"
  by (cases op) (auto intro: hk_set_epoch_inv hk_set_utcparam_inv hk_items_inv)

lemma hk_run_inv: "hk_inv now st \<Longrightarrow> list_all (hk_op_ok now) ops \<Longrightarrow> hk_inv now (foldl (hk_step find_id) st ops)"
  by (induction ops arbitrary: st) (auto intro: hk_step_inv)

text \<open>
  C38: Starting from empty tables, whatever epochs are set by hand, time parameters are declared and packets arrive, all
  of them for nodes between 0 and 65535 and while the clock shows no more than \<open>now\<close>: the tables never grow beyond their
  16 elements, no node is in a table twice, and every epoch lies between 2020 and \<open>now\<close>. (A node from 65536 on, which the
  commands do not refuse, would be stored cut to 16 bits and added again each time.)
\<close>

theorem hk_tables_inv:
  assumes "list_all (hk_op_ok now) ops"
  shows "hk_inv now (foldl (hk_step find_id) \<lparr>hks = [], timesync_nodes = []\<rparr> ops)"
  using assms by (intro hk_run_inv) (simp_all add: hk_inv_def table_inv_def)

theorem hk_tables_inv_witness:
  "hk_inv 1700000000 (foldl (hk_step (\<lambda>n i. None)) \<lparr>hks = [], timesync_nodes = []\<rparr>
     [Set_epoch 1700000000 1690000000 5 False, Set_utcparam 5 300, Set_epoch 1700000000 1690000005 5 True])"
  by (rule hk_tables_inv) simp

text \<open>
  Setting an epoch is a map update with guards: it takes effect exactly for an epoch between 2020 and now,
  of a node that is known or for which there is room, and an automatic one only if it does not move the node
  back by more than a day; no other node changes.
\<close>

theorem hk_set_epoch_effect:
  "hk_get_epoch (hk_set_epoch current_epoch st epoch n auto_sync) =
    (if UTC_2020 \<le> epoch \<and> epoch \<le> current_epoch \<and>
        (case hk_get_epoch st n of None \<Rightarrow> length (hks st) < MAX_HKS | Some e \<Rightarrow> auto_sync \<longrightarrow> e - epoch \<le> 86400)
     then (hk_get_epoch st)(n \<mapsto> epoch) else hk_get_epoch st)"
proof (cases "find (\<lambda>e. fst e = n) (hks st)")
  case None
  then have "map_of (hks st) n = None" by (simp add: find_fst_None map_of_eq_None_iff)
  moreover have "map_of (hks st @ [(n, epoch)]) = (map_of (hks st))(n \<mapsto> epoch)"
    using calculation by (auto simp: fun_eq_iff map_add_def split: option.split)
  ultimately show ?thesis
    using None by (auto simp: hk_set_epoch_def hk_get_epoch_map_of fun_eq_iff)
next
  case (Some e)
  note find_fst_Some [OF Some]
  then show ?thesis
    using Some by (auto simp: hk_set_epoch_def hk_get_epoch_map_of fun_eq_iff map_of_update_node)
qed

subsection \<open>What is logged\<close>

text \<open>The node of an item, the items of known parameters, and the UTC time of an item for a given epoch of the
  sender.\<close>

definition item_source :: "int \<Rightarrow> hk_item \<Rightarrow> int" where
  "item_source src item = (if item_node item = 0 then src else item_node item)"

definition known_items :: "(int \<Rightarrow> int \<Rightarrow> param_t option) \<Rightarrow> int \<Rightarrow> hk_item list \<Rightarrow> (param_t \<times> hk_item) list" where
  "known_items find_id src items =
     List.map_filter (\<lambda>item. map_option (\<lambda>p. (p, item)) (find_id (item_source src item) (item_id item))) items"

definition utc_time :: "int option \<Rightarrow> hk_item \<Rightarrow> int option" where
  "utc_time epoch item =
     (if UTC_2020 \<le> item_tv_sec item then Some (item_tv_sec item)
      else map_option (\<lambda>e. to_uint32 (item_tv_sec item + e)) epoch)"

definition logged_items :: "int option \<Rightarrow> (param_t \<times> hk_item) list \<Rightarrow> (param_t \<times> int \<times> int) list" where
  "logged_items epoch xs = List.map_filter (\<lambda>(p, item). map_option (\<lambda>t. (p, item_offset item, t)) (utc_time epoch item)) xs"

lemma logged_items_simps [simp]:
  "logged_items e [] = []"
  "logged_items e ((p, item) # xs) =
     (case utc_time e item of None \<Rightarrow> logged_items e xs | Some t \<Rightarrow> (p, item_offset item, t) # logged_items e xs)"
  by (simp_all add: logged_items_def List.map_filter_simps split: option.split)

lemma known_items_simps [simp]:
  "known_items find_id src [] = []"
  "known_items find_id src (item # items) =
     (case find_id (item_source src item) (item_id item) of
        None \<Rightarrow> known_items find_id src items
      | Some p \<Rightarrow> (p, item) # known_items find_id src items)"
  by (simp_all add: known_items_def List.map_filter_simps split: option.split)

lemma hk_items_unsynced:
  assumes "\<forall>item \<in> set items. item_source src item \<notin> fst ` set (timesync_nodes st)"
  shows "hk_items find_id current_epoch src items st =
    (st, logged_items (hk_get_epoch st src)
           (takeWhile (\<lambda>(p, item). item_tv_sec item \<noteq> 0) (known_items find_id src items)))"
  using assms
proof (induction items)
  case (Cons item items)
  then have "synced_epoch st (item_source src item) p item = None" for p
    by (auto simp: synced_epoch_def rev_image_eqI)
  then show ?case
    using Cons unfolding hk_items.simps item_source_def [symmetric]
    by (auto simp: Let_def utc_time_def split: option.split)
qed simp

text \<open>
  From a packet without time parameters exactly the items of known parameters are logged, up to the first
  without a timestamp: a timestamp since 2020 as it is, an earlier one counted from the epoch of the sender, and
  not at all if that has none; the tables do not change.
\<close>

theorem hk_packet_timestamps:
  assumes "packet_sport packet = 13" "param_sniffer_crc csp_crc32_verify packet = (0, packet')"
    and "hk_data_len packet' \<le> packet_length packet'"
    and "\<forall>item \<in> set (items (hk_data_len packet')). item_source (packet_src packet') item \<notin> fst ` set (timesync_nodes st)"
  shows "hk_param_sniffer csp_crc32_verify find_id current_epoch items packet st =
    Inr (True, st, logged_items (hk_get_epoch st (packet_src packet'))
       (takeWhile (\<lambda>(p, item). item_tv_sec item \<noteq> 0)
          (known_items find_id (packet_src packet') (items (hk_data_len packet')))))"
  using assms by (simp add: hk_param_sniffer_def hk_items_unsynced)

abbreviation demo_hk_packet :: csp_packet where
  "demo_hk_packet \<equiv> \<lparr>packet_src = 5, packet_dst = 1, packet_sport = 13, packet_dport = 40, packet_crc32 = False,
     packet_rdp = True, packet_length = 30\<rparr>"

abbreviation temp_param :: param_t where
  "temp_param \<equiv> \<lparr>param_id = 7, param_node = 5, param_name = ''temp'', param_type_of = PARAM_TYPE_OTHER 0,
     param_array_size = 1, param_mask = 0\<rparr>"

theorem hk_packet_timestamps_witness:
  "hk_param_sniffer (\<lambda>p. (0, p)) (\<lambda>n i. if i = 7 then Some temp_param else None) 1700000000
     (\<lambda>n. if n = 20 then
            [\<lparr>item_id = 7, item_node = 0, item_tv_sec = 60, item_offset = - 1, item_tag = 21\<rparr>,
             \<lparr>item_id = 8, item_node = 0, item_tv_sec = 60, item_offset = - 1, item_tag = 3\<rparr>]
          else [])
     demo_hk_packet \<lparr>hks = [(5, 1690000000)], timesync_nodes = []\<rparr> =
   Inr (True, \<lparr>hks = [(5, 1690000000)], timesync_nodes = []\<rparr>, [(temp_param, - 1, 1690000060)])"
proof -
  have "hk_data_len demo_hk_packet = 20" by (simp add: hk_data_len_def size_minus_def)
  then show ?thesis
    by (subst hk_packet_timestamps [where packet' = demo_hk_packet])
       (auto simp: param_sniffer_crc_def hk_get_epoch_def item_source_def utc_time_def to_uint32_eq)
qed

text \<open>
  The value of a time parameter is taken on trust: it becomes its own timestamp in the log even when the
  epoch it implies is refused by the table, as one before 2020, in the future, or more than a day back.
\<close>

theorem hk_time_parameter_unchecked:
  assumes "find_id (item_source src item) (item_id item) = Some param"
    and "(item_source src item, param_id param) \<in> set (timesync_nodes st)"
    and "0 < item_tv_sec item" "item_tv_sec item < UTC_2020"
    and "0 \<le> item_tag item" "item_tag item < 4294967296" "item_tag item \<noteq> item_tv_sec item - 1"
  shows "snd (hk_items find_id current_epoch src [item] st) = [(param, item_offset item, item_tag item)] \<and>
    (current_epoch < item_tag item - item_tv_sec item \<or> item_tag item - item_tv_sec item < UTC_2020 \<longrightarrow>
      fst (hk_items find_id current_epoch src [item] st) = st)"
  using assms
  by (simp add: item_source_def [symmetric] Let_def synced_epoch_def hk_set_epoch_def to_uint32_id)

theorem hk_time_parameter_unchecked_witness:
  "snd (hk_items (\<lambda>n i. Some temp_param) 1700000000 5
      [\<lparr>item_id = 7, item_node = 5, item_tv_sec = 60, item_offset = - 1, item_tag = 4000000000\<rparr>]
      \<lparr>hks = [], timesync_nodes = [(5, 7)]\<rparr>) = [(temp_param, - 1, 4000000000)]"
  using hk_time_parameter_unchecked
    [of "\<lambda>n i. Some temp_param" 5 "\<lparr>item_id = 7, item_node = 5, item_tv_sec = 60, item_offset = - 1, item_tag = 4000000000\<rparr>"
       temp_param "\<lparr>hks = [], timesync_nodes = [(5, 7)]\<rparr>" 1700000000]
  by (simp add: item_source_def)

text \<open>A packet too short for its header has a data length near \<open>2 ^ 64\<close>.\<close>

lemma hk_data_len_short:
  assumes "packet_length packet < 5"
  shows "2 ^ 64 - 10 \<le> hk_data_len packet"
  using assms by (auto simp: hk_data_len_def size_minus_def)

lemma hk_data_len_whole:
  assumes "(if packet_rdp packet then 10 else 5) \<le> packet_length packet"
  shows "hk_data_len packet \<le> packet_length packet"
  using assms by (auto simp: hk_data_len_def size_minus_def)

end
