(* ===== verification/Vmem_Ftp.thy ===== *)
theory Vmem_Ftp
  imports Slash_Utils
begin

text \<open>
  The file transfers of \<open>src/vmem_client_slash_ftp.c\<close>: downloads from remote memory that can be resumed,
  uploads, checksums, and the options of the RDP transport, whose defaults are in \<open>src/csh_defaults.c\<close>. Files
  are a map from names to contents, a byte being a character. The memory client of the \<open>vmem\<close> library is an
  argument, which gives the answer to a transfer.
\<close>

section \<open>Options of the transport\<close>

record rdp_opts =
  rdp_window :: int
  rdp_conn_timeout :: int
  rdp_packet_timeout :: int
  rdp_delayed_acks :: int
  rdp_ack_timeout :: int
  rdp_ack_count :: int

text \<open>The defaults of the shell, the values for one command, and those the CSP library uses.\<close>

record rdp_state =
  rdp_dfl :: rdp_opts
  rdp_tmp :: rdp_opts
  rdp_cur :: rdp_opts

definition rdp_defaults :: rdp_opts where
  "rdp_defaults = \<lparr>rdp_window = 3, rdp_conn_timeout = 10000, rdp_packet_timeout = 5000, rdp_delayed_acks = 1,
     rdp_ack_timeout = 2000, rdp_ack_count = 2\<rparr>"

text \<open>\<open>rdp_opt_add\<close> copies the defaults and declares the options, so that \<open>opts\<close> is what the parser makes of the
  defaults.\<close>

definition rdp_opt_add :: "rdp_opts \<Rightarrow> rdp_state \<Rightarrow> rdp_state" where
  "rdp_opt_add opts st = st\<lparr>rdp_tmp := opts\<rparr>"

definition rdp_opt_set :: "rdp_state \<Rightarrow> rdp_state" where
  "rdp_opt_set st = st\<lparr>rdp_cur := rdp_tmp st\<rparr>"

definition rdp_opt_reset :: "rdp_state \<Rightarrow> rdp_state" where
  "rdp_opt_reset st = st\<lparr>rdp_cur := rdp_dfl st\<rparr>"

text \<open>\<open>rdp opt\<close> starts from the options in use, which become the defaults even when the parser fails.\<close>

definition vmem_client_rdp_options :: "rdp_opts optparse \<Rightarrow> rdp_state \<Rightarrow> string list \<Rightarrow> slash_ret \<times> rdp_state" where
  "vmem_client_rdp_options parser st argv =
     (let (argi, opts) = optparse_parse parser (rdp_cur st) argv;
          st = st\<lparr>rdp_dfl := opts\<rparr>
      in if argi < 0 then (SLASH_EINVAL, st)
         else (SLASH_SUCCESS, st\<lparr>rdp_cur := opts\<lparr>rdp_delayed_acks := 1\<rparr>\<rparr>))"

section \<open>Downloads\<close>

text \<open>Addresses are unsigned 64-bit numbers.\<close>

definition add64 :: "int \<Rightarrow> int \<Rightarrow> int" where
  "add64 a b = (a + b) mod 18446744073709551616"

lemma add64_id [c_int_simps]: "0 \<le> a + b \<Longrightarrow> a + b < 18446744073709551616 \<Longrightarrow> add64 a b = a + b"
  by (simp add: add64_def)

record ftp_state =
  ftp_files :: "string \<Rightarrow> string option"
  ftp_rdp :: rdp_state

text \<open>A transfer is described by node, address and length or data.\<close>

datatype ftp_call =
    Vmem_download int int int
  | Vmem_upload int int string
  | Vmem_crc32 int int int

record ftp_world =
  fw_readline :: string
  fw_can_write :: "string \<Rightarrow> bool"
  fw_download :: "int \<Rightarrow> int \<Rightarrow> int \<times> string"
  fw_upload :: "int \<Rightarrow> string \<Rightarrow> int"
  fw_crc32 :: "int \<Rightarrow> int \<Rightarrow> int \<times> int"
  fw_crc32_memory :: "string \<Rightarrow> int"
  fw_MTU :: int
  fw_TIMEDOUT :: int
  fw_NOBUFS :: int

record download_opts =
  dl_node :: int
  dl_timeout :: int
  dl_version :: int
  dl_use_rdp :: int
  dl_rdp :: rdp_opts

text \<open>\<open>fscanf("%u")\<close>.\<close>

definition scan_u :: "string \<Rightarrow> int option" where
  "scan_u s = (case strto_scan 10 s of None \<Rightarrow> None | Some x \<Rightarrow> Some (to_uint32 (fst (strtoul 10 s))))"

text \<open>The name of the status file, built in an array of 128 bytes.\<close>

definition status_name :: "string \<Rightarrow> string c_result" where
  "status_name file = (let n = take 127 file @ ''stat'' in if length n < 128 then Inr n else Inl Out_Of_Bounds)"

text \<open>\<open>fopen\<close> for writing from the start (\<open>w+\<close>) or at the end (\<open>a\<close>); \<open>None\<close> if the file cannot be opened.\<close>

definition open_write :: "ftp_world \<Rightarrow> bool \<Rightarrow> string \<Rightarrow> (string \<Rightarrow> string option) \<Rightarrow> (string \<Rightarrow> string option) option" where
  "open_write w at_end file files =
     (if \<not> fw_can_write w file then None
      else Some (files(file := (if at_end then (case files file of None \<Rightarrow> Some [] | Some c \<Rightarrow> Some c) else Some []))))"

text \<open>The offset to start from and the opened file; \<open>None\<close> for an error.\<close>

definition resume_offset ::
  "ftp_world \<Rightarrow> string \<Rightarrow> string \<Rightarrow> (string \<Rightarrow> string option) \<Rightarrow> (int \<times> (string \<Rightarrow> string option)) option" where
  "resume_offset w file file_status files =
     (case files file_status of
        None \<Rightarrow> map_option (Pair 0) (open_write w False file files)
      | Some s \<Rightarrow>
          (case scan_u s of
             None \<Rightarrow> None
           | Some offset \<Rightarrow>
               if fw_readline w \<noteq> ''yes'' then map_option (Pair 0) (open_write w False file files)
               else map_option (Pair offset) (open_write w True file files)))"

text \<open>What is left behind when \<open>count\<close> bytes have arrived: the status file with the offset to go on from, or
  none when the download is complete.\<close>

definition finish_download ::
  "ftp_world \<Rightarrow> string \<Rightarrow> int \<Rightarrow> int \<Rightarrow> int \<Rightarrow> (string \<Rightarrow> string option) \<Rightarrow> slash_ret \<times> (string \<Rightarrow> string option)" where
  "finish_download w file_status len offset count files =
     (if count = fw_TIMEDOUT w then (SLASH_EIO, files)
      else if count = fw_NOBUFS w then (SLASH_ENOMEM, files)
      else if count \<noteq> to_int32 (to_uint32 (len - offset)) then
        (SLASH_SUCCESS,
         if fw_can_write w file_status
         then files(file_status := Some (show_int (to_uint32 (count + offset)))) else files)
      else (SLASH_SUCCESS, files(file_status := None)))"

definition download_file ::
  "ftp_world \<Rightarrow> download_opts \<Rightarrow> int \<Rightarrow> int \<Rightarrow> string \<Rightarrow> ftp_state \<Rightarrow> (slash_ret \<times> ftp_state \<times> ftp_call list) c_result"
where
  "download_file w opts address len file st =
     (case status_name file of
        Inl f \<Rightarrow> Inl f
      | Inr file_status \<Rightarrow>
          (case resume_offset w file file_status (ftp_files st) of
             None \<Rightarrow> Inr (SLASH_EINVAL, st, [])
           | Some (offset, files) \<Rightarrow>
               if offset > len then Inr (SLASH_EINVAL, st\<lparr>ftp_files := files\<rparr>, [])
               else
                 (let (count, received) = fw_download w (add64 address offset) (len - offset);
                      tr = [Vmem_download (dl_node opts) (add64 address offset) (len - offset)]
                  in if count < 0 then Inr (SLASH_EINVAL, st\<lparr>ftp_files := files\<rparr>, tr)
                     else if count > len - offset then Inl Out_Of_Bounds
                     else
                       (let files = files(file := map_option (\<lambda>c. c @ take (nat count) received) (files file));
                            (res, files) = finish_download w file_status len offset count files
                        in Inr (res, st\<lparr>ftp_files := files, ftp_rdp := rdp_opt_reset (ftp_rdp st)\<rparr>, tr)))))"

definition vmem_client_slash_download ::
  "ftp_world \<Rightarrow> slash_defaults \<Rightarrow> download_opts optparse \<Rightarrow> ftp_state \<Rightarrow> string list
     \<Rightarrow> (slash_ret \<times> ftp_state \<times> ftp_call list) c_result"
where
  "vmem_client_slash_download w dfl parser st argv =
     (let (argi, opts) = optparse_parse parser
            \<lparr>dl_node = slash_dfl_node dfl, dl_timeout = slash_dfl_timeout dfl, dl_version = 1, dl_use_rdp = 1,
             dl_rdp = rdp_dfl (ftp_rdp st)\<rparr> argv;
          st = st\<lparr>ftp_rdp := rdp_opt_add (dl_rdp opts) (ftp_rdp st)\<rparr>
      in if argi < 0 then Inr (SLASH_EINVAL, st, [])
         else
           (let st = st\<lparr>ftp_rdp := rdp_opt_set (ftp_rdp st)\<rparr> in
            if argi + 1 \<ge> argc argv then Inr (SLASH_EINVAL, st, [])
            else
              (let (address, endptr) = strtoul 16 (nth_arg argv (argi + 1)) in
               if endptr \<noteq> [] then Inr (SLASH_EUSAGE, st, [])
               else
                 (case parse_length argv (argi + 1) of
                    (result, argi, None) \<Rightarrow> Inr (result, st, [])
                  | (result, argi, Some len) \<Rightarrow>
                      if argi + 1 \<ge> argc argv then Inr (SLASH_EINVAL, st, [])
                      else download_file w opts address len (nth_arg argv (argi + 1)) st))))"

section \<open>Uploads\<close>

record upload_opts =
  ul_node :: int
  ul_timeout :: int
  ul_version :: int
  ul_offset :: int
  ul_rdp :: rdp_opts

text \<open>The offset suggested to go on from, in wrapping 32-bit arithmetic.\<close>

definition suggested_offset :: "ftp_world \<Rightarrow> int \<Rightarrow> int \<Rightarrow> int \<Rightarrow> int" where
  "suggested_offset w window_size offset count =
     (let sent = to_uint32 (offset + count); room = to_uint32 ((window_size + 1) * fw_MTU w)
      in if sent > room then to_uint32 (sent - room) else 0)"

text \<open>The head of the file is printed: 256 bytes of the array, which has the size of the file. The last component
  of the result is the suggested offset.\<close>

definition upload_file ::
  "ftp_world \<Rightarrow> upload_opts \<Rightarrow> string \<Rightarrow> int \<Rightarrow> ftp_state
     \<Rightarrow> (slash_ret \<times> ftp_state \<times> ftp_call list \<times> int option) c_result"
where
  "upload_file w opts content address st =
     (let img = drop (nat (ul_offset opts)) content;
          address = add64 address (ul_offset opts)
      in if length content < 256 then Inl Out_Of_Bounds
         else
           (let count = fw_upload w address img;
                tr = [Vmem_upload (ul_node opts) address img];
                done_st = st\<lparr>ftp_rdp := rdp_opt_reset (ftp_rdp st)\<rparr>
            in if count = fw_TIMEDOUT w then Inr (SLASH_EIO, done_st, tr, None)
               else if count = fw_NOBUFS w then Inr (SLASH_ENOMEM, done_st, tr, None)
               else if count \<noteq> int (length img) then
                 Inr (SLASH_EIO, done_st, tr,
                      Some (suggested_offset w (rdp_window (rdp_cur (ftp_rdp st))) (ul_offset opts) count))
               else Inr (SLASH_SUCCESS, done_st, tr, None)))"

definition vmem_client_slash_upload ::
  "ftp_world \<Rightarrow> slash_defaults \<Rightarrow> upload_opts optparse \<Rightarrow> ftp_state \<Rightarrow> string list
     \<Rightarrow> (slash_ret \<times> ftp_state \<times> ftp_call list \<times> int option) c_result"
where
  "vmem_client_slash_upload w dfl parser st argv =
     (let (argi, opts) = optparse_parse parser
            \<lparr>ul_node = slash_dfl_node dfl, ul_timeout = slash_dfl_timeout dfl, ul_version = 1, ul_offset = 0,
             ul_rdp = rdp_dfl (ftp_rdp st)\<rparr> argv;
          st = st\<lparr>ftp_rdp := rdp_opt_add (ul_rdp opts) (ftp_rdp st)\<rparr>
      in if argi < 0 then Inr (SLASH_EINVAL, st, [], None)
         else
           (let st = st\<lparr>ftp_rdp := rdp_opt_set (ftp_rdp st)\<rparr> in
            if argi + 1 \<ge> argc argv then Inr (SLASH_EINVAL, st, [], None)
            else if argi + 2 \<ge> argc argv then Inr (SLASH_EINVAL, st, [], None)
            else
              (let (address, endptr) = strtoul 16 (nth_arg argv (argi + 2)) in
               if endptr \<noteq> [] then Inr (SLASH_EUSAGE, st, [], None)
               else
                 (case ftp_files st (nth_arg argv (argi + 1)) of
                    None \<Rightarrow> Inr (SLASH_EINVAL, st, [], None)
                  | Some content \<Rightarrow> upload_file w opts content address st))))"

section \<open>Checksums\<close>

record crc32_opts =
  crc_node :: int
  crc_timeout :: int
  crc_version :: int
  crc_file_name :: "string option"

text \<open>The length is given, in base 10 or 16 and cut to 32 bits, or that of the file to compare with; \<open>Inl\<close> is the
  code of an error.\<close>

definition crc32_length ::
  "ftp_world \<Rightarrow> crc32_opts \<Rightarrow> (string \<Rightarrow> string option) \<Rightarrow> string list \<Rightarrow> int \<Rightarrow> slash_ret + int \<times> int option" where
  "crc32_length w opts files argv argi =
     (case crc_file_name opts of
        None \<Rightarrow>
          if argi + 1 \<ge> argc argv then Inl SLASH_EINVAL
          else
            (let s = nth_arg argv (argi + 1); (len, endptr) = strtoul 10 s in
             if endptr = [] then Inr (to_uint32 len, None)
             else
               (let (len, endptr) = strtoul 16 s in
                if endptr \<noteq> [] then Inl SLASH_EUSAGE else Inr (to_uint32 len, None)))
      | Some file \<Rightarrow>
          (case files file of
             None \<Rightarrow> Inl SLASH_EINVAL
           | Some content \<Rightarrow> Inr (to_uint32 (int (length content)), Some (fw_crc32_memory w content))))"

text \<open>The last component is the verdict printed, when there is a file: whether the checksums agree. It has no
  influence on the result.\<close>

definition vmem_client_slash_crc32 ::
  "ftp_world \<Rightarrow> slash_defaults \<Rightarrow> crc32_opts optparse \<Rightarrow> (string \<Rightarrow> string option) \<Rightarrow> string list
     \<Rightarrow> slash_ret \<times> ftp_call list \<times> bool option"
where
  "vmem_client_slash_crc32 w dfl parser files argv =
     (let (argi, opts) = optparse_parse parser
            \<lparr>crc_node = slash_dfl_node dfl, crc_timeout = slash_dfl_timeout dfl, crc_version = 1,
             crc_file_name = None\<rparr> argv
      in if argi < 0 then (SLASH_EINVAL, [], None)
         else if argi + 1 \<ge> argc argv then (SLASH_EINVAL, [], None)
         else
           (let (address, endptr) = strtoul 16 (nth_arg argv (argi + 1)) in
            if endptr \<noteq> [] then (SLASH_EUSAGE, [], None)
            else
              (case crc32_length w opts files argv (argi + 1) of
                 Inl ret \<Rightarrow> (ret, [], None)
               | Inr (len, crc_file) \<Rightarrow>
                   (let (res, crc) = fw_crc32 w address len;
                        verdict = map_option (\<lambda>c. c = crc) crc_file;
                        tr = [Vmem_crc32 (crc_node opts) address len]
                    in if res = - 1 then (SLASH_ENOMEM, tr, verdict)
                       else if res = - 2 then (SLASH_EIO, tr, verdict)
                       else (SLASH_SUCCESS, tr, verdict)))))"

section \<open>Properties\<close>

subsection \<open>A download in several runs\<close>

lemma scan_u_show_nat: "int n < 4294967296 \<Longrightarrow> scan_u (show_nat n) = Some (int n)"
  using strto_scan_digits [OF show_nat_nonempty show_nat_digits, of "[]" n] strtoul_show_nat [of n "[]"]
  by (simp add: scan_u_def to_uint32_id)

text \<open>Remote memory that holds \<open>d\<close> at \<open>address\<close> and of which \<open>k\<close> bytes arrive in a run; the user answers yes.\<close>

definition serving :: "string \<Rightarrow> int \<Rightarrow> nat \<Rightarrow> ftp_world \<Rightarrow> ftp_world" where
  "serving d address k w =
     w\<lparr>fw_readline := ''yes'', fw_can_write := \<lambda>f. True,
       fw_download := \<lambda>a n. (int (min k (nat n)), take (min k (nat n)) (drop (nat (a - address)) d))\<rparr>"

text \<open>The states between two runs, after \<open>n\<close> bytes.\<close>

definition halfway :: "string \<Rightarrow> string \<Rightarrow> nat \<Rightarrow> (string \<Rightarrow> string option) \<Rightarrow> bool" where
  "halfway d path n files \<longleftrightarrow>
     (if n = 0 then files (path @ ''stat'') = None \<or> files path = Some [] \<and> files (path @ ''stat'') = Some (show_nat 0)
      else files path = Some (take n d) \<and> files (path @ ''stat'') = Some (show_nat n))"

lemma download_file_serving:
  assumes "halfway d path n (ftp_files st)" "n < length d" "length path < 124" "int (length d) \<le> INT32_MAX"
    and "0 \<le> address" "address + int (length d) < 18446744073709551616" "fw_TIMEDOUT w < 0" "fw_NOBUFS w < 0"
  shows "\<exists>files tr. download_file (serving d address k w) opts address (int (length d)) path st =
      Inr (SLASH_SUCCESS, st\<lparr>ftp_files := files, ftp_rdp := rdp_opt_reset (ftp_rdp st)\<rparr>, tr) \<and>
    (if n + k < length d then halfway d path (n + k) files
     else files path = Some d \<and> files (path @ ''stat'') = None)"
proof -
  have name: "status_name path = Inr (path @ ''stat'')" using assms(3) by (simp add: status_name_def)
  obtain files where r: "resume_offset (serving d address k w) path (path @ ''stat'') (ftp_files st) = Some (int n, files)"
    and f: "files path = Some (take n d)"
    using assms(1,2,4) scan_u_show_nat [of n]
    by (auto simp: halfway_def resume_offset_def serving_def open_write_def split: if_splits)
  let ?w = "serving d address k w" and ?count = "min k (length d - n)"
  let ?files = "files(path := Some (take (n + ?count) d))"
  have a: "add64 address (int n) = address + int n" using assms(2,5,6) by (simp add: add64_id)
  have dl: "fw_download ?w (address + int n) (int (length d) - int n) = (int ?count, take ?count (drop n d))"
    using assms(2) by (simp add: serving_def nat_diff_distrib)
  have app: "take n d @ take ?count (drop n d) = take (n + ?count) d" by (simp only: take_add)
  have fin: "finish_download ?w (path @ ''stat'') (int (length d)) (int n) (int ?count) ?files =
      (SLASH_SUCCESS, if ?count = length d - n then ?files(path @ ''stat'' := None)
         else ?files(path @ ''stat'' := Some (show_nat (n + ?count))))"
    using assms(2,4,7,8) by (auto simp: finish_download_def serving_def to_uint32_id to_int32_id show_int_def nat_add_distrib ac_simps)
  have run: "download_file ?w opts address (int (length d)) path st =
      Inr (SLASH_SUCCESS, st\<lparr>ftp_files := snd (finish_download ?w (path @ ''stat'') (int (length d)) (int n) (int ?count) ?files),
        ftp_rdp := rdp_opt_reset (ftp_rdp st)\<rparr>, [Vmem_download (dl_node opts) (address + int n) (int (length d) - int n)])"
    unfolding download_file_def name r
    using assms(2) fin by (simp add: r a dl f app del: take_append)
  show ?thesis
  proof (cases "n + k < length d")
    case True
    then have "?count = k" "k \<noteq> length d - n" by simp_all
    moreover from this True have "halfway d path (n + k) (?files(path @ ''stat'' := Some (show_nat (n + ?count))))"
      by (simp add: halfway_def)
    ultimately show ?thesis unfolding run fin
      using True by (intro exI [of _ "?files(path @ ''stat'' := Some (show_nat (n + ?count)))"]) simp
  next
    case False
    then have "?count = length d - n" by simp
    then show ?thesis unfolding run fin
      using False assms(2) by (intro exI [of _ "?files(path @ ''stat'' := None)"]) simp
  qed
qed

text \<open>The command as a function of the memory it meets, and several runs of it.\<close>

fun download_runs :: "(ftp_state \<Rightarrow> (slash_ret \<times> ftp_state \<times> ftp_call list) c_result) list \<Rightarrow> ftp_state \<Rightarrow> ftp_state c_result" where
  "download_runs [] st = Inr st"
| "download_runs (run # rest) st =
     (case run st of Inl f \<Rightarrow> Inl f | Inr (ret, st, tr) \<Rightarrow> download_runs rest st)"

text \<open>A download of \<open>d\<close> whose arguments are given: the address, the length in decimal and the path.\<close>

definition download_of ::
  "ftp_world \<Rightarrow> slash_defaults \<Rightarrow> download_opts optparse \<Rightarrow> string \<Rightarrow> string \<Rightarrow> string \<Rightarrow> nat \<Rightarrow> ftp_state
     \<Rightarrow> (slash_ret \<times> ftp_state \<times> ftp_call list) c_result" where
  "download_of w dfl parser d addr path k st =
     vmem_client_slash_download (serving d (fst (strtoul 16 addr)) k w) dfl parser st
       [''download'', addr, show_nat (length d), path]"

lemma parse_length_show_nat:
  assumes "int n \<le> UINT32_MAX"
  shows "parse_length [cmd, addr, show_nat n, path] 1 = (SLASH_SUCCESS, 2, Some (int n))"
  using assms strtoul_show_nat [of n "[]"] by (simp add: parse_length_def nth_arg_def Let_def)

lemma download_of_serving:
  assumes "halfway d path n (ftp_files st)" "n < length d" "length path < 124" "int (length d) \<le> INT32_MAX"
    and "snd (strtoul 16 addr) = []" "fst (strtoul 16 addr) + int (length d) < 18446744073709551616"
    and "fw_TIMEDOUT w < 0" "fw_NOBUFS w < 0" "parser = (\<lambda>opts args. (0, opts))"
  shows "\<exists>st' tr. download_of w dfl parser d addr path k st = Inr (SLASH_SUCCESS, st', tr) \<and>
    rdp_cur (ftp_rdp st') = rdp_dfl (ftp_rdp st') \<and> rdp_dfl (ftp_rdp st') = rdp_dfl (ftp_rdp st) \<and>
    (if n + k < length d then halfway d path (n + k) (ftp_files st')
     else ftp_files st' path = Some d \<and> ftp_files st' (path @ ''stat'') = None)"
proof -
  obtain addr' rest where a: "strtoul 16 addr = (addr', [])" using assms(5) by (cases "strtoul 16 addr") auto
  let ?st = "st\<lparr>ftp_rdp := rdp_opt_set (rdp_opt_add (rdp_dfl (ftp_rdp st)) (ftp_rdp st))\<rparr>"
  let ?opts = "\<lparr>dl_node = slash_dfl_node dfl, dl_timeout = slash_dfl_timeout dfl, dl_version = 1, dl_use_rdp = 1,
             dl_rdp = rdp_dfl (ftp_rdp st)\<rparr>"
  have "download_of w dfl parser d addr path k st =
      download_file (serving d addr' k w) ?opts addr' (int (length d)) path ?st"
    using assms(4,9) a parse_length_show_nat [of "length d" "''download''" addr path]
    by (simp add: download_of_def vmem_client_slash_download_def optparse_parse_def nth_arg_def)
  moreover have "0 \<le> addr'" "addr' + int (length d) < 18446744073709551616"
    using a assms(6) strtoul_nonneg [of 16 addr] by auto
  moreover have "halfway d path n (ftp_files ?st)" using assms(1) by simp
  ultimately show ?thesis
    using download_file_serving [OF _ assms(2-4) _ _ assms(7,8), where st = ?st and address = addr' and k = k and opts = ?opts]
    by (auto simp: rdp_opt_reset_def rdp_opt_set_def rdp_opt_add_def)
qed

lemma download_runs_halfway:
  assumes "int (length d) \<le> INT32_MAX" "length path < 124" "snd (strtoul 16 addr) = []"
    and "fst (strtoul 16 addr) + int (length d) < 18446744073709551616"
    and "fw_TIMEDOUT w < 0" "fw_NOBUFS w < 0" "parser = (\<lambda>opts args. (0, opts))"
    and "halfway d path n (ftp_files st)" "n + sum_list ks < length d"
  shows "\<exists>st'. download_runs (map (download_of w dfl parser d addr path) (ks @ rest)) st =
      download_runs (map (download_of w dfl parser d addr path) rest) st' \<and>
    halfway d path (n + sum_list ks) (ftp_files st')"
  using assms(8,9)
proof (induction ks arbitrary: n st)
  case (Cons k ks)
  obtain st' tr where run: "download_of w dfl parser d addr path k st = Inr (SLASH_SUCCESS, st', tr)"
    and h: "halfway d path (n + k) (ftp_files st')"
    using download_of_serving [OF Cons.prems(1) _ assms(2,1,3-7), where k = k and dfl = dfl] Cons.prems(2) by auto
  show ?case using Cons.IH [OF h] Cons.prems(2) run by (auto simp: ac_simps)
qed auto

text \<open>
  C15: A download without options that breaks off any number of times, and is run again with the answer yes, leaves the
  same file as one that does not: the complete contents of the remote memory, and no status file. The offset it resumes
  from survives in the text of the status file. The length is at most 2147483647, the name shorter than 124 characters,
  and at first there is no status file left over from something else.
\<close>

theorem download_resumes:
  assumes "int (length d) \<le> INT32_MAX" "length path < 124" "snd (strtoul 16 addr) = []"
    and "fst (strtoul 16 addr) + int (length d) < 18446744073709551616"
    and "fw_TIMEDOUT w < 0" "fw_NOBUFS w < 0" "parser = (\<lambda>opts args. (0, opts))"
    and "ftp_files st (path @ ''stat'') = None"
    and "sum_list ks < length d" "length d \<le> sum_list ks + k"
  shows "\<exists>st'. download_runs (map (download_of w dfl parser d addr path) (ks @ [k])) st = Inr st' \<and>
    ftp_files st' path = Some d \<and> ftp_files st' (path @ ''stat'') = None \<and>
    rdp_cur (ftp_rdp st') = rdp_dfl (ftp_rdp st')"
proof -
  have h: "halfway d path 0 (ftp_files st)" using assms(8) by (simp add: halfway_def)
  obtain st' where runs: "download_runs (map (download_of w dfl parser d addr path) (ks @ [k])) st =
      download_runs (map (download_of w dfl parser d addr path) [k]) st'"
    and h': "halfway d path (sum_list ks) (ftp_files st')"
    using download_runs_halfway [OF assms(1-7) h, where ks = ks and rest = "[k]" and dfl = dfl] assms(9) by auto
  show ?thesis
    unfolding runs using download_of_serving [OF h' assms(9,2,1,3-7), where k = k and dfl = dfl] assms(10) by auto
qed

abbreviation demo_ftp :: ftp_world where
  "demo_ftp \<equiv> \<lparr>fw_readline = [], fw_can_write = (\<lambda>f. True), fw_download = (\<lambda>a n. (0, [])), fw_upload = (\<lambda>a s. 0),
    fw_crc32 = (\<lambda>a n. (0, 0)), fw_crc32_memory = (\<lambda>s. 0), fw_MTU = 192, fw_TIMEDOUT = - 3, fw_NOBUFS = - 2\<rparr>"

abbreviation no_files :: ftp_state where
  "no_files \<equiv> \<lparr>ftp_files = (\<lambda>f. None), ftp_rdp = \<lparr>rdp_dfl = rdp_defaults, rdp_tmp = rdp_defaults, rdp_cur = rdp_defaults\<rparr>\<rparr>"

theorem download_resumes_witness:
  "\<exists>st'. download_runs (map (download_of
        demo_ftp
        \<lparr>slash_dfl_node = 5, slash_dfl_timeout = 1000\<rparr> (\<lambda>opts args. (0, opts)) ''flight data'' ''1000'' ''img'') [4, 0, 7])
      no_files =
    Inr st' \<and> ftp_files st' ''img'' = Some ''flight data''"
proof -
  have "strtoul 16 ''1000'' = (4096, [])" by code_simp
  then show ?thesis
    using download_resumes [where d = "''flight data''" and addr = "''1000''" and path = "''img''" and ks = "[4, 0]" and k = 7
        and parser = "\<lambda>opts args. (0, opts)"
        and w = demo_ftp
        and st = no_files
        and dfl = "\<lparr>slash_dfl_node = 5, slash_dfl_timeout = 1000\<rparr>"]
    by auto
qed

text \<open>The name of the status file of a long file name does not fit its array.\<close>

lemma download_long_name:
  assumes "124 \<le> length path"
  shows "download_file w opts address len path st = Inl Out_Of_Bounds"
proof -
  have "\<not> min (length path) 127 < 124" using assms by simp
  then show ?thesis by (simp add: download_file_def status_name_def)
qed

subsection \<open>Uploads\<close>

text \<open>
  \<open>upload\<close> of a file of at least 256 bytes sends the file from its offset on to the address moved by the offset,
  reports success exactly when all of it arrived, and otherwise never suggests an offset behind what has arrived;
  the transport is back to its defaults. The head of a shorter file is printed from behind the end of its
  contents.
\<close>

theorem upload_sends_rest:
  assumes "parser \<lparr>ul_node = slash_dfl_node dfl, ul_timeout = slash_dfl_timeout dfl, ul_version = 1, ul_offset = 0,
      ul_rdp = rdp_dfl (ftp_rdp st)\<rparr> [path, addr] = (0, opts)"
    and "snd (strtoul 16 addr) = []" "ftp_files st path = Some content"
    and "0 \<le> ul_offset opts" "ul_offset opts \<le> int (length content)" "fw_TIMEDOUT w < 0" "fw_NOBUFS w < 0"
    and "\<And>a d. 0 \<le> fw_upload w a d \<and> fw_upload w a d \<le> int (length d)"
    and "fst (strtoul 16 addr) + int (length content) < 18446744073709551616" "int (length content) < 4294967296"
  shows "if length content < 256
    then vmem_client_slash_upload w dfl parser st [''upload'', path, addr] = Inl Out_Of_Bounds
    else \<exists>ret st' suggestion. vmem_client_slash_upload w dfl parser st [''upload'', path, addr] =
        Inr (ret, st', [Vmem_upload (ul_node opts) (fst (strtoul 16 addr) + ul_offset opts)
               (drop (nat (ul_offset opts)) content)], suggestion) \<and>
      (ret = SLASH_SUCCESS \<longleftrightarrow> fw_upload w (fst (strtoul 16 addr) + ul_offset opts) (drop (nat (ul_offset opts)) content) =
         int (length content) - ul_offset opts) \<and>
      (case suggestion of None \<Rightarrow> ret = SLASH_SUCCESS | Some off \<Rightarrow> 0 \<le> off \<and> off \<le> ul_offset opts +
         fw_upload w (fst (strtoul 16 addr) + ul_offset opts) (drop (nat (ul_offset opts)) content)) \<and>
      ftp_files st' = ftp_files st \<and> rdp_cur (ftp_rdp st') = rdp_dfl (ftp_rdp st')"
proof -
  obtain address where a: "strtoul 16 addr = (address, [])" using assms(2) by (cases "strtoul 16 addr") auto
  let ?st = "st\<lparr>ftp_rdp := rdp_opt_set (rdp_opt_add (ul_rdp opts) (ftp_rdp st))\<rparr>"
  let ?img = "drop (nat (ul_offset opts)) content"
  have run: "vmem_client_slash_upload w dfl parser st [''upload'', path, addr] = upload_file w opts content address ?st"
    using assms(1,3) a by (simp add: vmem_client_slash_upload_def optparse_parse_def nth_arg_def)
  have addr64: "add64 address (ul_offset opts) = address + ul_offset opts"
    using assms(4,5,9) a strtoul_nonneg [of 16 addr] by (simp add: add64_id)
  let ?c = "fw_upload w (address + ul_offset opts) ?img"
  have l: "int (length ?img) = int (length content) - ul_offset opts"
    using assms(4,5) by (simp add: of_nat_diff nat_le_iff)
  then have c: "0 \<le> ?c" "?c \<le> int (length content) - ul_offset opts"
    using assms(8) [of "address + ul_offset opts" ?img] by simp_all
  have sug: "0 \<le> suggested_offset w n (ul_offset opts) ?c \<and> suggested_offset w n (ul_offset opts) ?c \<le> ul_offset opts + ?c" for n
    using c assms(4,5,10) to_uint32_bounds [of "(n + 1) * fw_MTU w"]
    by (auto simp: suggested_offset_def to_uint32_id Let_def)
  show ?thesis
    unfolding run using a addr64 c l sug assms(6,7)
    by (auto simp: upload_file_def rdp_opt_reset_def Let_def)
qed

theorem upload_sends_rest_witness:
  "\<exists>st' suggestion. vmem_client_slash_upload (demo_ftp\<lparr>fw_upload := \<lambda>a d. int (length d)\<rparr>)
      \<lparr>slash_dfl_node = 5, slash_dfl_timeout = 1000\<rparr> (\<lambda>opts args. (0, opts\<lparr>ul_offset := 100\<rparr>))
      (no_files\<lparr>ftp_files := [''a'' \<mapsto> replicate 300 CHR ''x'']\<rparr>) [''upload'', ''a'', ''1000''] =
    Inr (SLASH_SUCCESS, st', [Vmem_upload 5 4196 (replicate 200 CHR ''x'')], suggestion)"
proof -
  have "strtoul 16 ''1000'' = (4096, [])" by code_simp
  then show ?thesis
    using upload_sends_rest [where w = "demo_ftp\<lparr>fw_upload := \<lambda>a d. int (length d)\<rparr>" and addr = "''1000''" and path = "''a''"
        and dfl = "\<lparr>slash_dfl_node = 5, slash_dfl_timeout = 1000\<rparr>" and content = "replicate 300 CHR ''x''"
        and parser = "\<lambda>opts args. (0, opts\<lparr>ul_offset := 100\<rparr>)"
        and st = "no_files\<lparr>ftp_files := [''a'' \<mapsto> replicate 300 CHR ''x'']\<rparr>", OF refl]
    by auto
qed

end
