(* ===== verification/Csp_Cmds.thy ===== *)
theory Csp_Cmds
  imports Known_Hosts Slash_Utils
begin

text \<open>
  The commands of \<open>src/slash_csp.c\<close> that send one request to a node, and the scan of \<open>src/csp_scan.c\<close>. A request
  is a call of the CSP library; what it answers is an argument. The table of hosts is filled by \<open>ident\<close> and by
  the scan.
\<close>

section \<open>Requests to a node\<close>

datatype csp_call =
    Csp_ping int int int
  | Csp_reboot int
  | Csp_shutdown int
  | Csp_buf_free int int
  | Csp_uptime int int
  | Csp_connect int int
  | Cmp_if_stats int int string
  | Cmp_peek int int int int
  | Cmp_peek_v2 int int int int
  | Cmp_poke int int int int "8 word list option"
  | Cmp_poke_v2 int int int int "8 word list option"
  | Cmp_clock int int int int

record csp_opts =
  csp_node :: int
  csp_timeout :: int

text \<open>The node to talk to: that of the option unless an argument names another; \<open>None\<close> if that does not
  resolve.\<close>

definition node_argument :: "hosts_state \<Rightarrow> string list \<Rightarrow> int \<Rightarrow> int \<Rightarrow> int option" where
  "node_argument hosts argv argi node =
     (if argi + 1 < argc argv then
        (case get_host_by_addr_or_name hosts (nth_arg argv (argi + 1)) of
           (r, Some n) \<Rightarrow> if 0 \<ge> r then None else Some (to_uint32 n)
         | (r, None) \<Rightarrow> if 0 \<ge> r then None else Some node)
      else Some node)"

record ping_opts = csp_opts +
  ping_size :: int

definition slash_csp_ping ::
  "hosts_state \<Rightarrow> slash_defaults \<Rightarrow> ping_opts optparse \<Rightarrow> string list \<Rightarrow> slash_ret \<times> csp_call list" where
  "slash_csp_ping hosts dfl parser argv =
     (let (argi, opts) = optparse_parse parser
            \<lparr>csp_node = slash_dfl_node dfl, csp_timeout = slash_dfl_timeout dfl, ping_size = 0\<rparr> argv
      in if argi < 0 then (SLASH_EINVAL, [])
         else
           (case node_argument hosts argv argi (csp_node opts) of
              None \<Rightarrow> (SLASH_EINVAL, [])
            | Some node \<Rightarrow> (SLASH_SUCCESS, [Csp_ping node (csp_timeout opts) (ping_size opts)])))"

text \<open>\<open>reboot\<close> and \<open>shutdown\<close> have only the node option.\<close>

record target_opts =
  target_node :: int

definition slash_csp_reboot ::
  "hosts_state \<Rightarrow> slash_defaults \<Rightarrow> target_opts optparse \<Rightarrow> string list \<Rightarrow> slash_ret \<times> csp_call list" where
  "slash_csp_reboot hosts dfl parser argv =
     (let (argi, opts) = optparse_parse parser \<lparr>target_node = slash_dfl_node dfl\<rparr> argv
      in if argi < 0 then (SLASH_EINVAL, [])
         else
           (case node_argument hosts argv argi (target_node opts) of
              None \<Rightarrow> (SLASH_EINVAL, [])
            | Some node \<Rightarrow> (SLASH_SUCCESS, [Csp_reboot node])))"

definition slash_csp_shutdown ::
  "hosts_state \<Rightarrow> slash_defaults \<Rightarrow> target_opts optparse \<Rightarrow> string list \<Rightarrow> slash_ret \<times> csp_call list" where
  "slash_csp_shutdown hosts dfl parser argv =
     (let (argi, opts) = optparse_parse parser \<lparr>target_node = slash_dfl_node dfl\<rparr> argv
      in if argi < 0 then (SLASH_EINVAL, [])
         else
           (case node_argument hosts argv argi (target_node opts) of
              None \<Rightarrow> (SLASH_EINVAL, [])
            | Some node \<Rightarrow> (SLASH_SUCCESS, [Csp_shutdown node])))"

definition slash_csp_buffree ::
  "hosts_state \<Rightarrow> slash_defaults \<Rightarrow> csp_opts optparse \<Rightarrow> string list \<Rightarrow> slash_ret \<times> csp_call list" where
  "slash_csp_buffree hosts dfl parser argv =
     (let (argi, opts) = optparse_parse parser
            \<lparr>csp_node = slash_dfl_node dfl, csp_timeout = slash_dfl_timeout dfl\<rparr> argv
      in if argi < 0 then (SLASH_EINVAL, [])
         else
           (case node_argument hosts argv argi (csp_node opts) of
              None \<Rightarrow> (SLASH_EINVAL, [])
            | Some node \<Rightarrow> (SLASH_SUCCESS, [Csp_buf_free node (csp_timeout opts)])))"

definition slash_csp_uptime ::
  "hosts_state \<Rightarrow> slash_defaults \<Rightarrow> csp_opts optparse \<Rightarrow> string list \<Rightarrow> slash_ret \<times> csp_call list" where
  "slash_csp_uptime hosts dfl parser argv =
     (let (argi, opts) = optparse_parse parser
            \<lparr>csp_node = slash_dfl_node dfl, csp_timeout = slash_dfl_timeout dfl\<rparr> argv
      in if argi < 0 then (SLASH_EINVAL, [])
         else
           (case node_argument hosts argv argi (csp_node opts) of
              None \<Rightarrow> (SLASH_EINVAL, [])
            | Some node \<Rightarrow> (SLASH_SUCCESS, [Csp_uptime node (csp_timeout opts)])))"

section \<open>Identification\<close>

record ident_opts = csp_opts +
  ident_override :: bool

text \<open>A reply: its sender and its bytes. The layout of a message is the library's: its size, the code in it, the
  name in it, and the code of an identification.\<close>

record csp_reply =
  reply_src :: int
  reply_data :: "8 word list"

record cmp_layout =
  cmp_size :: nat
  cmp_code :: "8 word list \<Rightarrow> int"
  cmp_hostname :: "8 word list \<Rightarrow> string"
  cmp_IDENT :: int

text \<open>One message buffer is used for all replies; a reply shorter than it leaves the rest of the last one.\<close>

fun ident_replies ::
  "cmp_layout \<Rightarrow> bool \<Rightarrow> bool \<Rightarrow> 8 word list \<Rightarrow> csp_reply list \<Rightarrow> hosts_state \<Rightarrow> hosts_state c_result" where
  "ident_replies lay mem override_existing msg [] st = Inr st"
| "ident_replies lay mem override_existing msg (packet # packets) st =
     (let msg = take (cmp_size lay) (reply_data packet) @ drop (length (take (cmp_size lay) (reply_data packet))) msg in
      if cmp_code lay msg = cmp_IDENT lay then
        (case known_hosts_add mem st (reply_src packet) (cmp_hostname lay msg) override_existing of
           Inl f \<Rightarrow> Inl f
         | Inr (st, host) \<Rightarrow> ident_replies lay mem override_existing msg packets st)
      else ident_replies lay mem override_existing msg packets st)"

text \<open>\<open>connected\<close> is whether there is a connection and a buffer for the request; the replies are those that come
  before a timeout.\<close>

definition slash_csp_cmp_ident ::
  "cmp_layout \<Rightarrow> bool \<Rightarrow> bool \<Rightarrow> 8 word list \<Rightarrow> (int \<Rightarrow> int \<Rightarrow> csp_reply list) \<Rightarrow> slash_defaults \<Rightarrow> ident_opts optparse
     \<Rightarrow> hosts_state \<Rightarrow> string list \<Rightarrow> (slash_ret \<times> hosts_state) c_result"
where
  "slash_csp_cmp_ident lay mem connected request replies dfl parser st argv =
     (let (argi, opts) = optparse_parse parser
            \<lparr>csp_node = slash_dfl_node dfl, csp_timeout = slash_dfl_timeout dfl, ident_override = False\<rparr> argv
      in if argi < 0 then Inr (SLASH_EINVAL, st)
         else
           (case node_argument st argv argi (csp_node opts) of
              None \<Rightarrow> Inr (SLASH_EINVAL, st)
            | Some node \<Rightarrow>
                if \<not> connected then Inr (SLASH_SUCCESS, st)
                else
                  (case ident_replies lay mem (ident_override opts) request (replies node (csp_timeout opts)) st of
                     Inl f \<Rightarrow> Inl f
                   | Inr st \<Rightarrow> Inr (SLASH_SUCCESS, st))))"

section \<open>Interface statistics, peek and poke\<close>

text \<open>What the library fixes: the largest lengths, the length of an interface name, what the 8-bit length field
  of a message keeps of a number, and the answer of a call.\<close>

record cmp_world =
  PEEK_MAX_LEN :: int
  PEEK_V2_MAX_LEN :: int
  POKE_MAX_LEN :: int
  POKE_V2_MAX_LEN :: int
  ROUTE_IFACE_LEN :: nat
  cmp_answer :: "csp_call \<Rightarrow> bool"

definition slash_csp_cmp_ifstat ::
  "cmp_world \<Rightarrow> slash_defaults \<Rightarrow> csp_opts optparse \<Rightarrow> string list \<Rightarrow> slash_ret \<times> csp_call list" where
  "slash_csp_cmp_ifstat w dfl parser argv =
     (let (argi, opts) = optparse_parse parser
            \<lparr>csp_node = slash_dfl_node dfl, csp_timeout = slash_dfl_timeout dfl\<rparr> argv
      in if argi < 0 then (SLASH_EINVAL, [])
         else if argi + 1 \<ge> argc argv then (SLASH_EINVAL, [])
         else
           (let call = Cmp_if_stats (csp_node opts) (csp_timeout opts)
                         (take (ROUTE_IFACE_LEN w - 1) (nth_arg argv (argi + 1)))
            in if \<not> cmp_answer w call then (SLASH_EINVAL, [call]) else (SLASH_SUCCESS, [call])))"

record mem_opts = csp_opts +
  mem_version :: int

definition slash_csp_cmp_peek ::
  "cmp_world \<Rightarrow> slash_defaults \<Rightarrow> mem_opts optparse \<Rightarrow> string list \<Rightarrow> slash_ret \<times> csp_call list" where
  "slash_csp_cmp_peek w dfl parser argv =
     (let (argi, opts) = optparse_parse parser
            \<lparr>csp_node = slash_dfl_node dfl, csp_timeout = slash_dfl_timeout dfl, mem_version = 1\<rparr> argv
      in if argi < 0 then (SLASH_EINVAL, [])
         else if argi + 1 \<ge> argc argv then (SLASH_EINVAL, [])
         else
           (let (address, endptr) = strtoul 16 (nth_arg argv (argi + 1)) in
            if endptr \<noteq> [] then (SLASH_EUSAGE, [])
            else if argi + 2 \<ge> argc argv then (SLASH_EINVAL, [])
            else
              (let (len, endptr) = strtoul 10 (nth_arg argv (argi + 2)); len = to_uint32 len in
               if endptr \<noteq> [] then (SLASH_EUSAGE, [])
               else if mem_version opts < 1 \<or> mem_version opts > 2 then (SLASH_EINVAL, [])
               else if mem_version opts = 1 then
                 (if address > 4294967295 then (SLASH_EINVAL, [])
                  else if len > PEEK_MAX_LEN w then (SLASH_EUSAGE, [])
                  else
                    (let call = Cmp_peek (csp_node opts) (csp_timeout opts) address len
                     in if \<not> cmp_answer w call then (SLASH_EINVAL, [call]) else (SLASH_SUCCESS, [call])))
               else
                 (if len > PEEK_V2_MAX_LEN w then (SLASH_EUSAGE, [])
                  else
                    (let call = Cmp_peek_v2 (csp_node opts) (csp_timeout opts) address len
                     in if \<not> cmp_answer w call then (SLASH_EINVAL, [call]) else (SLASH_SUCCESS, [call]))))))"

text \<open>\<open>-EINVAL\<close>, what \<open>base16_decode\<close> returns for a text that is no data, is stored in the 8-bit length field as
  any other length; the data of the message is then not determined (\<open>None\<close>).\<close>

definition poke_length :: "8 word list option \<Rightarrow> int" where
  "poke_length bytes = (case bytes of None \<Rightarrow> - 22 | Some bs \<Rightarrow> int (length bs))"

definition to_uint8 :: "int \<Rightarrow> int" where
  "to_uint8 x = uint (word_of_int x :: 8 word)"

definition slash_csp_cmp_poke ::
  "cmp_world \<Rightarrow> slash_defaults \<Rightarrow> mem_opts optparse \<Rightarrow> string list \<Rightarrow> slash_ret \<times> csp_call list" where
  "slash_csp_cmp_poke w dfl parser argv =
     (let (argi, opts) = optparse_parse parser
            \<lparr>csp_node = slash_dfl_node dfl, csp_timeout = slash_dfl_timeout dfl, mem_version = 1\<rparr> argv
      in if argi < 0 then (SLASH_EINVAL, [])
         else if argi + 1 \<ge> argc argv then (SLASH_EINVAL, [])
         else
           (let (address, endptr) = strtoul 16 (nth_arg argv (argi + 1)) in
            if endptr \<noteq> [] then (SLASH_EUSAGE, [])
            else if argi + 2 \<ge> argc argv then (SLASH_EINVAL, [])
            else if mem_version opts < 1 \<or> mem_version opts > 2 then (SLASH_EINVAL, [])
            else
              (let text = nth_arg argv (argi + 2);
                   data_str_len = int (length text);
                   bytes = base16_decode text
               in if data_str_len mod 2 = 1 then (SLASH_EUSAGE, [])
                  else if mem_version opts = 1 then
                    (if address > 4294967295 then (SLASH_EINVAL, [])
                     else if data_str_len div 2 > POKE_MAX_LEN w then (SLASH_EUSAGE, [])
                     else
                       (let call = Cmp_poke (csp_node opts) (csp_timeout opts) address (to_uint8 (poke_length bytes)) bytes
                        in if \<not> cmp_answer w call then (SLASH_EINVAL, [call]) else (SLASH_SUCCESS, [call])))
                  else
                    (if data_str_len div 2 > POKE_V2_MAX_LEN w then (SLASH_EUSAGE, [])
                     else
                       (let call = Cmp_poke_v2 (csp_node opts) (csp_timeout opts) address (to_uint8 (poke_length bytes)) bytes
                        in if \<not> cmp_answer w call then (SLASH_EINVAL, [call]) else (SLASH_SUCCESS, [call]))))))"

section \<open>Time\<close>

record time_opts = csp_opts +
  time_sync :: bool
  time_timestamp :: int

text \<open>Division of signed integers rounds towards zero.\<close>

definition c_div :: "int \<Rightarrow> int \<Rightarrow> int" where
  "c_div a b = sgn a * sgn b * (\<bar>a\<bar> div \<bar>b\<bar>)"

text \<open>\<open>local_time\<close> is the time of the shell in seconds and nanoseconds; \<open>answer\<close> gives the time of the node, \<open>None\<close>
  when it does not answer. The last component is what is printed: the time of the node and the difference in
  milliseconds.\<close>

definition slash_csp_cmp_time ::
  "int \<times> int \<Rightarrow> (csp_call \<Rightarrow> (int \<times> int) option) \<Rightarrow> slash_defaults \<Rightarrow> time_opts optparse \<Rightarrow> string list
     \<Rightarrow> slash_ret \<times> csp_call list \<times> (int \<times> int \<times> int) option"
where
  "slash_csp_cmp_time csp_localtime answer dfl parser argv =
     (let (argi, opts) = optparse_parse parser
            \<lparr>csp_node = slash_dfl_node dfl, csp_timeout = slash_dfl_timeout dfl, time_sync = False, time_timestamp = 0\<rparr> argv
      in if argi < 0 then (SLASH_EINVAL, [], None)
         else if time_sync opts \<and> time_timestamp opts \<noteq> 0 then (SLASH_EINVAL, [], None)
         else
           (let (sec, nsec) = (if time_sync opts then csp_localtime else (time_timestamp opts, 0));
                call = Cmp_clock (csp_node opts) (csp_timeout opts) sec nsec
            in case answer call of
                 None \<Rightarrow> (SLASH_EINVAL, [call], None)
               | Some (rsec, rnsec) \<Rightarrow>
                   (let remote_time_ns = rsec * 1000000000 + rnsec;
                        local_time_ns = fst csp_localtime * 1000000000 + snd csp_localtime
                    in (SLASH_SUCCESS, [call], Some (rsec, rnsec, c_div (remote_time_ns - local_time_ns) 1000000)))))"

section \<open>Scanning\<close>

text \<open>What a scan meets at its \<open>k\<close>-th address: the answer to the ping of a node, the name in its identification
  (\<open>None\<close> without one), and whether the user interrupts.\<close>

record scan_world =
  scan_ping :: "nat \<Rightarrow> int \<Rightarrow> int"
  scan_ident :: "nat \<Rightarrow> int \<Rightarrow> string option"
  scan_interrupted :: "nat \<Rightarrow> bool"

record scan_opts =
  scan_begin :: int
  scan_end :: int
  scan_search :: "string option"
  scan_override :: bool

text \<open>The name a visit of a node finds, if it is to be stored.\<close>

definition scan_found :: "scan_world \<Rightarrow> string option \<Rightarrow> nat \<Rightarrow> int \<Rightarrow> string option" where
  "scan_found w search_str k i =
     (if scan_ping w k i \<ge> 0 then
        (case scan_ident w k i of
           None \<Rightarrow> None
         | Some hostname \<Rightarrow>
             (case search_str of
                None \<Rightarrow> Some hostname
              | Some s \<Rightarrow> if length s > 0 \<and> strstr hostname s = None then None else Some hostname))
      else None)"

text \<open>The table keeps the address as an \<open>int\<close>.\<close>

definition scan_visit ::
  "bool \<Rightarrow> scan_world \<Rightarrow> string option \<Rightarrow> bool \<Rightarrow> nat \<Rightarrow> int \<Rightarrow> hosts_state \<Rightarrow> hosts_state c_result"
where
  "scan_visit mem w search_str override_existing k i st =
     (case scan_found w search_str k i of
        None \<Rightarrow> Inr st
      | Some hostname \<Rightarrow>
          (case known_hosts_add mem st (to_int32 i) hostname override_existing of
             Inl f \<Rightarrow> Inl f
           | Inr (st, host) \<Rightarrow> Inr st))"

text \<open>The counter is a 32-bit \<open>unsigned int\<close>, so the increment wraps; \<open>None\<close> is a loop that never ends.\<close>

partial_function (option) scan_loop ::
  "bool \<Rightarrow> scan_world \<Rightarrow> string option \<Rightarrow> bool \<Rightarrow> int \<Rightarrow> nat \<Rightarrow> int \<Rightarrow> hosts_state \<Rightarrow> hosts_state c_result option"
where
  "scan_loop mem w search_str override_existing end_node k i st =
     (if i > end_node then Some (Inr st)
      else
        (case scan_visit mem w search_str override_existing k i st of
           Inl f \<Rightarrow> Some (Inl f)
         | Inr st \<Rightarrow>
             if scan_interrupted w k then Some (Inr st)
             else scan_loop mem w search_str override_existing end_node (Suc k) (to_uint32 (i + 1)) st))"

definition csp_scan ::
  "bool \<Rightarrow> scan_world \<Rightarrow> scan_opts optparse \<Rightarrow> hosts_state \<Rightarrow> string list \<Rightarrow> (slash_ret \<times> hosts_state) c_result option"
where
  "csp_scan mem w parser st argv =
     (let (argi, opts) = optparse_parse parser
            \<lparr>scan_begin = 0, scan_end = 16382, scan_search = None, scan_override = False\<rparr> argv
      in if argi < 0 then Some (Inr (SLASH_EINVAL, st))
         else
           (case scan_loop mem w (scan_search opts) (scan_override opts) (scan_end opts) 0 (scan_begin opts) st of
              None \<Rightarrow> None
            | Some (Inl f) \<Rightarrow> Some (Inl f)
            | Some (Inr st) \<Rightarrow> Some (Inr (SLASH_SUCCESS, st))))"

section \<open>The state of the library\<close>

text \<open>\<open>info\<close> prints tables of the library, as far as it was built with them.\<close>

datatype info_call = Rtable_print | Conn_print_table | Iflist_print

definition slash_csp_info :: "bool \<Rightarrow> bool \<Rightarrow> slash_ret \<times> info_call list" where
  "slash_csp_info have_stdio use_rtable =
     (SLASH_SUCCESS,
      if have_stdio then (if use_rtable then [Rtable_print] else []) @ [Conn_print_table, Iflist_print] else [])"

section \<open>Properties\<close>

lemma known_hosts_add_names:
  assumes "hosts_inv st" and "known_hosts_add mem st a n ov = Inr (st', h)"
  shows "hosts_inv st' \<and> (\<forall>b. mem \<longrightarrow> name_of_host st' b =
     (if b = a \<and> a \<noteq> 0 \<and> (ov \<or> name_of_host st a = None) then Some (host_clip n) else name_of_host st b))"
proof -
  have size: "SIZEOF_HOST \<le> known_host_storage_size st" using assms(1) by (simp add: hosts_inv_def)
  have "mem \<longrightarrow> name_of_host st' b =
     (if b = a \<and> a \<noteq> 0 \<and> (ov \<or> name_of_host st a = None) then Some (host_clip n) else name_of_host st b)" for b
  proof (cases "find (\<lambda>host. host_node host = a) (known_hosts st)")
    case None
    then have "known_hosts_del (known_hosts st) a = known_hosts st" by (rule del_absent)
    moreover have "name_of_host st a = None" using None by (simp add: name_of_host_def)
    ultimately show ?thesis
      using assms(2) None name_of_added [of st a n b]
      by (auto simp: known_hosts_add_def new_host_added [OF size] new_host_added' [OF size] split: if_splits)
  next
    case (Some host)
    then have "name_of_host st a \<noteq> None" by (simp add: name_of_host_def)
    then show ?thesis
      using assms(2) Some name_of_added [of st a n b]
      by (auto simp: known_hosts_add_def new_host_added [OF size] split: if_splits)
  qed
  then show ?thesis using known_hosts_add_inv [OF assms] by blast
qed

lemma scan_visit_names:
  assumes "hosts_inv st"
  shows "\<exists>st'. scan_visit mem w search_str ov k i st = Inr st' \<and> hosts_inv st' \<and>
     (mem \<longrightarrow> (\<forall>b. name_of_host st' b =
        (case scan_found w search_str k i of
           None \<Rightarrow> name_of_host st b
         | Some n \<Rightarrow> if b = to_int32 i \<and> b \<noteq> 0 \<and> (ov \<or> name_of_host st b = None) then Some (host_clip n)
                     else name_of_host st b)))"
proof (cases "scan_found w search_str k i")
  case None
  then show ?thesis using assms by (simp add: scan_visit_def)
next
  case (Some n)
  obtain st' h where r: "known_hosts_add mem st (to_int32 i) n ov = Inr (st', h)"
    using known_hosts_add_ok [OF assms, of mem "to_int32 i" n ov] by auto
  then show ?thesis using known_hosts_add_names [OF assms r] Some by (auto simp: scan_visit_def)
qed

lemma scan_loop_finds:
  assumes "hosts_inv st" "0 \<le> i" "end_node < 4294967295" "\<And>k. \<not> scan_interrupted w k"
  shows "\<exists>st'. scan_loop mem w search_str ov end_node k i st = Some (Inr st') \<and> hosts_inv st' \<and>
     (mem \<longrightarrow> (\<forall>b. name_of_host st' b =
        (if to_int32 b = b \<and> i \<le> to_uint32 b \<and> to_uint32 b \<le> end_node \<and> b \<noteq> 0 \<and>
            (ov \<or> name_of_host st b = None) \<and> scan_found w search_str (k + nat (to_uint32 b - i)) (to_uint32 b) \<noteq> None
         then map_option host_clip (scan_found w search_str (k + nat (to_uint32 b - i)) (to_uint32 b))
         else name_of_host st b)))"
  using assms(1,2)
proof (induction "nat (end_node + 1 - i)" arbitrary: i k st)
  case 0
  then have "i > end_node" by simp
  then show ?case using 0 by (subst scan_loop.simps) auto
next
  case (Suc m)
  then have le: "i \<le> end_node" by simp
  obtain st1 where v: "scan_visit mem w search_str ov k i st = Inr st1" and inv: "hosts_inv st1"
    and names: "mem \<Longrightarrow> \<forall>b. name_of_host st1 b =
        (case scan_found w search_str k i of
           None \<Rightarrow> name_of_host st b
         | Some n \<Rightarrow> if b = to_int32 i \<and> b \<noteq> 0 \<and> (ov \<or> name_of_host st b = None) then Some (host_clip n)
                     else name_of_host st b)"
    using scan_visit_names [OF Suc.prems(1), of mem w search_str ov k i] by blast
  have wrap: "to_uint32 (i + 1) = i + 1"
    using le assms(3) Suc.prems(2) by (intro to_uint32_id) auto
  have step: "scan_loop mem w search_str ov end_node k i st = scan_loop mem w search_str ov end_node (Suc k) (i + 1) st1"
    using le v wrap assms(4) by (subst scan_loop.simps) simp
  have m: "m = nat (end_node + 1 - (i + 1))" using Suc.hyps(2) by simp
  obtain st' where st': "scan_loop mem w search_str ov end_node (Suc k) (i + 1) st1 = Some (Inr st')" "hosts_inv st'"
    and names': "mem \<Longrightarrow> \<forall>b. name_of_host st' b =
        (if to_int32 b = b \<and> i + 1 \<le> to_uint32 b \<and> to_uint32 b \<le> end_node \<and> b \<noteq> 0 \<and>
            (ov \<or> name_of_host st1 b = None) \<and>
            scan_found w search_str (Suc k + nat (to_uint32 b - (i + 1))) (to_uint32 b) \<noteq> None
         then map_option host_clip (scan_found w search_str (Suc k + nat (to_uint32 b - (i + 1))) (to_uint32 b))
         else name_of_host st1 b)"
    using Suc.hyps(1) [OF m inv] Suc.prems(2) by force
  have u: "to_uint32 i = i" using le assms(3) Suc.prems(2) by (intro to_uint32_id) auto
  have idx: "i + 1 \<le> b \<Longrightarrow> Suc k + nat (b - (i + 1)) = k + nat (b - i)" for b
    by (simp add: nat_diff_distrib' Suc_nat_eq_nat_zadd1 algebra_simps)
  have final: "name_of_host st' b =
        (if to_int32 b = b \<and> i \<le> to_uint32 b \<and> to_uint32 b \<le> end_node \<and> b \<noteq> 0 \<and>
            (ov \<or> name_of_host st b = None) \<and> scan_found w search_str (k + nat (to_uint32 b - i)) (to_uint32 b) \<noteq> None
         then map_option host_clip (scan_found w search_str (k + nat (to_uint32 b - i)) (to_uint32 b))
         else name_of_host st b)" if mem for b
  proof (cases "b = to_int32 i")
    case True
    then have "to_int32 b = b" "to_uint32 b = i" using u by (simp_all add: to_int32_id to_int32_bounds)
    then show ?thesis using True names' [OF that] names [OF that] le by (auto split: option.splits)
  next
    case False
    then have "name_of_host st1 b = name_of_host st b" using names [OF that] by (auto split: option.splits)
    note same = this and after = names' [OF that, THEN spec, of b]
    show ?thesis
    proof (cases "i + 1 \<le> to_uint32 b")
      case True
      then have "i \<le> to_uint32 b" by simp
      with True same after show ?thesis unfolding idx [OF True] by (auto split: if_splits)
    next
      case le: False
      have "\<not> (to_int32 b = b \<and> i \<le> to_uint32 b)"
      proof
        assume b: "to_int32 b = b \<and> i \<le> to_uint32 b"
        then have "to_uint32 b = i" using le by simp
        then have "to_int32 i = to_int32 b" by auto
        then show False using b False by simp
      qed
      with le same after show ?thesis by auto
    qed
  qed
  have "scan_loop mem w search_str ov end_node k i st = Some (Inr st')" using step st' by simp
  with st' show ?case by (intro exI [of _ st'] conjI impI allI final)
qed

lemma scan_loop_endless:
  assumes "\<And>k. \<not> scan_interrupted w k" "scan_loop mem w search_str ov 4294967295 k i st = Some r"
  shows "\<not> (0 \<le> i \<and> i \<le> 4294967295 \<and> hosts_inv st)"
proof -
  have "w = w \<longrightarrow> (4294967295 :: int) = 4294967295 \<longrightarrow> \<not> (0 \<le> i \<and> i \<le> 4294967295 \<and> hosts_inv st)"
  proof (rule scan_loop.raw_induct [OF _ assms(2), where P = "\<lambda>mem w' search_str ov end_node k i st r.
      w' = w \<longrightarrow> end_node = 4294967295 \<longrightarrow> \<not> (0 \<le> i \<and> i \<le> 4294967295 \<and> hosts_inv st)"], intro impI notI)
    fix f mem w' search_str ov end_node k i st r
    assume IH: "\<And>mem w' search_str ov end_node k i st r. f mem w' search_str ov end_node k i st = Some r \<Longrightarrow>
        w' = w \<longrightarrow> end_node = 4294967295 \<longrightarrow> \<not> (0 \<le> i \<and> i \<le> 4294967295 \<and> hosts_inv st)"
      and body: "(if end_node < i then Some (Inr st)
        else case scan_visit mem w' search_str ov k i st of Inl f \<Rightarrow> Some (Inl f)
             | Inr st \<Rightarrow> if scan_interrupted w' k then Some (Inr st)
                 else f mem w' search_str ov end_node (Suc k) (to_uint32 (i + 1)) st) = Some r"
      and eqs: "w' = w" "end_node = 4294967295" and i: "0 \<le> i \<and> i \<le> 4294967295 \<and> hosts_inv st"
    obtain st1 where st1: "scan_visit mem w search_str ov k i st = Inr st1" "hosts_inv st1"
      using scan_visit_names [of st mem w search_str ov k i] i by blast
    then have "f mem w search_str ov 4294967295 (Suc k) (to_uint32 (i + 1)) st1 = Some r"
      using body eqs i assms(1) by simp
    from IH [OF this] st1(2) to_uint32_bounds [of "i + 1"] show False by simp
  qed
  then show ?thesis by simp
qed

text \<open>
  C13: A scan that nobody interrupts comes to its end exactly if its last address is below the largest 32-bit
  number: with that one the counter wraps to 0 and the condition of the loop never fails.
\<close>

theorem csp_scan_returns:
  assumes "hosts_inv st" "\<And>k. \<not> scan_interrupted w k"
    and "0 \<le> scan_begin opts" "scan_begin opts < 4294967296" "scan_end opts < 4294967296"
  shows "(\<exists>r. csp_scan mem w (\<lambda>defaults args. (0, opts)) st argv = Some r) \<longleftrightarrow> scan_end opts < 4294967295"
proof
  assume "scan_end opts < 4294967295"
  then show "\<exists>r. csp_scan mem w (\<lambda>defaults args. (0, opts)) st argv = Some r"
    using scan_loop_finds [OF assms(1,3) _ assms(2), of "scan_end opts" mem "scan_search opts" "scan_override opts" 0]
    by (simp add: csp_scan_def optparse_parse_def) (elim exE conjE, simp)
next
  assume "\<exists>r. csp_scan mem w (\<lambda>defaults args. (0, opts)) st argv = Some r"
  then obtain r where r: "scan_loop mem w (scan_search opts) (scan_override opts) (scan_end opts) 0 (scan_begin opts) st
      = Some r"
    by (auto simp: csp_scan_def optparse_parse_def split: option.splits)
  have "scan_end opts \<noteq> 4294967295"
    using scan_loop_endless [OF assms(2)] r assms(1,3,4) by fastforce
  with assms(5) show "scan_end opts < 4294967295" by simp
qed

text \<open>
  C16: An uninterrupted scan up to an address below the largest 32-bit number, with memory for the hosts and whatever
  options came before, keeps the invariant of the table and stores exactly what it found: each address in the range
  that answered (with a name that contains the text searched) gets its name, cut to 49 characters, unless it had one
  already and nothing is to be overridden; all other entries, and address 0, are left as they were. The table keeps
  an address as a signed number, so an address from 2147483648 on is stored as the negative number with its bits.
\<close>

theorem csp_scan_finds_nodes:
  assumes "hosts_inv st" "\<And>k. \<not> scan_interrupted w k" "0 \<le> scan_begin opts" "scan_end opts < 4294967295" "0 \<le> argi"
  shows "\<exists>st'. csp_scan True w (\<lambda>defaults args. (argi, opts)) st argv = Some (Inr (SLASH_SUCCESS, st')) \<and> hosts_inv st' \<and>
     (\<forall>b. let i = to_uint32 b; found = scan_found w (scan_search opts) (nat (i - scan_begin opts)) i in
        name_of_host st' b =
          (if to_int32 b = b \<and> scan_begin opts \<le> i \<and> i \<le> scan_end opts \<and> b \<noteq> 0 \<and>
              (scan_override opts \<or> name_of_host st b = None) \<and> found \<noteq> None
           then map_option host_clip found else name_of_host st b))"
proof -
  obtain st' where "scan_loop True w (scan_search opts) (scan_override opts) (scan_end opts) 0 (scan_begin opts) st
      = Some (Inr st')" and st': "hosts_inv st'"
    and names: "\<forall>b. name_of_host st' b =
          (if to_int32 b = b \<and> scan_begin opts \<le> to_uint32 b \<and> to_uint32 b \<le> scan_end opts \<and> b \<noteq> 0 \<and>
              (scan_override opts \<or> name_of_host st b = None) \<and>
              scan_found w (scan_search opts) (0 + nat (to_uint32 b - scan_begin opts)) (to_uint32 b) \<noteq> None
           then map_option host_clip (scan_found w (scan_search opts) (0 + nat (to_uint32 b - scan_begin opts)) (to_uint32 b))
           else name_of_host st b)"
    using scan_loop_finds [OF assms(1,3,4,2), of True "scan_search opts" "scan_override opts" 0] by blast
  then have "csp_scan True w (\<lambda>defaults args. (argi, opts)) st argv = Some (Inr (SLASH_SUCCESS, st'))"
    using assms(5) by (simp add: csp_scan_def optparse_parse_def)
  then show ?thesis unfolding Let_def using st' names [unfolded add_0] by blast
qed

text \<open>A scan of the addresses 1 to 3 of a bus with a node 2.\<close>

abbreviation demo_bus :: scan_world where
  "demo_bus \<equiv> \<lparr>scan_ping = (\<lambda>k i. if i = 2 then 5 else - 1), scan_ident = (\<lambda>k i. Some ''obc''),
     scan_interrupted = (\<lambda>k. False)\<rparr>"

abbreviation scan_range :: "int \<Rightarrow> int \<Rightarrow> scan_opts" where
  "scan_range b e \<equiv> \<lparr>scan_begin = b, scan_end = e, scan_search = None, scan_override = False\<rparr>"

lemma no_hosts_inv: "hosts_inv no_hosts"
  by (simp add: hosts_inv_def env_inv_def)

theorem csp_scan_returns_witness:
  "csp_scan True demo_bus (\<lambda>defaults args. (0, scan_range 1 4294967295)) no_hosts [''scan''] = None"
  using csp_scan_returns [OF no_hosts_inv, of demo_bus "scan_range 1 4294967295" True "[''scan'']"] by simp

theorem csp_scan_finds_nodes_witness:
  "\<exists>st'. csp_scan True demo_bus (\<lambda>defaults args. (0, scan_range 1 3)) no_hosts [''scan''] =
       Some (Inr (SLASH_SUCCESS, st')) \<and> name_of_host st' 2 = Some ''obc'' \<and> name_of_host st' 3 = None"
proof -
  have "host_clip ''obc'' = ''obc''" by code_simp
  moreover have u: "to_uint32 2 = 2" "to_uint32 3 = 3" "to_int32 2 = 2" "to_int32 3 = 3"
    by (simp_all add: to_uint32_id to_int32_id)
  moreover obtain st' where
    "csp_scan True demo_bus (\<lambda>defaults args. (0, scan_range 1 3)) no_hosts [''scan''] = Some (Inr (SLASH_SUCCESS, st'))"
    and names: "\<forall>b. let i = to_uint32 b; found = scan_found demo_bus None (nat (i - 1)) i in
        name_of_host st' b =
          (if to_int32 b = b \<and> 1 \<le> i \<and> i \<le> 3 \<and> b \<noteq> 0 \<and> (False \<or> name_of_host no_hosts b = None) \<and> found \<noteq> None
           then map_option host_clip found else name_of_host no_hosts b)"
    using csp_scan_finds_nodes [OF no_hosts_inv, of demo_bus "scan_range 1 3" 0 "[''scan'']"] by auto
  moreover from names [THEN spec, of 2] names [THEN spec, of 3]
  have "name_of_host st' 2 = map_option host_clip (Some ''obc'')" "name_of_host st' 3 = None"
    by (simp_all add: Let_def scan_found_def name_of_host_def u)
  ultimately show ?thesis by simp
qed

lemma to_uint8_id: "0 \<le> x \<Longrightarrow> x < 256 \<Longrightarrow> to_uint8 x = x"
  by (simp add: to_uint8_def unsigned_of_int take_bit_int_eq_self)

text \<open>
  Poking bytes written in base 16 at an address of 32 bits sends one message with that address and exactly
  those bytes, whose length field is their number, and succeeds if the node answers; more bytes than a message
  holds are refused and nothing is sent.
\<close>

theorem poke_sends_encoded:
  assumes "strtoul 16 a = (address, [])" "address \<le> 4294967295" "POKE_MAX_LEN w \<le> 255"
  shows "slash_csp_cmp_poke w dfl (\<lambda>opts args. (0, opts)) [cmd, a, base16_encode raw] =
     (if int (length raw) > POKE_MAX_LEN w then (SLASH_EUSAGE, [])
      else
        (let call = Cmp_poke (slash_dfl_node dfl) (slash_dfl_timeout dfl) address (int (length raw)) (Some raw)
         in (if cmp_answer w call then SLASH_SUCCESS else SLASH_EINVAL, [call])))"
  using assms decode_encode [of raw]
  by (auto simp: slash_csp_cmp_poke_def optparse_parse_def nth_arg_def poke_length_def to_uint8_id Let_def)

abbreviation demo_cmp :: cmp_world where
  "demo_cmp \<equiv> \<lparr>PEEK_MAX_LEN = 200, PEEK_V2_MAX_LEN = 196, POKE_MAX_LEN = 200, POKE_V2_MAX_LEN = 196,
     ROUTE_IFACE_LEN = 11, cmp_answer = (\<lambda>call. True)\<rparr>"

abbreviation demo_dfl :: slash_defaults where
  "demo_dfl \<equiv> \<lparr>slash_dfl_node = 7, slash_dfl_timeout = 1000\<rparr>"

theorem poke_sends_encoded_witness:
  "slash_csp_cmp_poke demo_cmp demo_dfl (\<lambda>opts args. (0, opts)) [''poke'', ''10'', base16_encode [1, 255]] =
     (SLASH_SUCCESS, [Cmp_poke 7 1000 16 2 (Some [1, 255])])"
proof -
  have "strtoul 16 ''10'' = (16, [])" by code_simp
  then show ?thesis using poke_sends_encoded [of "''10''" 16 demo_cmp demo_dfl "''poke''" "[1, 255]"] by simp
qed

text \<open>A text that is no data is sent all the same: the error of \<open>base16_decode\<close> becomes a length of 234.\<close>

lemma poke_sends_invalid:
  assumes "strtoul 16 a = (address, [])" "address \<le> 4294967295" "base16_decode text = None"
    and "even (length text)" "int (length text) div 2 \<le> POKE_MAX_LEN w"
  shows "snd (slash_csp_cmp_poke w dfl (\<lambda>opts args. (0, opts)) [cmd, a, text]) =
     [Cmp_poke (slash_dfl_node dfl) (slash_dfl_timeout dfl) address 234 None]"
proof -
  have "int (length text) mod 2 = 0" using assms(4) by presburger
  moreover have "to_uint8 (- 22) = 234" by code_simp
  ultimately show ?thesis
    using assms by (simp add: slash_csp_cmp_poke_def optparse_parse_def nth_arg_def poke_length_def Let_def)
qed

text \<open>
  A node that identified itself can be addressed by the name it gave: after \<open>ident\<close> with overriding got one
  reply, \<open>ping\<close> of the name in the reply (which is not a number) sends its request to the node the reply came from.
\<close>

theorem ident_then_ping:
  assumes "hosts_inv st" "connected" "cmp_size lay = length (reply_data packet)" "length msg = cmp_size lay"
    and "cmp_code lay (reply_data packet) = cmp_IDENT lay" "replies (slash_dfl_node dfl) (slash_dfl_timeout dfl) = [packet]"
    and "0 < reply_src packet" "reply_src packet < 16384"
    and "cmp_hostname lay (reply_data packet) = n" "nul_free n" "length n < HOSTNAME_MAXLEN" "snd (strtol 10 n) \<noteq> []"
  shows "\<exists>st'. slash_csp_cmp_ident lay True connected msg replies dfl
       (\<lambda>opts args. (0, opts\<lparr>ident_override := True\<rparr>)) st [ident] = Inr (SLASH_SUCCESS, st') \<and>
     slash_csp_ping st' dfl (\<lambda>opts args. (0, opts)) [ping, n] =
       (SLASH_SUCCESS, [Csp_ping (reply_src packet) (slash_dfl_timeout dfl) 0])"
proof -
  define st' where "st' = added st (known_hosts_del (known_hosts st) (reply_src packet)) (reply_src packet) n"
  have size: "SIZEOF_HOST \<le> known_host_storage_size st" using assms(1) by (simp add: hosts_inv_def)
  have "known_hosts_add True st (reply_src packet) n True = Inr (st', Some \<lparr>host_node = reply_src packet, host_name = host_clip n\<rparr>)"
    using assms(7) by (simp add: known_hosts_add_def new_host_added [OF size] st'_def)
  then have "slash_csp_cmp_ident lay True connected msg replies dfl
       (\<lambda>opts args. (0, opts\<lparr>ident_override := True\<rparr>)) st [ident] = Inr (SLASH_SUCCESS, st')"
    using assms by (simp add: slash_csp_cmp_ident_def optparse_parse_def node_argument_def)
  moreover have "known_hosts_get_node st' (Some n) = reply_src packet"
    using node_of_head host_clip_short [OF assms(10,11)] by (metis st'_def)
  then have "get_host_by_addr_or_name st' n = (1, Some (reply_src packet))"
    using assms(7,8,12) by (simp add: get_host_by_addr_or_name_def split_beta to_int32_id)
  then have "slash_csp_ping st' dfl (\<lambda>opts args. (0, opts)) [ping, n] =
       (SLASH_SUCCESS, [Csp_ping (reply_src packet) (slash_dfl_timeout dfl) 0])"
    using assms(7,8) by (simp add: slash_csp_ping_def optparse_parse_def node_argument_def nth_arg_def to_uint32_id)
  ultimately show ?thesis by blast
qed

text \<open>A layout for demonstration: the code in the first byte, then the name.\<close>

abbreviation demo_layout :: cmp_layout where
  "demo_layout \<equiv> \<lparr>cmp_size = 3, cmp_code = (\<lambda>bs. uint (bs ! 0)),
     cmp_hostname = (\<lambda>bs. map (\<lambda>b. char_of (unat b)) (drop 1 bs)), cmp_IDENT = 1\<rparr>"

theorem ident_then_ping_witness:
  "\<exists>st'. slash_csp_cmp_ident demo_layout True True [0, 0, 0]
       (\<lambda>node timeout. [\<lparr>reply_src = 12, reply_data = [1, 97, 98]\<rparr>]) demo_dfl
       (\<lambda>opts args. (0, opts\<lparr>ident_override := True\<rparr>)) no_hosts [''ident''] = Inr (SLASH_SUCCESS, st') \<and>
     slash_csp_ping st' demo_dfl (\<lambda>opts args. (0, opts)) [''ping'', ''ab''] =
       (SLASH_SUCCESS, [Csp_ping 12 1000 0])"
proof -
  have "nul_free ''ab''" "snd (strtol 10 ''ab'') \<noteq> []" "char_of (97 :: nat) = CHR ''a''" "char_of (98 :: nat) = CHR ''b''"
    by code_simp+
  then show ?thesis
    using ident_then_ping [OF no_hosts_inv, where connected = True and lay = demo_layout and msg = "[0, 0, 0]"
        and packet = "\<lparr>reply_src = 12, reply_data = [1, 97, 98]\<rparr>" and dfl = demo_dfl and n = "''ab''"
        and replies = "\<lambda>node timeout. [\<lparr>reply_src = 12, reply_data = [1, 97, 98]\<rparr>]" and ping = "''ping''"
        and ident = "''ident''"]
    by simp
qed

end
