(* ===== verification/Csp_Init.thy ===== *)
theory Csp_Init
  imports Slash_Base
begin

text \<open>
  The set-up commands of \<open>src/csp_init_cmd.c\<close>: the configuration of the protocol, adding an interface of each
  kind, alias addresses and routes. The drivers belong to the CSP library: whether one opens is an argument. An
  interface that opened is in the library's list, here in the order of the commands.
\<close>

section \<open>Configuration\<close>

record csp_conf_s =
  conf_hostname :: string
  conf_model :: string
  conf_revision :: string
  conf_version :: int
  conf_dedup :: int

record init_opts =
  init_host :: "string option"
  init_model :: "string option"
  init_revision :: "string option"
  init_version :: int
  init_dedup :: int

text \<open>A field of \<open>struct utsname\<close>: an array that \<open>uname\<close> filled and an option may replace.\<close>

definition utsname_field :: "char list \<Rightarrow> string option \<Rightarrow> string" where
  "utsname_field field opt =
     (case opt of
        None \<Rightarrow> c_string field
      | Some s \<Rightarrow> c_string (strncpy field s (length field - 1)))"

record utsname =
  uts_nodename :: "char list"
  uts_version :: "char list"
  uts_release :: "char list"

definition csp_init_cmd ::
  "utsname \<Rightarrow> init_opts optparse \<Rightarrow> csp_conf_s \<Rightarrow> string list \<Rightarrow> slash_ret \<times> csp_conf_s" where
  "csp_init_cmd uname parser conf argv =
     (let (argi, opts) = optparse_parse parser
            \<lparr>init_host = None, init_model = None, init_revision = None, init_version = 2, init_dedup = 3\<rparr> argv
      in if argi < 0 then (SLASH_EINVAL, conf)
         else (SLASH_SUCCESS,
               \<lparr>conf_hostname = utsname_field (uts_nodename uname) (init_host opts),
                conf_model = utsname_field (uts_version uname) (init_model opts),
                conf_revision = utsname_field (uts_release uname) (init_revision opts),
                conf_version = init_version opts, conf_dedup = init_dedup opts\<rparr>))"

section \<open>Interfaces\<close>

text \<open>One function per command, each with a counter of its own that numbers the interfaces it added.\<close>

datatype if_class = ZMQ | KISS | CAN | ETH | UDP | TUN

datatype if_driver =
    If_zmq string int "string option" int int
  | If_kiss string int
  | If_can string int int
  | If_eth string int bool
  | If_udp string int int
  | If_tun int int

record csp_iface =
  iface_name :: "string option"
  iface_driver :: if_driver
  iface_addr :: int
  iface_netmask :: int
  iface_is_default :: int

record init_state =
  iflist :: "csp_iface list"
  ifidx :: "if_class \<Rightarrow> int"
  csp_aliases :: "(int \<times> csp_iface) list"
  csp_routes :: "string list"

text \<open>What the library and the system fix: the size of an interface name, the default ports of the proxy, whether a driver opens, and whether
  memory is left.\<close>

record if_world =
  IFLIST_NAME_MAX :: nat
  ZMQPROXY_SUBSCRIBE_PORT :: int
  ZMQPROXY_PUBLISH_PORT :: int
  opens :: "if_driver \<Rightarrow> int \<Rightarrow> bool"
  memory_left :: bool

fun if_prefix :: "if_class \<Rightarrow> string" where
  "if_prefix ZMQ = ''ZMQ''"
| "if_prefix KISS = ''KISS''"
| "if_prefix CAN = ''CAN''"
| "if_prefix ETH = ''ETH''"
| "if_prefix UDP = ''UDP''"
| "if_prefix TUN = ''TUN''"

text \<open>\<open>snprintf(name, CSP_IFLIST_NAME_MAX, "ZMQ%u", ifidx)\<close>.\<close>

definition if_name :: "nat \<Rightarrow> if_class \<Rightarrow> int \<Rightarrow> string" where
  "if_name name_max cls idx = take (name_max - 1) (if_prefix cls @ show_nat (nat (to_uint32 idx)))"

text \<open>What all six do once the driver opened: fill in the interface and count it.\<close>

definition add_iface ::
  "if_class \<Rightarrow> string option \<Rightarrow> if_driver \<Rightarrow> int \<Rightarrow> int \<Rightarrow> int \<Rightarrow> init_state \<Rightarrow> init_state" where
  "add_iface cls name driver addr netmask dfl st =
     st\<lparr>iflist := iflist st @ [\<lparr>iface_name = name, iface_driver = driver, iface_addr = addr,
          iface_netmask = netmask, iface_is_default = dfl\<rparr>],
        ifidx := (ifidx st)(cls := ifidx st cls + 1)\<rparr>"

text \<open>The address argument, \<open>None\<close> if it is no number.\<close>

definition addr_argument :: "string \<Rightarrow> int option" where
  "addr_argument arg = (let (addr, endptr) = strtoul 10 arg in if endptr \<noteq> [] then None else Some (to_uint32 addr))"

section \<open>ZMQ\<close>

record zmq_opts =
  zmq_promisc :: int
  zmq_mask :: int
  zmq_dfl :: int
  zmq_key_file :: "string option"
  zmq_subport :: int
  zmq_pubport :: int

text \<open>The path of the key file goes into an array of 256 bytes, a leading tilde replaced by the home directory;
  \<open>getenv\<close> may return the null pointer.\<close>

definition key_path :: "string option \<Rightarrow> string \<Rightarrow> string c_result" where
  "key_path home key_file =
     (if char_at key_file 0 = CHR ''~'' then
        (case home of
           None \<Rightarrow> Inl Null_Deref
         | Some h \<Rightarrow> if length h + length (tl key_file) + 1 > 256 then Inl Out_Of_Bounds else Inr (h @ tl key_file))
      else if length key_file + 1 > 256 then Inl Out_Of_Bounds
      else Inr key_file)"

abbreviation CURVE_KEYLEN :: nat where "CURVE_KEYLEN \<equiv> 41"

text \<open>\<open>fgets\<close> reads the first line, as far as it fits; it fails on an empty file. The newline is removed.\<close>

definition read_key :: "string \<Rightarrow> string option" where
  "read_key contents =
     (if contents = [] then None
      else Some (takeWhile (\<lambda>c. c \<noteq> CHR 0x0A) (c_string (take (CURVE_KEYLEN - 1) contents))))"

definition zmq_key ::
  "if_world \<Rightarrow> string option \<Rightarrow> (string \<Rightarrow> string option) \<Rightarrow> string option \<Rightarrow> string option option c_result" where
  "zmq_key w home contents key_file =
     (case key_file of
        None \<Rightarrow> Inr (Some None)
      | Some f \<Rightarrow>
          (case key_path home f of
             Inl e \<Rightarrow> Inl e
           | Inr path \<Rightarrow>
               (case contents path of
                  None \<Rightarrow> Inr None
                | Some text \<Rightarrow>
                    if \<not> memory_left w then Inr None
                    else
                      (case read_key text of
                         None \<Rightarrow> Inr None
                       | Some key \<Rightarrow> Inr (Some (Some key))))))"

definition csp_ifadd_zmq_cmd ::
  "if_world \<Rightarrow> string option \<Rightarrow> (string \<Rightarrow> string option) \<Rightarrow> zmq_opts optparse \<Rightarrow> init_state \<Rightarrow> string list
     \<Rightarrow> (slash_ret \<times> init_state) c_result"
where
  "csp_ifadd_zmq_cmd w home contents parser st argv =
     (let name = if_name (IFLIST_NAME_MAX w) ZMQ (ifidx st ZMQ);
          (argi, opts) = optparse_parse parser
            \<lparr>zmq_promisc = 0, zmq_mask = 8, zmq_dfl = 0, zmq_key_file = None, zmq_subport = 0, zmq_pubport = 0\<rparr> argv
      in if argi < 0 then Inr (SLASH_EINVAL, st)
         else if argi + 1 \<ge> argc argv then Inr (SLASH_EINVAL, st)
         else
           (case addr_argument (nth_arg argv (argi + 1)) of
              None \<Rightarrow> Inr (SLASH_EINVAL, st)
            | Some addr \<Rightarrow>
                if argi + 2 \<ge> argc argv then Inr (SLASH_EINVAL, st)
                else
                  (let server = nth_arg argv (argi + 2);
                       subport = (if zmq_subport opts = 0 then ZMQPROXY_SUBSCRIBE_PORT w + (if zmq_key_file opts = None then 0 else 1)
                                  else zmq_subport opts);
                       pubport = (if zmq_pubport opts = 0 then ZMQPROXY_PUBLISH_PORT w + (if zmq_key_file opts = None then 0 else 1)
                                  else zmq_pubport opts)
                   in (case zmq_key w home contents (zmq_key_file opts) of
                         Inl f \<Rightarrow> Inl f
                       | Inr None \<Rightarrow> Inr (SLASH_EINVAL, st)
                       | Inr (Some sec_key) \<Rightarrow>
                           (let driver = If_zmq server (zmq_promisc opts) sec_key subport pubport
                            in if \<not> opens w driver addr then Inr (SLASH_EINVAL, st)
                               else Inr (SLASH_SUCCESS,
                                         add_iface ZMQ (Some name) driver addr (zmq_mask opts) (zmq_dfl opts) st))))))"

section \<open>KISS, CAN and Ethernet\<close>

record kiss_opts =
  kiss_mask :: int
  kiss_dfl :: int
  kiss_baud :: int
  kiss_device :: string

definition csp_ifadd_kiss_cmd ::
  "if_world \<Rightarrow> kiss_opts optparse \<Rightarrow> init_state \<Rightarrow> string list \<Rightarrow> slash_ret \<times> init_state" where
  "csp_ifadd_kiss_cmd w parser st argv =
     (let name = if_name (IFLIST_NAME_MAX w) KISS (ifidx st KISS);
          (argi, opts) = optparse_parse parser
            \<lparr>kiss_mask = 8, kiss_dfl = 0, kiss_baud = 1000000, kiss_device = ''/dev/ttyUSB0''\<rparr> argv
      in if argi < 0 then (SLASH_EINVAL, st)
         else if argi + 1 \<ge> argc argv then (SLASH_EINVAL, st)
         else
           (case addr_argument (nth_arg argv (argi + 1)) of
              None \<Rightarrow> (SLASH_EINVAL, st)
            | Some addr \<Rightarrow>
                (let driver = If_kiss (kiss_device opts) (kiss_baud opts)
                 in if \<not> opens w driver addr then (SLASH_EINVAL, st)
                    else (SLASH_SUCCESS, add_iface KISS (Some name) driver addr (kiss_mask opts) (kiss_dfl opts) st))))"

record can_opts =
  can_promisc :: int
  can_mask :: int
  can_dfl :: int
  can_baud :: int
  can_device :: string

definition csp_ifadd_can_cmd ::
  "if_world \<Rightarrow> can_opts optparse \<Rightarrow> init_state \<Rightarrow> string list \<Rightarrow> slash_ret \<times> init_state" where
  "csp_ifadd_can_cmd w parser st argv =
     (let name = if_name (IFLIST_NAME_MAX w) CAN (ifidx st CAN);
          (argi, opts) = optparse_parse parser
            \<lparr>can_promisc = 0, can_mask = 8, can_dfl = 0, can_baud = 1000000, can_device = ''can0''\<rparr> argv
      in if argi < 0 then (SLASH_EINVAL, st)
         else if argi + 1 \<ge> argc argv then (SLASH_EINVAL, st)
         else
           (case addr_argument (nth_arg argv (argi + 1)) of
              None \<Rightarrow> (SLASH_EINVAL, st)
            | Some addr \<Rightarrow>
                (let driver = If_can (can_device opts) (can_baud opts) (can_promisc opts)
                 in if \<not> opens w driver addr then (SLASH_EINVAL, st)
                    else (SLASH_SUCCESS, add_iface CAN (Some name) driver addr (can_mask opts) (can_dfl opts) st))))"

text \<open>The addresses \<open>getifaddrs\<close> lists: whether there is an address, and the interface's name; \<open>None\<close> if the call
  fails. The first match is copied into 20 bytes.\<close>

fun select_interface :: "string \<Rightarrow> (bool \<times> string) list \<Rightarrow> string \<Rightarrow> string" where
  "select_interface device [] selected = selected"
| "select_interface device ((has_addr, ifa_name) # addresses) selected =
     (if char_at selected 0 \<noteq> NUL then selected
      else if has_addr \<and> ifa_name \<noteq> ''lo'' \<and> strncmp_eq device ifa_name (length device) then
        select_interface device addresses (take 19 ifa_name)
      else select_interface device addresses selected)"

definition eth_select_interface :: "(bool \<times> string) list option \<Rightarrow> string \<Rightarrow> string" where
  "eth_select_interface addresses device =
     (case addresses of None \<Rightarrow> [] | Some as \<Rightarrow> select_interface device as [])"

record eth_opts =
  eth_device :: string
  eth_promisc :: int
  eth_mask :: int
  eth_dfl :: int
  eth_mtu :: int

definition csp_ifadd_eth_cmd ::
  "if_world \<Rightarrow> (bool \<times> string) list option \<Rightarrow> eth_opts optparse \<Rightarrow> init_state \<Rightarrow> string list \<Rightarrow> slash_ret \<times> init_state"
where
  "csp_ifadd_eth_cmd w addresses parser st argv =
     (let name = if_name (IFLIST_NAME_MAX w) ETH (ifidx st ETH);
          (argi, opts) = optparse_parse parser
            \<lparr>eth_device = ''e'', eth_promisc = 0, eth_mask = 8, eth_dfl = 0, eth_mtu = 1200\<rparr> argv
      in if argi < 0 then (SLASH_EINVAL, st)
         else if argi + 1 \<ge> argc argv then (SLASH_EINVAL, st)
         else
           (case addr_argument (nth_arg argv (argi + 1)) of
              None \<Rightarrow> (SLASH_EINVAL, st)
            | Some addr \<Rightarrow>
                (let device = eth_select_interface addresses (eth_device opts)
                 in if length device = 0 then (SLASH_EINVAL, st)
                    else
                      (let driver = If_eth device (eth_mtu opts) (eth_promisc opts = 1)
                       in if \<not> opens w driver addr then (SLASH_EINVAL, st)
                          else (SLASH_SUCCESS,
                                add_iface ETH (Some name) driver addr (eth_mask opts) (eth_dfl opts) st)))))"

section \<open>UDP and tunnels\<close>

record udp_opts =
  udp_promisc :: int
  udp_mask :: int
  udp_dfl :: int
  udp_listen_port :: int
  udp_remote_port :: int

definition csp_ifadd_udp_cmd ::
  "if_world \<Rightarrow> udp_opts optparse \<Rightarrow> init_state \<Rightarrow> string list \<Rightarrow> slash_ret \<times> init_state" where
  "csp_ifadd_udp_cmd w parser st argv =
     (let name = if_name (IFLIST_NAME_MAX w) UDP (ifidx st UDP);
          (argi, opts) = optparse_parse parser
            \<lparr>udp_promisc = 0, udp_mask = 8, udp_dfl = 0, udp_listen_port = 9220, udp_remote_port = 9220\<rparr> argv
      in if argi < 0 then (SLASH_EINVAL, st)
         else if argi + 1 \<ge> argc argv then (SLASH_EINVAL, st)
         else
           (case addr_argument (nth_arg argv (argi + 1)) of
              None \<Rightarrow> (SLASH_EINVAL, st)
            | Some addr \<Rightarrow>
                if argi + 2 \<ge> argc argv then (SLASH_EINVAL, st)
                else if \<not> memory_left w then (SLASH_EINVAL, st)
                else
                  (let driver = If_udp (nth_arg argv (argi + 2)) (udp_listen_port opts) (udp_remote_port opts)
                   in (SLASH_SUCCESS, add_iface UDP (Some name) driver addr (udp_mask opts) (udp_dfl opts) st))))"

record tun_opts =
  tun_promisc :: int
  tun_mask :: int
  tun_dfl :: int

text \<open>The name of a tunnel is computed and dropped: the pointer to the name keeps what the memory allocated for the
  interface held before, here the argument \<open>stale\<close>, \<open>None\<close> if that leads to no string. The other two numbers are
  not checked.\<close>

definition csp_ifadd_tun_cmd ::
  "if_world \<Rightarrow> string option \<Rightarrow> tun_opts optparse \<Rightarrow> init_state \<Rightarrow> string list \<Rightarrow> slash_ret \<times> init_state" where
  "csp_ifadd_tun_cmd w stale parser st argv =
     (let (argi, opts) = optparse_parse parser \<lparr>tun_promisc = 0, tun_mask = 8, tun_dfl = 0\<rparr> argv
      in if argi < 0 then (SLASH_EINVAL, st)
         else if argi + 1 \<ge> argc argv then (SLASH_EINVAL, st)
         else
           (case addr_argument (nth_arg argv (argi + 1)) of
              None \<Rightarrow> (SLASH_EINVAL, st)
            | Some addr \<Rightarrow>
                if argi + 2 \<ge> argc argv then (SLASH_EINVAL, st)
                else
                  (let tun_src = to_uint32 (fst (strtoul 10 (nth_arg argv (argi + 2)))) in
                   if argi + 3 \<ge> argc argv then (SLASH_EINVAL, st)
                   else
                     (let tun_dst = to_uint32 (fst (strtoul 10 (nth_arg argv (argi + 3))))
                      in if \<not> memory_left w then (SLASH_EINVAL, st)
                         else (SLASH_SUCCESS,
                               add_iface TUN stale (If_tun tun_src tun_dst) addr (tun_mask opts) (tun_dfl opts) st)))))"

section \<open>Aliases and routes\<close>

text \<open>\<open>by_name\<close> is the library's look-up, null when there is no such interface; \<open>has_alias\<close> is whether the driver
  provides the function to add an alias. Neither pointer is checked.\<close>

definition csp_ifadd_alias_cmd ::
  "bool \<Rightarrow> (csp_iface list \<Rightarrow> string \<Rightarrow> csp_iface option) \<Rightarrow> (if_driver \<Rightarrow> bool) \<Rightarrow> unit optparse \<Rightarrow> init_state
     \<Rightarrow> string list \<Rightarrow> (slash_ret \<times> init_state) c_result"
where
  "csp_ifadd_alias_cmd mem by_name has_alias parser st argv =
     (let (argi, opts) = optparse_parse parser () argv
      in if argi < 0 then Inr (SLASH_EINVAL, st)
         else if argi + 1 \<ge> argc argv then Inr (SLASH_EINVAL, st)
         else
           (let addr = to_uint32 (fst (strtoul 10 (nth_arg argv (argi + 1)))) in
            if argi + 2 \<ge> argc argv then Inr (SLASH_EINVAL, st)
            else if \<not> mem then Inr (SLASH_EINVAL, st)
            else
              (case by_name (iflist st) (nth_arg argv (argi + 2)) of
                 None \<Rightarrow> Inl Null_Deref
               | Some iface \<Rightarrow>
                   if \<not> has_alias (iface_driver iface) then Inl Null_Deref
                   else Inr (SLASH_SUCCESS, st\<lparr>csp_aliases := csp_aliases st @ [(addr, iface)]\<rparr>))))"

text \<open>The route is put together in an array of 50 bytes: the two arguments and a space between them. \<open>load\<close> is how
  many routes the library found in the text.\<close>

definition csp_routeadd_cmd ::
  "(string \<Rightarrow> int) \<Rightarrow> unit optparse \<Rightarrow> init_state \<Rightarrow> string list \<Rightarrow> (slash_ret \<times> init_state) c_result" where
  "csp_routeadd_cmd load parser st argv =
     (let (argi, opts) = optparse_parse parser () argv
      in if argi < 0 then Inr (SLASH_EINVAL, st)
         else if argi + 1 \<ge> argc argv then Inr (SLASH_EINVAL, st)
         else if length (nth_arg argv (argi + 1)) + 2 > 50 then Inl Out_Of_Bounds
         else
           (let route = nth_arg argv (argi + 1) @ '' '' in
            if argi + 2 \<ge> argc argv then Inr (SLASH_EINVAL, st)
            else if length route + length (nth_arg argv (argi + 2)) + 1 > 50 then Inl Out_Of_Bounds
            else
              (let route = route @ nth_arg argv (argi + 2)
               in if load route = 1 then Inr (SLASH_SUCCESS, st\<lparr>csp_routes := csp_routes st @ [route]\<rparr>)
                  else Inr (SLASH_EINVAL, st))))"

section \<open>Sequences of commands\<close>

text \<open>One command of the file, with its result; only the size of a name is the same for all of them.\<close>

inductive if_step :: "nat \<Rightarrow> slash_ret \<Rightarrow> init_state \<Rightarrow> init_state \<Rightarrow> bool" for n where
  step_zmq: "IFLIST_NAME_MAX w = n \<Longrightarrow> csp_ifadd_zmq_cmd w home contents pz st argv = Inr (r, st') \<Longrightarrow> if_step n r st st'"
| step_kiss: "IFLIST_NAME_MAX w = n \<Longrightarrow> csp_ifadd_kiss_cmd w pk st argv = (r, st') \<Longrightarrow> if_step n r st st'"
| step_can: "IFLIST_NAME_MAX w = n \<Longrightarrow> csp_ifadd_can_cmd w pc st argv = (r, st') \<Longrightarrow> if_step n r st st'"
| step_eth: "IFLIST_NAME_MAX w = n \<Longrightarrow> csp_ifadd_eth_cmd w addresses pe st argv = (r, st') \<Longrightarrow> if_step n r st st'"
| step_udp: "IFLIST_NAME_MAX w = n \<Longrightarrow> csp_ifadd_udp_cmd w pu st argv = (r, st') \<Longrightarrow> if_step n r st st'"
| step_tun: "IFLIST_NAME_MAX w = n \<Longrightarrow> csp_ifadd_tun_cmd w stale pt st argv = (r, st') \<Longrightarrow> if_step n r st st'"
| step_alias: "csp_ifadd_alias_cmd mem by_name has_alias pa st argv = Inr (r, st') \<Longrightarrow> if_step n r st st'"
| step_route: "csp_routeadd_cmd load pa st argv = Inr (r, st') \<Longrightarrow> if_step n r st st'"

definition no_ifaces :: init_state where
  "no_ifaces = \<lparr>iflist = [], ifidx = (\<lambda>cls. 0), csp_aliases = [], csp_routes = []\<rparr>"

inductive if_reachable :: "nat \<Rightarrow> init_state \<Rightarrow> bool" for n where
  reach_start: "if_reachable n no_ifaces"
| reach_step: "if_reachable n st \<Longrightarrow> if_step n r st st' \<Longrightarrow> if_reachable n st'"

definition is_tunnel :: "if_driver \<Rightarrow> bool" where
  "is_tunnel driver = (case driver of If_tun src dst \<Rightarrow> True | _ \<Rightarrow> False)"

text \<open>The names of the interfaces that are no tunnels.\<close>

definition iface_names :: "init_state \<Rightarrow> string option list" where
  "iface_names st = map iface_name (filter (\<lambda>ifc. \<not> is_tunnel (iface_driver ifc)) (iflist st))"

section \<open>Properties\<close>

text \<open>What a command can do: refuse and change nothing, add an interface, or add an alias or a route.\<close>

definition if_effect :: "nat \<Rightarrow> slash_ret \<Rightarrow> init_state \<Rightarrow> init_state \<Rightarrow> bool" where
  "if_effect n r st st' \<longleftrightarrow>
     r = SLASH_EINVAL \<and> st' = st \<or>
     r = SLASH_SUCCESS \<and> (\<exists>cls nm driver addr msk dfl.
        (is_tunnel driver \<or> nm = Some (if_name n cls (ifidx st cls))) \<and>
        st' = add_iface cls nm driver addr msk dfl st) \<or>
     r = SLASH_SUCCESS \<and> (\<exists>as rs. st' = st\<lparr>csp_aliases := as, csp_routes := rs\<rparr>)"

lemma if_effect_add:
  "is_tunnel driver \<or> nm = Some (if_name n cls (ifidx st cls)) \<Longrightarrow>
   if_effect n SLASH_SUCCESS st (add_iface cls nm driver addr msk dfl st)"
  unfolding if_effect_def by blast

lemma if_effect_refuse [simp]: "if_effect n SLASH_EINVAL st st"
  by (simp add: if_effect_def)

lemma if_effect_alias: "if_effect n SLASH_SUCCESS st (st\<lparr>csp_aliases := as\<rparr>)"
proof -
  have "st\<lparr>csp_aliases := as\<rparr> = st\<lparr>csp_aliases := as, csp_routes := csp_routes st\<rparr>" by simp
  then show ?thesis unfolding if_effect_def by blast
qed

lemma if_effect_route: "if_effect n SLASH_SUCCESS st (st\<lparr>csp_routes := rs\<rparr>)"
proof -
  have "st\<lparr>csp_routes := rs\<rparr> = st\<lparr>csp_aliases := csp_aliases st, csp_routes := rs\<rparr>" by simp
  then show ?thesis unfolding if_effect_def by blast
qed

lemma if_step_effect: "if_step n r st st' \<Longrightarrow> if_effect n r st st'"
proof (induction rule: if_step.induct)
  case (step_zmq w home contents pz st argv r st')
  then show ?case
    by (auto simp: csp_ifadd_zmq_cmd_def Let_def if_effect_add split: prod.splits if_splits option.splits sum.splits)
next
  case (step_kiss w pk st argv r st')
  then show ?case
    by (auto simp: csp_ifadd_kiss_cmd_def Let_def if_effect_add split: prod.splits if_splits option.splits)
next
  case (step_can w pc st argv r st')
  then show ?case
    by (auto simp: csp_ifadd_can_cmd_def Let_def if_effect_add split: prod.splits if_splits option.splits)
next
  case (step_eth w addresses pe st argv r st')
  then show ?case
    by (auto simp: csp_ifadd_eth_cmd_def Let_def if_effect_add split: prod.splits if_splits option.splits)
next
  case (step_udp w pu st argv r st')
  then show ?case
    by (auto simp: csp_ifadd_udp_cmd_def Let_def if_effect_add split: prod.splits if_splits option.splits)
next
  case (step_tun w stale pt st argv r st')
  then show ?case
    by (auto simp: csp_ifadd_tun_cmd_def Let_def if_effect_add is_tunnel_def split: prod.splits if_splits option.splits)
next
  case (step_alias mem by_name has_alias pa st argv r st')
  then show ?case
    by (auto simp: csp_ifadd_alias_cmd_def Let_def if_effect_alias split: prod.splits if_splits option.splits)
next
  case (step_route load pa st argv r st')
  then show ?case
    by (auto simp: csp_routeadd_cmd_def Let_def if_effect_route split: prod.splits if_splits)
qed

text \<open>Different counters give different names, as long as the digits fit.\<close>

lemma if_prefix_head: "hd (if_prefix cls) = hd (if_prefix cls') \<Longrightarrow> cls = cls'" "if_prefix cls \<noteq> []" "length (if_prefix cls) \<le> 4"
  by (cases cls; cases cls'; simp)+

lemma if_name_whole:
  assumes "6 \<le> n" "n \<le> 14" "0 \<le> k" "k < 10 ^ (n - 5)"
  shows "if_name n cls k = if_prefix cls @ show_nat (nat k)"
proof -
  have "(10 :: int) ^ (n - 5) \<le> 10 ^ 9" using assms(1,2) by (intro power_increasing) auto
  with assms(3,4) have "to_uint32 k = k" by (intro to_uint32_id) auto
  moreover have "nat k < 10 ^ (n - 5)" using assms(3,4) by (simp add: nat_less_iff)
  then have "length (show_nat (nat k)) \<le> n - 5" using assms(1) by (intro length_show_nat_le) auto
  then have "length (if_prefix cls @ show_nat (nat k)) \<le> n - 1"
    using if_prefix_head(3) [of cls] assms(1) unfolding length_append by linarith
  ultimately show ?thesis by (simp add: if_name_def)
qed

lemma if_name_inj:
  assumes "6 \<le> n" "n \<le> 14" "0 \<le> k" "k < 10 ^ (n - 5)" "0 \<le> k'" "k' < 10 ^ (n - 5)"
    and "if_name n cls k = if_name n cls' k'"
  shows "cls = cls' \<and> k = k'"
proof -
  have eq: "if_prefix cls @ show_nat (nat k) = if_prefix cls' @ show_nat (nat k')"
    using assms by (simp add: if_name_whole)
  then have "hd (if_prefix cls) = hd (if_prefix cls')"
    using if_prefix_head(2) [of cls] if_prefix_head(2) [of cls'] by (metis hd_append2)
  then have cls: "cls = cls'" by (rule if_prefix_head)
  with eq have "show_nat (nat k) = show_nat (nat k')" by simp
  then have "nat k = nat k'" by (metis num_val_show_nat)
  with cls assms(3,5) show ?thesis by simp
qed

definition if_inv :: "nat \<Rightarrow> init_state \<Rightarrow> bool" where
  "if_inv n st \<longleftrightarrow>
     (\<forall>cls. 0 \<le> ifidx st cls) \<and>
     (\<forall>nm \<in> set (iface_names st). \<exists>cls k. 0 \<le> k \<and> k < ifidx st cls \<and> nm = Some (if_name n cls k)) \<and>
     ((\<forall>cls. ifidx st cls \<le> 10 ^ (n - 5)) \<longrightarrow> distinct (iface_names st))"

lemma iface_names_add:
  "iface_names (add_iface cls nm driver addr msk dfl st) =
     iface_names st @ (if is_tunnel driver then [] else [nm])"
  by (simp add: iface_names_def add_iface_def)

lemma ifidx_add: "ifidx (add_iface cls nm driver addr msk dfl st) = (ifidx st)(cls := ifidx st cls + 1)"
  by (simp add: add_iface_def)

lemma if_inv_add:
  assumes inv: "if_inv n st" and n: "6 \<le> n" "n \<le> 14"
    and nm: "is_tunnel driver \<or> nm = Some (if_name n cls (ifidx st cls))"
  shows "if_inv n (add_iface cls nm driver addr msk dfl st)"
proof -
  let ?st = "add_iface cls nm driver addr msk dfl st"
  have pos: "\<forall>c. 0 \<le> ifidx st c"
    and old: "\<forall>x \<in> set (iface_names st). \<exists>c k. 0 \<le> k \<and> k < ifidx st c \<and> x = Some (if_name n c k)"
    and dist: "(\<forall>c. ifidx st c \<le> 10 ^ (n - 5)) \<Longrightarrow> distinct (iface_names st)"
    using inv by (auto simp: if_inv_def)
  have mono: "ifidx st c \<le> ifidx ?st c" for c by (simp add: ifidx_add)
  have "\<exists>c k. 0 \<le> k \<and> k < ifidx ?st c \<and> x = Some (if_name n c k)" if "x \<in> set (iface_names ?st)" for x
  proof (cases "x \<in> set (iface_names st)")
    case True
    then show ?thesis using old mono by (meson less_le_trans)
  next
    case False
    with that nm have "x = Some (if_name n cls (ifidx st cls))" by (auto simp: iface_names_add split: if_splits)
    then show ?thesis using pos by (intro exI [of _ cls] exI [of _ "ifidx st cls"]) (simp add: ifidx_add)
  qed
  moreover have "distinct (iface_names ?st)" if b: "\<forall>c. ifidx ?st c \<le> 10 ^ (n - 5)"
  proof -
    have le: "ifidx st c \<le> 10 ^ (n - 5)" for c using b mono order_trans by blast
    have lt: "ifidx st cls < 10 ^ (n - 5)" using b [THEN spec, of cls] by (simp add: ifidx_add)
    have "Some (if_name n cls (ifidx st cls)) \<notin> set (iface_names st)"
    proof
      assume "Some (if_name n cls (ifidx st cls)) \<in> set (iface_names st)"
      then obtain c k where k: "0 \<le> k" "k < ifidx st c" "if_name n cls (ifidx st cls) = if_name n c k"
        using old by auto
      have "k < 10 ^ (n - 5)" using k(2) le [of c] by linarith
      with if_name_inj [OF n _ lt k(1) _ k(3)] pos k(2) show False by auto
    qed
    then show ?thesis using dist le nm by (auto simp: iface_names_add)
  qed
  moreover have "\<forall>c. 0 \<le> ifidx ?st c" using pos mono order_trans by blast
  ultimately show ?thesis unfolding if_inv_def by blast
qed

lemma if_inv_step:
  assumes "if_inv n st" "6 \<le> n" "n \<le> 14" "if_step n r st st'"
  shows "if_inv n st'"
  using if_step_effect [OF assms(4)] if_inv_add [OF assms(1-3)] assms(1)
  unfolding if_effect_def by (elim disjE conjE exE) (simp_all add: if_inv_def iface_names_def)

text \<open>
  C12: After any sequence of set-up commands, with any options, arguments and answers of the drivers, every interface
  that is no tunnel has a name and no two of them have the same, as long as no command added more interfaces than the
  size of a name leaves digits for (with the library's 10 bytes, 100000 of one kind). For tunnels nothing of the kind
  holds: the pointer to their name is never set, so here it leads to any string or to none.
\<close>

theorem iface_names_distinct:
  assumes "if_reachable n st" "6 \<le> n" "n \<le> 14" "\<forall>cls. ifidx st cls \<le> 10 ^ (n - 5)"
  shows "distinct (iface_names st) \<and> None \<notin> set (iface_names st)"
proof -
  have "if_inv n st"
    using assms(1)
  proof (induction rule: if_reachable.induct)
    case reach_start
    show ?case by (simp add: if_inv_def no_ifaces_def iface_names_def)
  next
    case (reach_step st r st')
    then show ?case using if_inv_step assms(2,3) by blast
  qed
  with assms(4) show ?thesis by (auto simp: if_inv_def)
qed

abbreviation demo_if_world :: if_world where
  "demo_if_world \<equiv> \<lparr>IFLIST_NAME_MAX = 10, ZMQPROXY_SUBSCRIBE_PORT = 6000, ZMQPROXY_PUBLISH_PORT = 7000,
     opens = (\<lambda>driver addr. True), memory_left = True\<rparr>"

definition demo_udp :: "init_state \<Rightarrow> init_state" where
  "demo_udp st = snd (csp_ifadd_udp_cmd demo_if_world (\<lambda>opts args. (0, opts)) st [''udp'', ''5'', ''host''])"

lemma demo_udp_step: "if_step 10 SLASH_SUCCESS st (demo_udp st)"
proof (rule step_udp [where w = demo_if_world and pu = "\<lambda>opts args. (0, opts)" and argv = "[''udp'', ''5'', ''host'']"])
  have "addr_argument ''5'' = Some 5" by code_simp
  then show "csp_ifadd_udp_cmd demo_if_world (\<lambda>opts args. (0, opts)) st [''udp'', ''5'', ''host''] = (SLASH_SUCCESS, demo_udp st)"
    by (simp add: demo_udp_def csp_ifadd_udp_cmd_def optparse_parse_def nth_arg_def Let_def)
qed simp

lemma demo_udp_idx: "ifidx (demo_udp st) = (ifidx st)(UDP := ifidx st UDP + 1)"
proof -
  have "addr_argument ''5'' = Some 5" by code_simp
  then show ?thesis
    by (simp add: demo_udp_def csp_ifadd_udp_cmd_def optparse_parse_def nth_arg_def Let_def ifidx_add)
qed

theorem iface_names_distinct_witness:
  "distinct (iface_names (demo_udp (demo_udp no_ifaces))) \<and> None \<notin> set (iface_names (demo_udp (demo_udp no_ifaces)))"
proof (rule iface_names_distinct [of 10])
  show "if_reachable 10 (demo_udp (demo_udp no_ifaces))"
    using demo_udp_step reach_start reach_step by metis
  show "\<forall>cls. ifidx (demo_udp (demo_udp no_ifaces)) cls \<le> 10 ^ (10 - 5)"
    by (simp add: demo_udp_idx no_ifaces_def)
qed simp_all

text \<open>A tunnel whose memory still points to the name of a UDP interface has that interface's name.\<close>

lemma tunnel_name_stale:
  assumes "memory_left w" "fst (csp_ifadd_tun_cmd w (Some nm) (\<lambda>opts args. (0, opts)) st [cmd, a, s, d]) = SLASH_SUCCESS"
  shows "iface_name (last (iflist (snd (csp_ifadd_tun_cmd w (Some nm) (\<lambda>opts args. (0, opts)) st [cmd, a, s, d])))) = Some nm"
  using assms
  by (auto simp: csp_ifadd_tun_cmd_def optparse_parse_def nth_arg_def Let_def add_iface_def split: option.splits)

text \<open>
  The device of an Ethernet interface is the first one in the system's list that has an address, is not the
  loopback device and whose name starts with the text given, cut to 19 characters; without one the text is empty.
\<close>

theorem eth_select_interface_first:
  assumes "list_all (\<lambda>(has_addr, nm). nul_free nm) as"
  shows "eth_select_interface (Some as) device =
     (case find (\<lambda>(has_addr, nm). has_addr \<and> nm \<noteq> ''lo'' \<and> prefix device nm \<and> nm \<noteq> []) as of
        None \<Rightarrow> [] | Some (has_addr, nm) \<Rightarrow> take 19 nm)"
proof -
  have stop: "select_interface device as sel = sel" if "char_at sel 0 \<noteq> NUL" for as sel
    using that by (cases as) auto
  have pre: "strncmp_eq device nm (length device) \<longleftrightarrow> prefix device nm" for nm
    by (auto simp: strncmp_eq_def prefix_def) (metis append_take_drop_id)
  have "select_interface device as [] =
     (case find (\<lambda>(has_addr, nm). has_addr \<and> nm \<noteq> ''lo'' \<and> prefix device nm \<and> nm \<noteq> []) as of
        None \<Rightarrow> [] | Some (has_addr, nm) \<Rightarrow> take 19 nm)"
    using assms
  proof (induction as)
    case (Cons a as)
    obtain h nm where a: "a = (h, nm)" by (cases a)
    have "char_at (take 19 nm) 0 \<noteq> NUL" if "nm \<noteq> []"
      using that Cons.prems a by (cases nm) (auto simp: char_at_def)
    with Cons a stop show ?case by (cases "nm = []") (auto simp: pre char_at_def)
  qed simp
  then show ?thesis by (simp add: eth_select_interface_def)
qed

theorem eth_select_interface_first_witness:
  "eth_select_interface (Some [(True, ''lo''), (False, ''enp1''), (True, ''enp2''), (True, ''eth0'')]) ''e'' = ''enp2''"
  using eth_select_interface_first [of "[(True, ''lo''), (False, ''enp1''), (True, ''enp2''), (True, ''eth0'')]" "''e''"]
  by (simp add: nul_free_def)

text \<open>
  Adding a route hands the library the two arguments with a space between them and succeeds if it found one
  route, changing nothing else; but the array it is put together in holds 49 characters, and a longer route is
  written behind its end.
\<close>

theorem routeadd_bounds:
  "csp_routeadd_cmd load (\<lambda>opts args. (0, opts)) st [cmd, a, b] =
     (if length a + length b + 2 > 50 then Inl Out_Of_Bounds
      else if load (a @ '' '' @ b) = 1 then Inr (SLASH_SUCCESS, st\<lparr>csp_routes := csp_routes st @ [a @ '' '' @ b]\<rparr>)
      else Inr (SLASH_EINVAL, st))"
  by (simp add: csp_routeadd_cmd_def optparse_parse_def nth_arg_def Let_def)

text \<open>An alias on an interface that does not exist dereferences the null pointer of the look-up.\<close>

lemma alias_unknown_interface:
  "by_name (iflist st) ifname = None \<Longrightarrow>
   csp_ifadd_alias_cmd True by_name has_alias (\<lambda>opts args. (0, opts)) st [cmd, addr, ifname] = Inl Null_Deref"
  by (simp add: csp_ifadd_alias_cmd_def optparse_parse_def nth_arg_def Let_def)

end
