(* ===== verification/Ring_Clients.thy ===== *)
theory Ring_Clients
  imports Slash_Base
begin

text \<open>
  The clients of the ring buffers a node keeps its output in: \<open>stdbuf\<close> (\<open>src/stdbuf_client.c\<close>; the older copy
  \<open>src/stdbuf_mon.c\<close>) and \<open>resbuf\<close> (\<open>src/resbuf_dump.c\<close>). The node's memory areas, parameters and packets come through
  the CSP and parameter libraries and are arguments.
\<close>

section \<open>The area of a buffer\<close>

record vmem_entry =
  vmem_name :: string
  vmem_vaddr :: int
  vmem_size :: int

definition no_vmem :: vmem_entry where
  "no_vmem = \<lparr>vmem_name = [], vmem_vaddr = 0, vmem_size = 0\<rparr>"

text \<open>The walk over the node's list, \<open>None\<close> without a reply: the last entry whose name starts with the five
  characters wins.\<close>

fun last_matching :: "string \<Rightarrow> vmem_entry list \<Rightarrow> vmem_entry \<Rightarrow> vmem_entry" where
  "last_matching pre [] ret = ret"
| "last_matching pre (vmem # rest) ret =
     last_matching pre rest
       (if strncmp_eq (vmem_name vmem) pre 5
        then \<lparr>vmem_name = take 5 (vmem_name vmem), vmem_vaddr = vmem_vaddr vmem, vmem_size = vmem_size vmem\<rparr>
        else ret)"

definition stdbuf_get_base :: "vmem_entry list option \<Rightarrow> vmem_entry" where
  "stdbuf_get_base reply =
     (case reply of None \<Rightarrow> no_vmem | Some entries \<Rightarrow> last_matching ''stdbu'' entries no_vmem)"

definition resbuf_get_base :: "vmem_entry list option \<Rightarrow> vmem_entry" where
  "resbuf_get_base reply =
     (case reply of None \<Rightarrow> no_vmem | Some entries \<Rightarrow> last_matching ''resbu'' entries no_vmem)"

section \<open>Dumping a result buffer\<close>

text \<open>The loop prints a byte, steps and wraps to the first byte behind the two counters. \<open>out\<close> is 16 bits wide; \<open>None\<close>
  is a loop that never ends.\<close>

partial_function (option) resbuf_loop ::
  "8 word list \<Rightarrow> nat \<Rightarrow> nat \<Rightarrow> 8 word list \<Rightarrow> 8 word list c_result option" where
  "resbuf_loop data inp out printed =
     (if out \<ge> length data then Some (Inl Out_Of_Bounds)
      else
        (let printed = printed @ [data ! out];
             out = (out + 1) mod 65536;
             out = (if out \<ge> length data then 4 else out)
         in if out = inp then Some (Inr printed) else resbuf_loop data inp out printed))"

definition le16 :: "8 word list \<Rightarrow> nat \<Rightarrow> nat" where
  "le16 data i = unat (data ! i) + 256 * unat (data ! (i + 1))"

record resbuf_opts =
  resbuf_node :: int
  resbuf_filename :: "string option"

text \<open>\<open>reply\<close> is the list of areas of a node, \<open>download\<close> the bytes of an area, as many as its size.\<close>

definition resbuf_dump_slash ::
  "(int \<Rightarrow> vmem_entry list option) \<Rightarrow> (int \<Rightarrow> vmem_entry \<Rightarrow> 8 word list) \<Rightarrow> slash_defaults \<Rightarrow> resbuf_opts optparse
     \<Rightarrow> string list \<Rightarrow> (slash_ret \<times> 8 word list) c_result option"
where
  "resbuf_dump_slash reply download dfl parser argv =
     (let (argi, opts) = optparse_parse parser \<lparr>resbuf_node = slash_dfl_node dfl, resbuf_filename = None\<rparr> argv
      in if argi < 0 then Some (Inr (SLASH_EINVAL, []))
         else
           (let vmem = resbuf_get_base (reply (resbuf_node opts))
            in if vmem_size vmem = 0 \<or> vmem_vaddr vmem = 0 then Some (Inr (SLASH_EINVAL, []))
               else
                 (let data = download (resbuf_node opts) vmem
                  in if length data < 4 then Some (Inl Out_Of_Bounds)
                     else
                       (let inp = le16 data 0; out = le16 data 2
                        in if int inp > vmem_size vmem then Some (Inr (SLASH_EINVAL, []))
                           else if int out > vmem_size vmem then Some (Inr (SLASH_EINVAL, []))
                           else
                             (case resbuf_loop data inp out [] of
                                None \<Rightarrow> None
                              | Some (Inl f) \<Rightarrow> Some (Inl f)
                              | Some (Inr printed) \<Rightarrow> Some (Inr (SLASH_SUCCESS, printed)))))))"

section \<open>Monitoring a standard buffer by its counters\<close>

text \<open>What the node does in the \<open>k\<close>-th round: the two counters after pulling them, given the value last pushed to the
  second; the bytes of a peek, \<open>None\<close> without an answer; whether the user ends the monitoring.\<close>

record stdbuf_world =
  sb_pull :: "nat \<Rightarrow> int \<Rightarrow> int \<times> int"
  sb_peek :: "nat \<Rightarrow> int \<Rightarrow> int \<Rightarrow> 8 word list option"
  sb_interrupt :: "nat \<Rightarrow> bool"

text \<open>At most 200 bytes; a negative length would be written as a huge one. The result is the length and the bytes
  printed.\<close>

definition stdbuf_get ::
  "stdbuf_world \<Rightarrow> nat \<Rightarrow> int \<Rightarrow> int \<Rightarrow> int \<Rightarrow> (int \<times> 8 word list) c_result" where
  "stdbuf_get w k base start to =
     (let len = to - start; len = (if len > 200 then 200 else len) in
      case sb_peek w k (to_uint32 (base + start)) (uint (word_of_int len :: 8 word)) of
        None \<Rightarrow> Inr (0, [])
      | Some data \<Rightarrow> if len < 0 then Inl Out_Of_Bounds else Inr (len, take (nat len) data))"

text \<open>One round: what was read and printed, and the value pushed back.\<close>

definition stdbuf_round ::
  "stdbuf_world \<Rightarrow> nat \<Rightarrow> int \<Rightarrow> int \<Rightarrow> int \<Rightarrow> (int \<times> int \<times> 8 word list) c_result" where
  "stdbuf_round w k base area_size pushed =
     (let (inp, out) = sb_pull w k pushed in
      case (if out < inp then stdbuf_get w k base out inp
            else if out > inp then stdbuf_get w k base out area_size
            else Inr (0, [])) of
        Inl f \<Rightarrow> Inl f
      | Inr (got, bytes) \<Rightarrow> Inr (got, (out + got) mod 65536 mod area_size, bytes))"

partial_function (option) stdbuf_loop ::
  "stdbuf_world \<Rightarrow> int \<Rightarrow> int \<Rightarrow> nat \<Rightarrow> int \<Rightarrow> 8 word list \<Rightarrow> (int \<times> 8 word list) c_result option" where
  "stdbuf_loop w base area_size k pushed printed =
     (case stdbuf_round w k base area_size pushed of
        Inl f \<Rightarrow> Some (Inl f)
      | Inr (got, out_push, bytes) \<Rightarrow>
          if got > 0 then stdbuf_loop w base area_size (Suc k) out_push (printed @ bytes)
          else if sb_interrupt w k then Some (Inr (out_push, printed @ bytes))
          else stdbuf_loop w base area_size (Suc k) out_push (printed @ bytes))"

definition stdbuf_v1 ::
  "stdbuf_world \<Rightarrow> vmem_entry list option \<Rightarrow> int \<Rightarrow> (slash_ret \<times> 8 word list) c_result option" where
  "stdbuf_v1 w reply pushed =
     (let vmem = stdbuf_get_base reply
      in if vmem_size vmem = 0 \<or> vmem_vaddr vmem = 0 then Some (Inr (SLASH_EINVAL, []))
         else
           (case stdbuf_loop w (vmem_vaddr vmem) (vmem_size vmem) 0 pushed [] of
              None \<Rightarrow> None
            | Some (Inl f) \<Rightarrow> Some (Inl f)
            | Some (Inr (out_push, printed)) \<Rightarrow> Some (Inr (SLASH_SUCCESS, printed))))"

text \<open>The older command is the same without the choice of a version.\<close>

record mon_opts =
  mon_node :: int
  mon_timeout :: int
  mon_version :: int

definition stdbuf_mon_slash ::
  "stdbuf_world \<Rightarrow> (int \<Rightarrow> vmem_entry list option) \<Rightarrow> int \<Rightarrow> slash_defaults \<Rightarrow> mon_opts optparse \<Rightarrow> string list
     \<Rightarrow> (slash_ret \<times> 8 word list) c_result option"
where
  "stdbuf_mon_slash w reply pushed dfl parser argv =
     (let (argi, opts) = optparse_parse parser
            \<lparr>mon_node = slash_dfl_node dfl, mon_timeout = slash_dfl_timeout dfl, mon_version = 2\<rparr> argv
      in if argi < 0 then Some (Inr (SLASH_EINVAL, []))
         else stdbuf_v1 w (reply (mon_node opts)) pushed)"

section \<open>Streaming a standard buffer\<close>

definition isprint :: "8 word \<Rightarrow> bool" where
  "isprint b \<longleftrightarrow> 32 \<le> unat b \<and> unat b < 127"

definition is_line_end :: "8 word \<Rightarrow> bool" where
  "is_line_end b \<longleftrightarrow> b = 13 \<or> b = 10"

definition hex_nibble :: "nat \<Rightarrow> char" where
  "hex_nibble d = char_of (if d < 10 then 48 + d else 87 + d)"

text \<open>The text of a packet in the log: a run of line ends becomes one newline, another byte that cannot be printed
  its value.\<close>

function log_text :: "8 word list \<Rightarrow> string" where
  "log_text [] = []"
| "log_text (b # bs) =
     (if isprint b then char_of (unat b) # log_text bs
      else if is_line_end b then CHR 0x0A # log_text (dropWhile is_line_end (b # bs))
      else ''0x'' @ [hex_nibble (unat b div 16), hex_nibble (unat b mod 16)] @ log_text bs)"
  by pat_completeness auto
termination
proof (relation "measure length")
  fix b :: "8 word" and bs
  assume "is_line_end b"
  then show "(dropWhile is_line_end (b # bs), b # bs) \<in> measure length"
    using length_dropWhile_le [of is_line_end bs] by (simp add: less_Suc_eq_le)
qed auto

text \<open>Numbering a log file: the first number from 1 whose name is free, else the last, 99. \<open>ts\<close> is the date.\<close>

definition numbered_log :: "string \<Rightarrow> string \<Rightarrow> nat \<Rightarrow> string" where
  "numbered_log base ts i =
     take 98 ((if length base > 0 then base else ''csh'') @ ''_'' @ ts @ ''_'' @
       (let s = show_nat i in replicate (3 - length s) (CHR ''0'') @ s) @ ''.log'')"

fun free_log :: "(string \<Rightarrow> bool) \<Rightarrow> string \<Rightarrow> string \<Rightarrow> nat list \<Rightarrow> string \<Rightarrow> string" where
  "free_log exists base ts [] log_name = log_name"
| "free_log exists base ts (i # is) log_name =
     (if \<not> exists (numbered_log base ts i) then numbered_log base ts i
      else free_log exists base ts is (numbered_log base ts i))"

definition choose_log :: "(string \<Rightarrow> bool) \<Rightarrow> string \<Rightarrow> string \<Rightarrow> string \<Rightarrow> string" where
  "choose_log exists ts log_name logfile =
     (if length logfile > 0 \<and> char_at logfile 0 = CHR ''?'' then
        free_log exists (tl logfile) ts [1..<100] log_name
      else take 99 logfile)"

definition log_header :: "string \<Rightarrow> string" where
  "log_header ts = [CHR 0x0A, CHR 0x0A] @ '' --- CSH log start '' @ ts @ '' ------------'' @ [CHR 0x0A]"

text \<open>The open log file and its name survive the command; a file that cannot be opened is written to all the same.\<close>

record log_state =
  log_open :: bool
  log_name :: string
  log_written :: "(string \<times> string) list"

definition open_log ::
  "(string \<Rightarrow> bool) \<Rightarrow> (string \<Rightarrow> bool) \<Rightarrow> string \<Rightarrow> string option \<Rightarrow> log_state \<Rightarrow> log_state c_result" where
  "open_log exists can_open ts logfile st =
     (case logfile of
        None \<Rightarrow> Inr st
      | Some f \<Rightarrow>
          (let st = (if f \<noteq> log_name st then st\<lparr>log_open := False\<rparr> else st)
           in if log_open st then Inr st
              else
                (let nm = choose_log exists ts (log_name st) f
                 in if \<not> can_open nm then Inl Null_Deref
                    else Inr (st\<lparr>log_open := True, log_name := nm,
                           log_written := log_written st @ [(nm, log_header ts)]\<rparr>))))"

text \<open>The first byte of a packet tells whether another one follows.\<close>

fun stream_packets :: "8 word list list \<Rightarrow> log_state \<Rightarrow> 8 word list \<Rightarrow> (log_state \<times> 8 word list) c_result" where
  "stream_packets [] st printed = Inr (st, printed)"
| "stream_packets (packet # packets) st printed =
     (case packet of
        [] \<Rightarrow> Inl Out_Of_Bounds
      | again # bytes \<Rightarrow>
          (let printed = printed @ bytes;
               st = (if log_open st then st\<lparr>log_written := log_written st @ [(log_name st, log_text bytes)]\<rparr> else st)
           in if again = 0 then Inr (st, printed) else stream_packets packets st printed))"

definition stdbuf_v2 ::
  "(string \<Rightarrow> bool) \<Rightarrow> (string \<Rightarrow> bool) \<Rightarrow> string \<Rightarrow> bool \<Rightarrow> 8 word list list \<Rightarrow> string option \<Rightarrow> log_state
     \<Rightarrow> (slash_ret \<times> log_state \<times> 8 word list) c_result"
where
  "stdbuf_v2 exists can_open ts connected packets logfile st =
     (case open_log exists can_open ts logfile st of
        Inl f \<Rightarrow> Inl f
      | Inr st \<Rightarrow>
          if \<not> connected then Inr (SLASH_ENOMEM, st, [])
          else
            (case stream_packets packets st [] of
               Inl f \<Rightarrow> Inl f
             | Inr (st, printed) \<Rightarrow> Inr (SLASH_SUCCESS, st, printed)))"

record stdbuf_opts =
  stdbuf_node :: int
  stdbuf_timeout :: int
  stdbuf_version :: int
  stdbuf_paramversion :: int
  stdbuf_logfile :: "string option"

definition stdbuf_slash ::
  "stdbuf_world \<Rightarrow> (int \<Rightarrow> vmem_entry list option) \<Rightarrow> int \<Rightarrow> (string \<Rightarrow> bool) \<Rightarrow> (string \<Rightarrow> bool) \<Rightarrow> string \<Rightarrow> bool
     \<Rightarrow> 8 word list list \<Rightarrow> slash_defaults \<Rightarrow> stdbuf_opts optparse \<Rightarrow> log_state \<Rightarrow> string list
     \<Rightarrow> (slash_ret \<times> log_state \<times> 8 word list) c_result option"
where
  "stdbuf_slash w reply pushed exists can_open ts connected packets dfl parser st argv =
     (let (argi, opts) = optparse_parse parser
            \<lparr>stdbuf_node = slash_dfl_node dfl, stdbuf_timeout = slash_dfl_timeout dfl, stdbuf_version = 2,
             stdbuf_paramversion = 2, stdbuf_logfile = None\<rparr> argv
      in if argi < 0 then Some (Inr (SLASH_EINVAL, st, []))
         else if stdbuf_version opts = 2 then
           Some (stdbuf_v2 exists can_open ts connected packets (stdbuf_logfile opts) st)
         else if stdbuf_version opts = 1 then
           (case stdbuf_v1 w (reply (stdbuf_node opts)) pushed of
              None \<Rightarrow> None
            | Some (Inl f) \<Rightarrow> Some (Inl f)
            | Some (Inr (ret, printed)) \<Rightarrow> Some (Inr (ret, st, printed)))
         else Some (Inr (SLASH_EUSAGE, st, [])))"

section \<open>Properties\<close>

text \<open>The elements of a list from one index up to another.\<close>

definition segment :: "'a list \<Rightarrow> nat \<Rightarrow> nat \<Rightarrow> 'a list" where
  "segment xs i j = take (j - i) (drop i xs)"

lemma segment_self [simp]: "segment xs i i = []"
  by (simp add: segment_def)

lemma segment_head: "i < j \<Longrightarrow> j \<le> length xs \<Longrightarrow> segment xs i j = xs ! i # segment xs (Suc i) j"
  by (simp add: segment_def Cons_nth_drop_Suc [symmetric] take_Cons' Suc_diff_Suc [symmetric])

lemma segment_split: "i \<le> j \<Longrightarrow> j \<le> k \<Longrightarrow> segment xs i k = segment xs i j @ segment xs j k"
proof -
  assume "i \<le> j" "j \<le> k"
  then have "k - i = (j - i) + (k - j)" "drop (j - i) (drop i xs) = drop j xs" by simp_all
  then show ?thesis by (simp add: segment_def take_add)
qed

subsection \<open>The result buffer\<close>

lemma resbuf_loop_up:
  assumes "length data \<le> 65535" "inp < length data"
  shows "out < inp \<Longrightarrow> resbuf_loop data inp out printed = Some (Inr (printed @ segment data out inp))"
proof (induction "inp - out" arbitrary: out printed)
  case (Suc m)
  then have "(out + 1) mod 65536 = Suc out" "Suc out < length data" using assms by simp_all
  moreover have "segment data out inp = data ! out # segment data (Suc out) inp"
    using Suc.prems assms(2) by (intro segment_head) auto
  ultimately show ?case
    using Suc assms by (subst resbuf_loop.simps) (auto simp: Let_def)
qed simp

lemma resbuf_loop_round:
  assumes "length data \<le> 65535" "4 \<le> inp" "inp < length data"
  shows "inp \<le> out \<Longrightarrow> out < length data \<Longrightarrow>
    resbuf_loop data inp out printed = Some (Inr (printed @ drop out data @ segment data 4 inp))"
proof (induction "length data - out" arbitrary: out printed)
  case (Suc m)
  have mod: "(out + 1) mod 65536 = Suc out" using Suc.prems assms(1) by simp
  have hd: "drop out data = data ! out # drop (Suc out) data"
    using Suc.prems by (simp add: Cons_nth_drop_Suc)
  show ?case
  proof (cases "Suc out < length data")
    case True
    then have "resbuf_loop data inp (Suc out) (printed @ [data ! out]) =
        Some (Inr ((printed @ [data ! out]) @ drop (Suc out) data @ segment data 4 inp))"
      using Suc.hyps Suc.prems by (intro Suc.hyps(1)) auto
    then show ?thesis using True Suc.prems mod hd by (subst resbuf_loop.simps) (simp add: Let_def)
  next
    case False
    then have "drop (Suc out) data = []" by simp
    with False show ?thesis
      using Suc.prems mod hd assms resbuf_loop_up [OF assms(1,3), of 4 "printed @ [data ! out]"]
      by (subst resbuf_loop.simps) (auto simp: Let_def)
  qed
qed simp

lemma resbuf_loop_endless:
  assumes "resbuf_loop data inp out printed = Some r"
  shows "\<not> (4 < length data \<and> length data \<le> 65535 \<and> out < length data \<and>
            (length data \<le> inp \<or> inp < 4 \<and> inp \<le> out))"
proof (rule resbuf_loop.raw_induct [OF _ assms, where P = "\<lambda>data inp out printed r.
    \<not> (4 < length data \<and> length data \<le> 65535 \<and> out < length data \<and> (length data \<le> inp \<or> inp < 4 \<and> inp \<le> out))"],
    rule notI)
  fix f data inp out printed r
  assume IH: "\<And>data inp out printed r. f data inp out printed = Some r \<Longrightarrow>
      \<not> (4 < length data \<and> length data \<le> 65535 \<and> out < length data \<and> (length data \<le> inp \<or> inp < 4 \<and> inp \<le> out))"
    and body: "(if length data \<le> out then Some (Inl Out_Of_Bounds)
       else let printed = printed @ [data ! out]; out = (out + 1) mod 65536;
              out = if length data \<le> out then 4 else out
            in if out = inp then Some (Inr printed) else f data inp out printed) = Some r"
    and H: "4 < length data \<and> length data \<le> 65535 \<and> out < length data \<and> (length data \<le> inp \<or> inp < 4 \<and> inp \<le> out)"
  have mod: "(out + 1) mod 65536 = Suc out" using H by simp
  define out' where "out' = (if length data \<le> Suc out then 4 else Suc out)"
  have ne: "out' < length data \<and> out' \<noteq> inp \<and> (length data \<le> inp \<or> inp < 4 \<and> inp \<le> out')"
    using H by (auto simp: out'_def)
  then have "f data inp out' (printed @ [data ! out]) = Some r"
    using body H mod by (simp add: Let_def out'_def)
  from IH [OF this] show False using H ne by blast
qed

text \<open>
  Dumping a result buffer of at most 65535 bytes comes to an end exactly if the first counter lies in the
  buffer and either behind the two counters or ahead of the second one: a node whose counter equals the size of
  the buffer, which the command accepts, makes it print for ever.
\<close>

theorem resbuf_returns:
  assumes "4 < length data" "length data \<le> 65535" "out < length data"
  shows "(\<exists>r. resbuf_loop data inp out printed = Some r) \<longleftrightarrow> inp < length data \<and> (4 \<le> inp \<or> out < inp)"
proof
  assume "\<exists>r. resbuf_loop data inp out printed = Some r"
  then obtain r where "resbuf_loop data inp out printed = Some r" by blast
  from resbuf_loop_endless [OF this] show "inp < length data \<and> (4 \<le> inp \<or> out < inp)"
    using assms by auto
next
  assume "inp < length data \<and> (4 \<le> inp \<or> out < inp)"
  then show "\<exists>r. resbuf_loop data inp out printed = Some r"
    using resbuf_loop_up [OF assms(2)] resbuf_loop_round [OF assms(2) _ _ _ assms(3)]
    by (metis le_less_linear)
qed

theorem resbuf_returns_witness: "resbuf_loop (replicate 8 0) 8 4 [] = None"
  using resbuf_returns [of "replicate 8 0" 4 8 "[]"] by simp

text \<open>
  What is printed are the bytes from the second counter up to the first, around the end of the buffer to the
  byte behind the counters where the first is not ahead; equal counters mean a full ring, all of which is printed,
  never an empty one.
\<close>

theorem resbuf_prints_ring:
  assumes "length data \<le> 65535" "4 \<le> inp" "inp < length data" "out < length data"
  shows "resbuf_loop data inp out [] =
     Some (Inr (if out < inp then segment data out inp else drop out data @ segment data 4 inp))"
  using resbuf_loop_up [OF assms(1,3), of out "[]"] resbuf_loop_round [OF assms(1-3), of out "[]"] assms(4) by simp

theorem resbuf_prints_ring_witness: "resbuf_loop [0, 0, 0, 0, 1, 2, 3, 4] 5 6 [] = Some (Inr [3, 4, 1])"
  using resbuf_prints_ring [of "[0, 0, 0, 0, 1, 2, 3, 4]" 5 6] by (simp add: segment_def)

subsection \<open>The standard buffer\<close>

text \<open>A node that writes nothing meanwhile: the counters stay as they are but for what the shell pushes, and peeks
  read the ring at \<open>base\<close>. \<open>intr\<close> is whether the user would end the monitoring in a round.\<close>

definition quiet_node :: "(nat \<Rightarrow> bool) \<Rightarrow> int \<Rightarrow> 8 word list \<Rightarrow> int \<Rightarrow> stdbuf_world" where
  "quiet_node intr base ring inp =
     \<lparr>sb_pull = (\<lambda>k pushed. (inp, pushed)),
      sb_peek = (\<lambda>k addr len. Some (take (nat len) (drop (nat (addr - base)) ring))),
      sb_interrupt = intr\<rparr>"

lemma quiet_get:
  assumes "0 \<le> base" "base + int (length ring) \<le> 4294967296" "0 \<le> out" "out < to" "to \<le> int (length ring)"
  shows "stdbuf_get (quiet_node intr base ring inp) k base out to =
     Inr (min 200 (to - out), segment ring (nat out) (nat (out + min 200 (to - out))))"
proof -
  define len where "len = min 200 (to - out)"
  have len: "0 < len" "len \<le> 200" "(if to - out > 200 then 200 else to - out) = len"
    using assms by (simp_all add: len_def)
  have "to_uint32 (base + out) = base + out" using assms by (intro to_uint32_id) auto
  moreover have "uint (word_of_int len :: 8 word) = len"
    using len by (simp add: unsigned_of_int take_bit_int_eq_self)
  moreover have "nat (out + len) - nat out = nat len" using assms len by simp
  ultimately have "stdbuf_get (quiet_node intr base ring inp) k base out to = Inr (len, segment ring (nat out) (nat (out + len)))"
    using len unfolding stdbuf_get_def Let_def len(3) segment_def by (simp only: quiet_node_def stdbuf_world.simps) simp
  then show ?thesis by (simp add: len_def)
qed

text \<open>What is pending in a ring.\<close>

definition pending :: "8 word list \<Rightarrow> nat \<Rightarrow> nat \<Rightarrow> 8 word list" where
  "pending ring out inp =
     (if out \<le> inp then segment ring out inp else drop out ring @ segment ring 0 inp)"

text \<open>With nothing left the loop waits until the user ends it.\<close>

lemma stdbuf_loop_idle:
  assumes "0 \<le> inp" "inp < int (length ring)" "length ring \<le> 65535" "intr (k + n)"
  shows "stdbuf_loop (quiet_node intr base ring inp) base (int (length ring)) k inp printed = Some (Inr (inp, printed))"
  using assms(4)
proof (induction n arbitrary: k)
  case 0
  have "stdbuf_round (quiet_node intr base ring inp) k base (int (length ring)) inp = Inr (0, inp, [])"
    using assms by (simp add: stdbuf_round_def quiet_node_def)
  with 0 show ?case by (subst stdbuf_loop.simps) (simp add: quiet_node_def)
next
  case (Suc n)
  have "stdbuf_round (quiet_node intr base ring inp) k base (int (length ring)) inp = Inr (0, inp, [])"
    using assms by (simp add: stdbuf_round_def quiet_node_def)
  moreover have "stdbuf_loop (quiet_node intr base ring inp) base (int (length ring)) (Suc k) inp printed = Some (Inr (inp, printed))"
    using Suc by simp
  ultimately show ?case by (subst stdbuf_loop.simps) simp
qed

lemma stdbuf_loop_up:
  assumes "0 \<le> base" "base + int (length ring) \<le> 4294967296" "length ring \<le> 65535" "0 \<le> inp" "inp < int (length ring)"
    and intr: "\<And>n. \<exists>m. intr (n + m)"
  shows "0 \<le> out \<Longrightarrow> out \<le> inp \<Longrightarrow>
     stdbuf_loop (quiet_node intr base ring inp) base (int (length ring)) k out printed =
       Some (Inr (inp, printed @ segment ring (nat out) (nat inp)))"
proof (induction "nat (inp - out)" arbitrary: out k printed rule: less_induct)
  case less
  show ?case
  proof (cases "out = inp")
    case True
    obtain m where "intr (k + m)" using intr by blast
    from stdbuf_loop_idle [where intr = intr and k = k and n = m, OF assms(4,5,3) this] True show ?thesis by simp
  next
    case False
    define len where "len = min 200 (inp - out)"
    have lt: "out < inp" using False less.prems by simp
    have len: "0 < len" "out + len \<le> inp" using lt by (simp_all add: len_def)
    have "stdbuf_get (quiet_node intr base ring inp) k base out inp = Inr (len, segment ring (nat out) (nat (out + len)))"
      using quiet_get [OF assms(1,2) less.prems(1) lt] assms(5) by (simp add: len_def)
    moreover have "(out + len) mod 65536 mod int (length ring) = out + len"
      using less.prems len assms by simp
    ultimately have "stdbuf_round (quiet_node intr base ring inp) k base (int (length ring)) out =
        Inr (len, out + len, segment ring (nat out) (nat (out + len)))"
      using lt by (simp add: stdbuf_round_def) (simp add: quiet_node_def)
    then have "stdbuf_loop (quiet_node intr base ring inp) base (int (length ring)) k out printed =
        stdbuf_loop (quiet_node intr base ring inp) base (int (length ring)) (Suc k) (out + len)
          (printed @ segment ring (nat out) (nat (out + len)))"
      using len by (subst stdbuf_loop.simps) simp
    also have "\<dots> = Some (Inr (inp, (printed @ segment ring (nat out) (nat (out + len))) @
        segment ring (nat (out + len)) (nat inp)))"
      using less.prems len lt by (intro less.hyps) auto
    also have "segment ring (nat out) (nat inp) =
        segment ring (nat out) (nat (out + len)) @ segment ring (nat (out + len)) (nat inp)"
      using less.prems len by (intro segment_split) auto
    ultimately show ?thesis by simp
  qed
qed

lemma stdbuf_loop_wrap:
  assumes "0 \<le> base" "base + int (length ring) \<le> 4294967296" "length ring \<le> 65535" "0 \<le> inp" "inp < int (length ring)"
    and intr: "\<And>n. \<exists>m. intr (n + m)"
  shows "inp < out \<Longrightarrow> out < int (length ring) \<Longrightarrow>
     stdbuf_loop (quiet_node intr base ring inp) base (int (length ring)) k out printed =
       Some (Inr (inp, printed @ drop (nat out) ring @ segment ring 0 (nat inp)))"
proof (induction "nat (int (length ring) - out)" arbitrary: out k printed rule: less_induct)
  case less
  define len where "len = min 200 (int (length ring) - out)"
  have pos: "0 \<le> out" using less.prems assms by simp
  have len: "0 < len" "out + len \<le> int (length ring)" using less.prems by (simp_all add: len_def)
  have got: "stdbuf_get (quiet_node intr base ring inp) k base out (int (length ring)) =
      Inr (len, segment ring (nat out) (nat (out + len)))"
    using quiet_get [OF assms(1,2) pos less.prems(2)] by (simp add: len_def)
  have whole: "drop (nat out) ring = segment ring (nat out) (nat (out + len)) @ drop (nat (out + len)) ring"
    using segment_split [of "nat out" "nat (out + len)" "length ring" ring] pos len by (simp add: segment_def)
  define next_out where "next_out = (out + len) mod 65536 mod int (length ring)"
  have "stdbuf_round (quiet_node intr base ring inp) k base (int (length ring)) out =
      Inr (len, next_out, segment ring (nat out) (nat (out + len)))"
    using got less.prems by (simp add: stdbuf_round_def next_out_def) (simp add: quiet_node_def)
  then have step: "stdbuf_loop (quiet_node intr base ring inp) base (int (length ring)) k out printed =
      stdbuf_loop (quiet_node intr base ring inp) base (int (length ring)) (Suc k) next_out
        (printed @ segment ring (nat out) (nat (out + len)))"
    using len by (subst stdbuf_loop.simps) simp
  show ?case
  proof (cases "out + len < int (length ring)")
    case True
    then have "next_out = out + len" using pos len assms(3) by (simp add: next_out_def)
    then have "stdbuf_loop (quiet_node intr base ring inp) base (int (length ring)) (Suc k) next_out
        (printed @ segment ring (nat out) (nat (out + len))) =
        Some (Inr (inp, (printed @ segment ring (nat out) (nat (out + len))) @ drop (nat (out + len)) ring @
          segment ring 0 (nat inp)))"
      using less.prems len True by (simp only:) (intro less.hyps, auto)
    with step whole show ?thesis by simp
  next
    case False
    then have eq: "out + len = int (length ring)" using len by simp
    then have "next_out = 0" using assms(3) by (simp add: next_out_def)
    then show ?thesis
      using step stdbuf_loop_up [OF assms, of 0 "Suc k"] assms(4) whole eq by simp
  qed
qed

text \<open>
  C11: Monitoring a standard buffer drains it: on a node that answers and writes nothing meanwhile, whose two counters lie
  in its ring (of at most 65535 bytes), the command prints exactly the bytes that are pending, each once and in order,
  makes the second counter equal to the first, and comes to its end when the user ends the monitoring, which is looked
  at only in rounds in which nothing was left: any such round will do, and there must be one. (A counter beyond the
  ring's end makes the length negative and the write huge.)
\<close>

theorem stdbuf_drains:
  assumes "0 \<le> base" "base + int (length ring) \<le> 4294967296" "length ring \<le> 65535"
    and "0 \<le> inp" "inp < int (length ring)" "0 \<le> out" "out < int (length ring)"
    and "\<And>n. \<exists>m. intr (n + m)"
  shows "stdbuf_loop (quiet_node intr base ring inp) base (int (length ring)) 0 out [] =
     Some (Inr (inp, pending ring (nat out) (nat inp)))"
proof (cases "out \<le> inp")
  case True
  with nat_mono [OF True] show ?thesis
    using stdbuf_loop_up [OF assms(1-5,8), of out] assms(6) by (simp add: pending_def)
next
  case False
  then have "\<not> nat out \<le> nat inp" using assms(4,6) by linarith
  with False show ?thesis
    using stdbuf_loop_wrap [OF assms(1-5,8), of out] assms(7) by (simp add: pending_def)
qed

theorem stdbuf_drains_witness:
  "stdbuf_loop (quiet_node (\<lambda>k. k \<ge> 7) 64 [1, 2, 3, 4] 1) 64 4 0 2 [] = Some (Inr (1, [3, 4, 1]))"
proof -
  have "\<exists>m. (\<lambda>k. k \<ge> 7) (n + m)" for n :: nat by (rule exI [of _ 7]) simp
  from stdbuf_drains [of 64 "[1, 2, 3, 4]" 1 2 "\<lambda>k. k \<ge> 7", OF _ _ _ _ _ _ _ this]
  show ?thesis by (simp add: pending_def segment_def)
qed

subsection \<open>The log\<close>

definition log_char :: "char \<Rightarrow> bool" where
  "log_char c \<longleftrightarrow> 32 \<le> (of_char c :: nat) \<and> (of_char c :: nat) < 127"

lemma log_char_not_newline: "log_char c \<Longrightarrow> c \<noteq> CHR 0x0A"
  by (auto simp: log_char_def)

lemma log_char_hex: "d < 16 \<Longrightarrow> log_char (hex_nibble d)"
  by (simp add: log_char_def hex_nibble_def)

lemma log_char_print: "isprint b \<Longrightarrow> log_char (char_of (unat b))"
  by (simp add: log_char_def isprint_def)

lemma log_char_0x: "log_char (CHR ''0'')" "log_char (CHR ''x'')"
  by (simp_all add: log_char_def)

lemma byte_nibbles: "unat b div 16 < 16" "unat b mod 16 < 16" for b :: "8 word"
  using unsigned_less [of b, where ?'a = nat] by simp_all

lemma log_text_head:
  "bs = [] \<or> \<not> is_line_end (hd bs) \<Longrightarrow> log_text bs = [] \<or> log_char (hd (log_text bs))"
  by (cases bs) (auto simp: log_char_print log_char_0x)

lemma dropWhile_head: "dropWhile P xs = [] \<or> \<not> P (hd (dropWhile P xs))"
  by (induction xs) auto

text \<open>
  Whatever bytes a node streams, the log gets only printable ASCII characters and newlines, and never two
  newlines in a row out of one packet.
\<close>

theorem log_text_printable:
  "list_all (\<lambda>c. c = CHR 0x0A \<or> 32 \<le> (of_char c :: nat) \<and> (of_char c :: nat) < 127) (log_text bs) \<and>
   successively (\<lambda>c d. \<not> (c = CHR 0x0A \<and> d = CHR 0x0A)) (log_text bs)"
  unfolding log_char_def [symmetric]
proof (induction bs rule: log_text.induct)
  case (2 b bs)
  note cons = successively_Cons
  show ?case
  proof (cases "isprint b")
    case True
    then show ?thesis
      using 2(1) log_char_print [OF True] log_char_not_newline [OF log_char_print [OF True]] by (auto simp: cons)
  next
    case np: False
    show ?thesis
    proof (cases "is_line_end b")
      case True
      then show ?thesis
        using 2(2) np log_text_head [OF dropWhile_head [of is_line_end bs]] log_char_not_newline
        by (auto simp: cons)
    next
      case False
      then show ?thesis
        using 2(3) np log_char_0x log_char_hex [OF byte_nibbles(1), of b] log_char_hex [OF byte_nibbles(2), of b]
          log_char_not_newline [OF log_char_hex [OF byte_nibbles(2), of b]]
          log_char_not_newline [OF log_char_hex [OF byte_nibbles(1), of b]]
        by (auto simp: cons)
    qed
  qed
qed simp

end
