(* ===== verification/Python_Loader.thy ===== *)
theory Python_Loader
  imports Apm Run_Environment
begin

text \<open>
  The embedded Python of \<open>src/python/python_loader.c\<close>: the hooks around a command, the search path of the interpreter,
  the modules that \<open>apm load\<close> imports in the build with Python, and the \<open>python\<close> command. The interpreter and the linker
  are arguments; the objects it is asked to create are there.
\<close>

section \<open>Hooks around a command\<close>

datatype py_exception = Keyboard_Interrupt | System_exit | Other_exception

record py_state =
  py_initialized :: bool
  py_error :: "py_exception option"
  exception_allowed :: bool
  py_printed :: nat

text \<open>An exception between commands can only be an interrupt; that is asserted. Printing an exception clears it, but printing a
  request to exit, which \<open>sys.exit\<close> raises, ends the process: then there is no state any more.\<close>

definition on_python_slash_execute_pre_hook :: "py_state \<Rightarrow> py_state c_result" where
  "on_python_slash_execute_pre_hook st =
     (if \<not> py_initialized st then Inr st
      else
        (if py_error st \<noteq> None \<and> py_error st \<noteq> Some Keyboard_Interrupt then Inl Assert_Failed
         else Inr (st\<lparr>py_error := None, exception_allowed := True\<rparr>)))"

definition PyErr_Print :: "py_state \<Rightarrow> py_state option" where
  "PyErr_Print st =
     (if py_error st = Some System_exit then None else Some (st\<lparr>py_error := None, py_printed := py_printed st + 1\<rparr>))"

definition on_python_slash_execute_post_hook :: "py_state \<Rightarrow> py_state option" where
  "on_python_slash_execute_post_hook st =
     (if \<not> py_initialized st then Some st
      else
        (case (case py_error st of
                 None \<Rightarrow> Some st
               | Some Keyboard_Interrupt \<Rightarrow> Some (st\<lparr>py_error := None\<rparr>)
               | _ \<Rightarrow> PyErr_Print st) of
           None \<Rightarrow> None
         | Some st \<Rightarrow> Some (st\<lparr>exception_allowed := False\<rparr>)))"

text \<open>The handler of an interrupt in \<open>src/main.c\<close>, which passes it to Python only while a command runs.\<close>

datatype sigint_call = Old_handler | Slash_sigint | Vmem_client_abort

definition sigint_handler :: "bool \<Rightarrow> py_state \<Rightarrow> sigint_call list" where
  "sigint_handler has_old_handler st =
     (if exception_allowed st \<and> has_old_handler then [Old_handler] else []) @ [Slash_sigint, Vmem_client_abort]"

section \<open>Starting and ending the interpreter\<close>

text \<open>\<open>sys\<close> and \<open>sys.path\<close> are \<open>None\<close> if they cannot be had. The result is the return value and the path. A home directory
  that is not set is reported, and then printed through the null pointer.\<close>

definition append_pyapm_paths :: "bool \<Rightarrow> string option \<Rightarrow> string list option \<Rightarrow> (int \<times> string list option) c_result" where
  "append_pyapm_paths has_sys home sys_path =
     (if \<not> has_sys then Inr (- 1, sys_path)
      else
        (case sys_path of
           None \<Rightarrow> Inr (- 2, None)
         | Some path \<Rightarrow>
             (let path = ''/usr/lib/csh'' # path;
                  path = (case home of None \<Rightarrow> path | Some h \<Rightarrow> h # path)
              in (case home of
                    None \<Rightarrow> Inl Null_Deref
                  | Some h \<Rightarrow>
                      (let path = (h @ ''/.local/lib/csh'') # path
                       in Inr (0, Some (path @ [''.'']))))))) "

record interpreter =
  py_running :: bool
  main_thread_state :: bool
  py_sys_path :: "string list option"

definition py_init_interpreter :: "bool \<Rightarrow> string option \<Rightarrow> string list option \<Rightarrow> interpreter \<Rightarrow> interpreter c_result" where
  "py_init_interpreter has_sys home initial_path st =
     (if py_running st then Inr st
      else
        (case append_pyapm_paths has_sys home initial_path of
           Inl f \<Rightarrow> Inl f
         | Inr (ret, path) \<Rightarrow> Inr \<lparr>py_running = True, main_thread_state = True, py_sys_path = path\<rparr>))"

text \<open>The threads that get the exception: all but the current one.\<close>

definition raise_exception_in_all_threads :: "nat \<Rightarrow> nat list \<Rightarrow> nat list" where
  "raise_exception_in_all_threads current threads = filter (\<lambda>t. t \<noteq> current) threads"

definition finalize_python_interpreter :: "nat option \<Rightarrow> nat list \<Rightarrow> nat list option" where
  "finalize_python_interpreter tstate threads =
     (case tstate of None \<Rightarrow> None | Some t \<Rightarrow> Some (raise_exception_in_all_threads t threads))"

section \<open>Modules\<close>

text \<open>The text behind the last slash.\<close>

definition behind_slash :: "string \<Rightarrow> string" where
  "behind_slash path = (case strrchr_index path CHR ''/'' of None \<Rightarrow> path | Some i \<Rightarrow> drop (i + 1) path)"

text \<open>The name to import: the last part of the path, also if a slash ends it, up to its first dot. Caches and hidden files
  are not imported.\<close>

definition pymod_file :: "string \<Rightarrow> string" where
  "pymod_file filepath =
     (case strrchr_index filepath CHR ''/'' of
        None \<Rightarrow> filepath
      | Some i \<Rightarrow>
          if char_at filepath (i + 1) = NUL then behind_slash (take i filepath)
          else drop (i + 1) filepath)"

definition pymod_name :: "string \<Rightarrow> string option" where
  "pymod_name filepath =
     (let filename = pymod_file filepath
      in if filename = ''__pycache__'' then None
         else if char_at filename 0 = CHR ''.'' then None
         else Some (takeWhile (\<lambda>c. c \<noteq> CHR ''.'') filename))"

text \<open>What the program asks of the linker and the interpreter.\<close>

datatype py_call =
    Dlopen string
  | Dlclose string
  | Call_symbol string string
  | Import string
  | Call_function string

datatype init_function = Missing | Not_callable | Raises | Asks_to_exit | Returns_value

text \<open>What an attempt to get a module comes to: the module, none, or a request of its code to exit, which ends the process as
  soon as it is printed.\<close>

datatype 'm loaded = Module 'm | No_module | Exit_requested

text \<open>A library gives for a symbol \<open>None\<close> if it does not have it, else what its function comes to.
  \<open>register\<close> is whether the module can be entered in the table of modules.\<close>

record 'm py_world =
  py_dlopen :: "string \<Rightarrow> (string \<Rightarrow> 'm loaded option) option"
  py_register :: "'m \<Rightarrow> bool"
  py_import :: "string \<Rightarrow> 'm loaded"
  py_init_function :: "'m \<Rightarrow> string \<Rightarrow> init_function"

text \<open>The handle is closed when the function is left, whatever way, but not at the end of the process.\<close>

definition pycsh_integrate_pymod :: "'m py_world \<Rightarrow> string \<Rightarrow> 'm loaded \<times> py_call list" where
  "pycsh_integrate_pymod w filepath =
     (case py_dlopen w filepath of
        None \<Rightarrow> (No_module, [Dlopen filepath])
      | Some lib \<Rightarrow>
          (let symbol = ''PyInit_'' @ takeWhile (\<lambda>c. c \<noteq> CHR ''.'') (behind_slash filepath)
           in (case lib symbol of
                 None \<Rightarrow> (No_module, [Dlopen filepath, Dlclose filepath])
               | Some result \<Rightarrow>
                   (let calls = [Dlopen filepath, Call_symbol filepath symbol, Dlclose filepath]
                    in (case result of
                          No_module \<Rightarrow> (No_module, calls)
                        | Exit_requested \<Rightarrow> (Exit_requested, [Dlopen filepath, Call_symbol filepath symbol])
                        | Module m \<Rightarrow> if \<not> py_register w m then (No_module, calls) else (Module m, calls))))))"

definition ends_with :: "string \<Rightarrow> string \<Rightarrow> bool" where
  "ends_with s e \<longleftrightarrow> length s \<ge> length e \<and> drop (length s - length e) s = e"

text \<open>A request to exit that an import raises is printed by the caller, one that the initialisation raises here.\<close>

definition pycsh_load_pymod :: "'m py_world \<Rightarrow> string \<Rightarrow> string option \<Rightarrow> 'm loaded \<times> py_call list" where
  "pycsh_load_pymod w filepath init_function_name =
     (case pymod_name filepath of
        None \<Rightarrow> (No_module, [])
      | Some nm \<Rightarrow>
          (let (pModule, calls) =
             (if ends_with filepath ''.so'' then pycsh_integrate_pymod w filepath else (py_import w nm, [Import nm]))
           in (case pModule of
                 Module m \<Rightarrow>
                   (case init_function_name of
                      None \<Rightarrow> (Module m, calls)
                    | Some f \<Rightarrow>
                        (case py_init_function w m f of
                           Missing \<Rightarrow> (Module m, calls)
                         | Not_callable \<Rightarrow> (No_module, calls)
                         | Raises \<Rightarrow> (No_module, calls @ [Call_function f])
                         | Asks_to_exit \<Rightarrow> (Exit_requested, calls @ [Call_function f])
                         | Returns_value \<Rightarrow> (Module m, calls @ [Call_function f])))
               | none \<Rightarrow> (none, calls))))"

section \<open>Loading modules\<close>

text \<open>The loop over a list of directories; \<open>runner\<close> is the index before it is advanced and \<open>start\<close> that of the current
  name. A semicolon is looked for from the second character of a name on.\<close>

function walk_path_from :: "string \<Rightarrow> nat \<Rightarrow> nat \<Rightarrow> string list" where
  "walk_path_from pathlist runner start =
     (if \<not> runner < length pathlist then []
      else
        (let runner = runner + 1; name = drop start (take runner pathlist)
         in if char_at pathlist runner = CHR '';'' then name # walk_path_from pathlist (runner + 1) (runner + 1)
            else if char_at pathlist runner = NUL then name # walk_path_from pathlist (runner + 1) (runner + 1)
            else walk_path_from pathlist runner start))"
  by pat_completeness auto
termination
  by (relation "measure (\<lambda>(p, r, s). length p - r)") auto

declare walk_path_from.simps [simp del]

definition walk_path_list :: "string \<Rightarrow> string list" where
  "walk_path_list pathlist = walk_path_from pathlist 0 0"

text \<open>The entries of one directory. The name of a file is put directly behind that of the directory, in an array whose
  size is computed from lengths that are cut at \<open>WALKDIR_MAX_PATH_SIZE\<close>. The first component of the result is whether the
  process has ended; the code prints what a module that is not loaded has raised.\<close>

definition pymod_entry :: "int \<Rightarrow> string \<Rightarrow> apm_entry_t" where
  "pymod_entry version fullpath =
     (let p = take (WALKDIR_MAX_PATH_SIZE - 1) fullpath
      in \<lparr>apm_path = p, apm_file = base_name p, apm_version = version, apm_has_info = False\<rparr>)"

fun load_entries ::
  "'m py_world \<Rightarrow> bool \<Rightarrow> int \<Rightarrow> string \<Rightarrow> string option \<Rightarrow> string list \<Rightarrow> apm_entry_t list \<times> py_call list
     \<Rightarrow> (bool \<times> apm_entry_t list \<times> py_call list) c_result"
where
  "load_entries w mem version path search_name [] st = Inr (False, st)"
| "load_entries w mem version path search_name (d_name # rest) (queue, calls) =
     (if (case search_name of None \<Rightarrow> False | Some s \<Rightarrow> strstr d_name s = None) \<or> strstr d_name ''.py'' = None
      then load_entries w mem version path search_name rest (queue, calls)
      else if length path > WALKDIR_MAX_PATH_SIZE then Inl Out_Of_Bounds
      else
        (let fullpath = path @ d_name;
             (pymod, new_calls) = pycsh_load_pymod w fullpath (Some ''apm_init'');
             calls = calls @ new_calls
         in (case pymod of
               Exit_requested \<Rightarrow> Inr (True, queue, calls)
             | No_module \<Rightarrow> load_entries w mem version path search_name rest (queue, calls)
             | Module m \<Rightarrow>
                 if \<not> mem then load_entries w mem version path search_name rest (queue, calls)
                 else load_entries w mem version path search_name rest (apm_queue_add (pymod_entry version fullpath) queue, calls))))"

definition load_py ::
  "'m py_world \<Rightarrow> (string \<Rightarrow> string list option) \<Rightarrow> bool \<Rightarrow> int \<Rightarrow> string option \<Rightarrow> string
     \<Rightarrow> apm_entry_t list \<times> py_call list \<Rightarrow> (bool \<times> apm_entry_t list \<times> py_call list) c_result"
where
  "load_py w readdir mem version search_name path st =
     (case readdir path of None \<Rightarrow> Inr (False, st) | Some names \<Rightarrow> load_entries w mem version path search_name names st)"

text \<open>The walk over the list calls \<open>load_py\<close> for each directory.\<close>

fun load_dirs ::
  "'m py_world \<Rightarrow> (string \<Rightarrow> string list option) \<Rightarrow> bool \<Rightarrow> int \<Rightarrow> string option \<Rightarrow> string list
     \<Rightarrow> apm_entry_t list \<times> py_call list \<Rightarrow> (bool \<times> apm_entry_t list \<times> py_call list) c_result"
where
  "load_dirs w readdir mem version search_name [] st = Inr (False, st)"
| "load_dirs w readdir mem version search_name (dir # dirs) st =
     (case load_py w readdir mem version search_name dir st of
        Inl f \<Rightarrow> Inl f
      | Inr (True, st) \<Rightarrow> Inr (True, st)
      | Inr (False, st) \<Rightarrow> load_dirs w readdir mem version search_name dirs st)"

abbreviation PYAPMS_DIR :: string where "PYAPMS_DIR \<equiv> ''/.local/lib/csh/''"

text \<open>The directories if none are given: copied without a check into \<open>WALKDIR_MAX_PATH_SIZE\<close> bytes.\<close>

definition py_default_path :: "string \<Rightarrow> string c_result" where
  "py_default_path home_dir =
     (let path = home_dir @ PYAPMS_DIR @ '';/usr/lib/csh/''
      in if length path + 1 > WALKDIR_MAX_PATH_SIZE then Inl Out_Of_Bounds else Inr path)"

text \<open>\<open>home\<close> is the home directory of the environment or of the user; without an interpreter the restored thread is the
  null pointer, which the library does not accept. \<open>malloc\<close> and \<open>mem\<close> are whether memory for the path and for an entry
  can be had. There is no return value if the process has ended.\<close>

definition py_apm_load_cmd ::
  "'m py_world \<Rightarrow> (string \<Rightarrow> string list option) \<Rightarrow> bool \<Rightarrow> bool \<Rightarrow> int \<Rightarrow> string option \<Rightarrow> bool \<Rightarrow> load_opts optparse
     \<Rightarrow> apm_entry_t list \<Rightarrow> string list \<Rightarrow> (slash_ret option \<times> apm_entry_t list \<times> py_call list) c_result"
where
  "py_apm_load_cmd w readdir malloc mem version home running parser queue argv =
     (let (argi, opts) = optparse_parse parser \<lparr>load_path = None, load_file = None\<rparr> argv
      in if argi < 0 then Inr (Some SLASH_EINVAL, queue, [])
         else
           (case (case load_path opts of
                    Some p \<Rightarrow> Inr (Some (Some p))
                  | None \<Rightarrow>
                      (case home of
                         None \<Rightarrow> Inr None
                       | Some h \<Rightarrow>
                           if \<not> malloc then Inr (Some None)
                           else (case py_default_path h of Inl f \<Rightarrow> Inl f | Inr p \<Rightarrow> Inr (Some (Some p))))) of
              Inl f \<Rightarrow> Inl f
            | Inr None \<Rightarrow> Inr (Some SLASH_EINVAL, queue, [])
            | Inr (Some None) \<Rightarrow> Inr (Some SLASH_SUCCESS, queue, [])
            | Inr (Some (Some path)) \<Rightarrow>
                if \<not> running then Inl Null_Deref
                else
                  (case load_dirs w readdir mem version (load_file opts) (walk_path_list path) (queue, []) of
                     Inl f \<Rightarrow> Inl f
                   | Inr (ended, queue, calls) \<Rightarrow> Inr (if ended then None else Some SLASH_SUCCESS, queue, calls))))"

text \<open>\<open>apm load\<close> loads libraries and, in a build with Python, modules, whose result replaces that of the libraries. There is no
  return value if the process has ended.\<close>

definition apm_load_cmd ::
  "bool \<Rightarrow> int \<Rightarrow> (string \<Rightarrow> apm_lib option) \<Rightarrow> lib_search_t walk_env \<Rightarrow> (char list \<Rightarrow> char list) \<Rightarrow> string option
     \<Rightarrow> string option \<Rightarrow> 'm py_world \<Rightarrow> (string \<Rightarrow> string list option) \<Rightarrow> bool \<Rightarrow> bool \<Rightarrow> bool \<Rightarrow> load_opts optparse
     \<Rightarrow> apm_entry_t list \<Rightarrow> string list \<Rightarrow> (slash_ret option \<times> apm_entry_t list \<times> py_call list) c_result"
where
  "apm_load_cmd have_python version dl env leftover home exe_dir w readdir malloc mem running parser queue argv =
     (let (argi, opts) = optparse_parse parser \<lparr>load_path = None, load_file = None\<rparr> argv
      in if argi < 0 then Inr (Some SLASH_EINVAL, queue, [])
         else
           (case apm_load_search version dl env leftover home exe_dir
                   \<lparr>search_path = load_path opts, search_str = load_file opts, libs = []\<rparr> queue of
              Inl f \<Rightarrow> Inl f
            | Inr (None, queue) \<Rightarrow> Inr (None, queue, [])
            | Inr (Some res, queue) \<Rightarrow>
                if \<not> have_python then Inr (Some res, queue, [])
                else py_apm_load_cmd w readdir malloc mem version home running parser queue argv))"

section \<open>The \<open>python\<close> command\<close>

text \<open>What the command asks of the interpreter, in order, and of the terminal. The results of a string, of a file and of
  the interactive loop are arguments, \<open>None\<close> if the code asks to exit, which ends the process.\<close>

datatype exec_call =
    Simple_string string
  | Set_argv "string list"
  | Set_file string
  | Run_file string
  | Interactive_loop
  | Release_std_in_out
  | Acquire_std_in_out

record exec_world =
  run_string :: "string \<Rightarrow> string list \<Rightarrow> int option"
  run_file :: "string \<Rightarrow> string list \<Rightarrow> int option"
  can_open :: "string \<Rightarrow> bool"
  interactive :: "int option"

text \<open>\<open>argv\<close> is decoded without a check of a result, assumed here to be there.\<close>

definition csh_python_exec_string :: "exec_world \<Rightarrow> string \<Rightarrow> string list \<Rightarrow> int option \<times> exec_call list" where
  "csh_python_exec_string w str argv = (run_string w str argv, [Set_argv argv, Simple_string str])"

definition csh_python_exec_file :: "exec_world \<Rightarrow> string \<Rightarrow> string list \<Rightarrow> int option \<times> exec_call list" where
  "csh_python_exec_file w filename argv =
     (if can_open w filename then (run_file w filename argv, [Set_argv argv, Set_file filename, Run_file filename])
      else (Some (- 1), []))"

record python_opts =
  python_string :: "string option"

datatype python_ret = Slash_ret slash_ret | Python_ret int

text \<open>The lines the interactive loop is prepared with; the last one marks the prompt of a virtual environment.\<close>

abbreviation interactive_setup :: "string list" where
  "interactive_setup \<equiv>
     [''import rlcompleter'', ''import readline'', ''readline.parse_and_bind(\"tab: complete\")'', ''import sys'',
      ''if sys.base_prefix != sys.prefix or hasattr(sys, \"real_prefix\"): sys.ps1 = '' @
        [CHR 0x27] @ ''(venv) >>> '' @ [CHR 0x27]]"

text \<open>\<open>argi\<close> counts from behind the name of the command, but is applied to the whole of \<open>argv\<close>, whose length is
  \<open>length argv\<close>: with a string, the first argument the code sees is the one before the first that is its own.\<close>

definition python_slash ::
  "exec_world \<Rightarrow> bool \<Rightarrow> python_opts optparse \<Rightarrow> string list \<Rightarrow> (python_ret option \<times> exec_call list) c_result" where
  "python_slash w running parser argv =
     (let (argi, opts) = optparse_parse parser \<lparr>python_string = None\<rparr> argv
      in if argi < 0 then Inr (Some (Slash_ret SLASH_EINVAL), [])
         else if \<not> running then Inl Null_Deref
         else
           (let (res, calls) =
              (case python_string opts of
                 Some str \<Rightarrow>
                   (let (res, calls) = csh_python_exec_string w str (drop (nat argi) argv) in (map_option Python_ret res, calls))
               | None \<Rightarrow>
                   if argi + 1 < argc argv then
                     (let argi = argi + 1; filename = nth_arg argv argi;
                          (res, calls) = csh_python_exec_file w filename (drop (nat argi) argv)
                      in (map_option (\<lambda>res. if res \<noteq> 0 then Slash_ret SLASH_EINVAL else Python_ret res) res, calls))
                   else
                     (map_option Python_ret (interactive w),
                      Set_argv [] # map Simple_string interactive_setup @ [Interactive_loop]));
              calls = [Simple_string ''import pycsh'', Release_std_in_out] @ calls
            in Inr (res, if res = None then calls else calls @ [Acquire_std_in_out])))"

section \<open>Properties\<close>

subsection \<open>The list of directories\<close>

text \<open>The split of a list at its semicolons as it is meant, but with an empty name, the semicolon is taken into the name
  that follows.\<close>

function split_dirs :: "string \<Rightarrow> string list" where
  "split_dirs [] = []"
| "split_dirs (c # cs) =
     (c # takeWhile (\<lambda>x. x \<noteq> CHR '';'') cs) # split_dirs (drop 1 (dropWhile (\<lambda>x. x \<noteq> CHR '';'') cs))"
  by pat_completeness auto
termination
  by (relation "measure length") (auto simp: less_Suc_eq_le intro: order_trans [OF diff_le_self length_dropWhile_le])

lemma walk_path_from_step:
  assumes "nul_free d" "CHR '';'' \<notin> set d" "rest = [] \<or> hd rest = CHR '';''" "runner \<le> length d"
  shows "walk_path_from (pre @ c # d @ rest) (length pre + runner) (length pre) =
    (c # d) # walk_path_from (pre @ c # d @ rest) (length pre + length d + 2) (length pre + length d + 2)"
  using assms(4)
proof (induction "length d - runner" arbitrary: runner)
  case 0
  then have r: "runner = length d" by simp
  have "char_at (pre @ c # d @ rest) (length pre + length d + 1) = (if rest = [] then NUL else CHR '';'')"
    using assms(3) by (cases rest) (auto simp: char_at_def nth_append)
  then show ?case
    unfolding r by (subst walk_path_from.simps) (auto simp: Let_def)
next
  case (Suc n)
  then have r: "runner < length d" by simp
  then have "char_at (pre @ c # d @ rest) (length pre + runner + 1) = d ! runner"
    by (simp add: char_at_def nth_append)
  moreover have "d ! runner \<noteq> CHR '';''" "d ! runner \<noteq> NUL"
    using r assms(1,2) nth_mem [OF r] by (metis nul_free_def)+
  ultimately show ?case
    using Suc.hyps(1) [of "runner + 1"] Suc.hyps(2) r by (subst walk_path_from.simps) (simp add: Let_def)
qed

lemma walk_path_from_split:
  assumes "nul_free rest"
  shows "walk_path_from (pre @ rest) (length pre) (length pre) = split_dirs rest"
  using assms
proof (induction rest arbitrary: pre rule: split_dirs.induct)
  case 1
  then show ?case by (simp add: walk_path_from.simps)
next
  case (2 c cs)
  define d r where "d = takeWhile (\<lambda>x. x \<noteq> CHR '';'') cs" and "r = dropWhile (\<lambda>x. x \<noteq> CHR '';'') cs"
  have cs: "cs = d @ r" by (simp add: d_def r_def)
  have d: "CHR '';'' \<notin> set d" by (auto simp: d_def dest: set_takeWhileD)
  have nf: "nul_free d" "nul_free r" using 2(2) by (simp_all add: cs)
  have r: "r = [] \<or> hd r = CHR '';''" using hd_dropWhile [of "\<lambda>x. x \<noteq> CHR '';''" cs] by (auto simp: r_def)
  note step = walk_path_from_step [OF nf(1) d r le0, of pre c]
  have split: "split_dirs (c # d @ r) = (c # d) # split_dirs (drop 1 r)"
    using cs by (simp add: d_def r_def)
  show ?case
  proof (cases r)
    case Nil
    then show ?thesis
      using step split
      by (simp add: cs walk_path_from.simps [of _ "Suc (Suc (length pre + length d))"] del: split_dirs.simps(2))
  next
    case (Cons x xs)
    have "drop 1 (dropWhile (\<lambda>x. x \<noteq> CHR '';'') cs) = xs" using Cons by (simp add: r_def)
    then have "walk_path_from ((pre @ c # d @ [x]) @ xs) (length (pre @ c # d @ [x])) (length (pre @ c # d @ [x])) =
        split_dirs xs"
      using 2(1) [of "pre @ c # d @ [x]"] nf(2) Cons by simp
    then show ?thesis using step split Cons by (simp add: cs del: split_dirs.simps(2))
  qed
qed

lemma walk_path_list_split: "nul_free p \<Longrightarrow> walk_path_list p = split_dirs p"
  using walk_path_from_split [of p "[]"] by (simp add: walk_path_list_def)

fun join_dirs :: "string list \<Rightarrow> string" where
  "join_dirs [] = []"
| "join_dirs [d] = d"
| "join_dirs (d # e # ds) = d @ CHR '';'' # join_dirs (e # ds)"

lemma nul_free_join_dirs: "\<forall>d \<in> set ds. nul_free d \<Longrightarrow> nul_free (join_dirs ds)"
  by (induction ds rule: join_dirs.induct) auto

lemma split_dirs_element:
  "d \<noteq> [] \<Longrightarrow> CHR '';'' \<notin> set d \<Longrightarrow> split_dirs (d @ CHR '';'' # rest) = d # split_dirs rest"
proof (cases d)
  case (Cons c cs)
  assume "CHR '';'' \<notin> set d"
  then have "\<forall>x \<in> set cs. x \<noteq> CHR '';''" using Cons by auto
  then show ?thesis using Cons by (simp add: takeWhile_all_append dropWhile_all_append)
qed simp

lemma split_dirs_last: "CHR '';'' \<notin> set cs \<Longrightarrow> split_dirs (c # cs) = [c # cs]"
proof -
  assume "CHR '';'' \<notin> set cs"
  then have "\<forall>x \<in> set cs. x \<noteq> CHR '';''" by auto
  from takeWhile_all_append [OF this, of "[]"] dropWhile_all_append [OF this, of "[]"] show ?thesis
    by (simp only: split_dirs.simps append_Nil2 drop_Nil simp_thms)
qed

lemma split_dirs_single: "d \<noteq> [] \<Longrightarrow> CHR '';'' \<notin> set d \<Longrightarrow> split_dirs d = [d]"
  by (cases d) (simp_all add: split_dirs_last del: split_dirs.simps(2))

lemma split_join_dirs: "\<forall>d \<in> set ds. d \<noteq> [] \<and> CHR '';'' \<notin> set d \<Longrightarrow> split_dirs (join_dirs ds) = ds"
  by (induction ds rule: join_dirs.induct) (simp_all add: split_dirs_element split_dirs_single del: split_dirs.simps(2))

text \<open>
  The walk over a list of directories finds the directories it was joined from, each once and in order, if none is empty.
  An empty one is not skipped: it is taken, with its semicolon, into the name of the next.
\<close>

theorem walk_path_list_splits:
  assumes "\<forall>d \<in> set ds. d \<noteq> [] \<and> nul_free d \<and> CHR '';'' \<notin> set d"
  shows "walk_path_list (join_dirs ds) = ds \<and>
    (\<forall>a b. ds = [a, b] \<longrightarrow> walk_path_list (join_dirs [a, [], b]) = [a, CHR '';'' # b])"
proof -
  have "walk_path_list (join_dirs ds) = ds"
    using assms by (simp add: walk_path_list_split nul_free_join_dirs split_join_dirs)
  moreover have "walk_path_list (join_dirs [a, [], b]) = [a, CHR '';'' # b]" if "ds = [a, b]" for a b
  proof -
    have "split_dirs (CHR '';'' # b) = [CHR '';'' # b]" using assms that by (intro split_dirs_last) simp
    then show ?thesis
      using assms that by (simp add: walk_path_list_split split_dirs_element del: split_dirs.simps(2))
  qed
  ultimately show ?thesis by blast
qed

theorem walk_path_list_splits_witness:
  "walk_path_list ''/opt/a/;/opt/b/'' = [''/opt/a/'', ''/opt/b/''] \<and>
   walk_path_list ''/opt/a/;;/opt/b/'' = [''/opt/a/'', '';/opt/b/'']"
  using walk_path_list_splits [of "[''/opt/a/'', ''/opt/b/'']"] by simp

subsection \<open>The modules\<close>

text \<open>The files that a walk over the directories tries, in its order, and what becomes of one.\<close>

definition wanted_file :: "string option \<Rightarrow> string \<Rightarrow> bool" where
  "wanted_file search_name d_name \<longleftrightarrow>
     (case search_name of None \<Rightarrow> True | Some s \<Rightarrow> strstr d_name s \<noteq> None) \<and> strstr d_name ''.py'' \<noteq> None"

definition walked_files :: "(string \<Rightarrow> string list option) \<Rightarrow> string option \<Rightarrow> string list \<Rightarrow> string list" where
  "walked_files readdir search_name dirs =
     concat (map (\<lambda>dir. case readdir dir of None \<Rightarrow> [] | Some names \<Rightarrow> map ((@) dir) (filter (wanted_file search_name) names)) dirs)"

definition pymod_of :: "'m py_world \<Rightarrow> string \<Rightarrow> 'm loaded" where
  "pymod_of w file = fst (pycsh_load_pymod w file (Some ''apm_init''))"

definition pymod_calls :: "'m py_world \<Rightarrow> string \<Rightarrow> py_call list" where
  "pymod_calls w file = snd (pycsh_load_pymod w file (Some ''apm_init''))"

text \<open>The files before the first whose code asks to exit; the files that are tried, that one among them; and the entries that
  the former give.\<close>

definition before_exit :: "'m py_world \<Rightarrow> string list \<Rightarrow> string list" where
  "before_exit w files = takeWhile (\<lambda>f. pymod_of w f \<noteq> Exit_requested) files"

definition tried :: "'m py_world \<Rightarrow> string list \<Rightarrow> string list" where
  "tried w files = take (length (before_exit w files) + 1) files"

definition new_entries :: "'m py_world \<Rightarrow> int \<Rightarrow> string list \<Rightarrow> apm_entry_t list" where
  "new_entries w version files = map (pymod_entry version) (filter (\<lambda>f. pymod_of w f \<noteq> No_module) (before_exit w files))"

lemma wanted_exit:
  "(\<exists>f \<in> set xs. pymod_of w f = Exit_requested) \<Longrightarrow> before_exit w (xs @ ys) = before_exit w xs \<and> tried w (xs @ ys) = tried w xs"
proof -
  assume "\<exists>f \<in> set xs. pymod_of w f = Exit_requested"
  then have b: "before_exit w (xs @ ys) = before_exit w xs" and l: "length (before_exit w xs) < length xs"
    unfolding before_exit_def by (induction xs) auto
  then show ?thesis by (simp add: tried_def)
qed

lemma no_exit: "\<forall>f \<in> set xs. pymod_of w f \<noteq> Exit_requested \<Longrightarrow> before_exit w (xs @ ys) = xs @ before_exit w ys \<and> tried w (xs @ ys) = xs @ tried w ys"
  by (auto simp: before_exit_def tried_def takeWhile_append)

lemma load_entries_skip:
  "\<not> wanted_file search_name d \<Longrightarrow>
    load_entries w mem version path search_name (d # names) st = load_entries w mem version path search_name names st"
  by (cases st; cases search_name) (auto simp: wanted_file_def)

lemma load_entries_try:
  "wanted_file search_name d \<Longrightarrow> load_entries w mem version path search_name (d # names) (queue, calls) =
    (if length path > WALKDIR_MAX_PATH_SIZE then Inl Out_Of_Bounds
     else
       (let calls = calls @ pymod_calls w (path @ d)
        in case pymod_of w (path @ d) of
             Exit_requested \<Rightarrow> Inr (True, queue, calls)
           | No_module \<Rightarrow> load_entries w mem version path search_name names (queue, calls)
           | Module m \<Rightarrow>
               load_entries w mem version path search_name names
                 (if mem then apm_queue_add (pymod_entry version (path @ d)) queue else queue, calls)))"
  by (cases search_name)
    (auto simp: wanted_file_def pymod_of_def pymod_calls_def Let_def split_beta split: loaded.split)

declare load_entries.simps(2) [simp del]

lemma load_entries_walk:
  assumes "length path \<le> WALKDIR_MAX_PATH_SIZE"
  shows "load_entries w True version path search_name names (queue, calls) =
    (let files = map ((@) path) (filter (wanted_file search_name) names)
     in Inr (\<exists>f \<in> set files. pymod_of w f = Exit_requested,
          foldl (\<lambda>q e. apm_queue_add e q) queue (new_entries w version files),
          calls @ concat (map (pymod_calls w) (tried w files))))"
proof (induction names arbitrary: queue calls)
  case (Cons d names)
  show ?case
  proof (cases "wanted_file search_name d")
    case True
    then show ?thesis
      using assms Cons
      by (cases "pymod_of w (path @ d)")
        (simp_all add: load_entries_try Let_def new_entries_def before_exit_def tried_def)
  qed (use Cons in \<open>simp add: load_entries_skip\<close>)
qed (simp add: new_entries_def before_exit_def tried_def)

lemma load_dirs_walk:
  assumes "\<forall>d \<in> set dirs. length d \<le> WALKDIR_MAX_PATH_SIZE"
  shows "load_dirs w readdir True version search_name dirs (queue, calls) =
    (let files = walked_files readdir search_name dirs
     in Inr (\<exists>f \<in> set files. pymod_of w f = Exit_requested,
          foldl (\<lambda>q e. apm_queue_add e q) queue (new_entries w version files),
          calls @ concat (map (pymod_calls w) (tried w files))))"
  using assms
proof (induction dirs arbitrary: queue calls)
  case Nil
  then show ?case by (simp add: walked_files_def new_entries_def before_exit_def tried_def)
next
  case (Cons dir dirs)
  define here where "here = (case readdir dir of None \<Rightarrow> [] | Some names \<Rightarrow> map ((@) dir) (filter (wanted_file search_name) names))"
  have files: "walked_files readdir search_name (dir # dirs) = here @ walked_files readdir search_name dirs"
    by (simp add: walked_files_def here_def)
  have py: "load_py w readdir True version search_name dir (queue, calls) =
      Inr (\<exists>f \<in> set here. pymod_of w f = Exit_requested, foldl (\<lambda>q e. apm_queue_add e q) queue (new_entries w version here),
        calls @ concat (map (pymod_calls w) (tried w here)))"
    using Cons.prems load_entries_walk [of dir w version search_name _ queue calls]
    by (cases "readdir dir") (simp_all add: load_py_def here_def new_entries_def before_exit_def tried_def Let_def)
  show ?case
  proof (cases "\<exists>f \<in> set here. pymod_of w f = Exit_requested")
    case True
    then show ?thesis using wanted_exit [OF True] by (auto simp: files py new_entries_def)
  next
    case False
    then have ne: "\<forall>f \<in> set here. pymod_of w f \<noteq> Exit_requested" by blast
    have "load_dirs w readdir True version search_name (dir # dirs) (queue, calls) =
      load_dirs w readdir True version search_name dirs (foldl (\<lambda>q e. apm_queue_add e q) queue (new_entries w version here),
        calls @ concat (map (pymod_calls w) (tried w here)))"
      using False by (simp add: py)
    also have "\<dots> = (let files = walked_files readdir search_name dirs
       in Inr (\<exists>f \<in> set files. pymod_of w f = Exit_requested,
            foldl (\<lambda>q e. apm_queue_add e q) (foldl (\<lambda>q e. apm_queue_add e q) queue (new_entries w version here)) (new_entries w version files),
            (calls @ concat (map (pymod_calls w) (tried w here))) @ concat (map (pymod_calls w) (tried w files))))"
      by (rule Cons.IH) (use Cons.prems in simp)
    finally have walk: "load_dirs w readdir True version search_name (dir # dirs) (queue, calls) = \<dots>" .
    have "before_exit w here = here" "tried w here = here" using no_exit [OF ne, of "[]"] by (simp_all add: before_exit_def tried_def)
    then show ?thesis
      using walk no_exit [OF ne, of "walked_files readdir search_name dirs"] ne
      by (auto simp: files new_entries_def Let_def)
  qed
qed

lemma adds_sorted:
  "apm_sorted queue \<Longrightarrow> apm_sorted (foldl (\<lambda>q e. apm_queue_add e q) queue es)"
  "mset (foldl (\<lambda>q e. apm_queue_add e q) queue es) = mset queue + mset es"
  by (induction es arbitrary: queue) (simp_all add: apm_queue_add_sorted)

text \<open>
  C19: \<open>apm load -p\<close> in the build with Python goes through the directories of the list, each once and in order, and tries to
  import each of their files that has \<open>.py\<close> in its name (and the text of \<open>-f\<close>, if given), up to the first whose code asks to
  exit, which ends the process: what it asks of linker and interpreter is what these files ask for, one after the other. The
  list of modules gets one entry for each module that came of it; it loses none and stays sorted by file name. The
  directories are given without empty names, at most 256 bytes long each and with a slash at their end (without it,
  the code looks for other files than those of the directory); memory is there and the interpreter runs.
\<close>

theorem python_load_keeps_sorted:
  assumes "optparse_parse parser \<lparr>load_path = None, load_file = None\<rparr> argv = (argi, opts)"
    and "0 \<le> argi" "load_path opts = Some (join_dirs dirs)"
    and "\<forall>d \<in> set dirs. d \<noteq> [] \<and> nul_free d \<and> CHR '';'' \<notin> set d \<and> last d = CHR ''/'' \<and> length d \<le> WALKDIR_MAX_PATH_SIZE"
  shows "\<exists>queue'. py_apm_load_cmd w readdir malloc True version home True parser queue argv =
      (let files = walked_files readdir (load_file opts) dirs
       in Inr (if \<exists>f \<in> set files. pymod_of w f = Exit_requested then None else Some SLASH_SUCCESS, queue',
            concat (map (pymod_calls w) (tried w files)))) \<and>
    mset queue' = mset queue + mset (new_entries w version (walked_files readdir (load_file opts) dirs)) \<and>
    (apm_sorted queue \<longrightarrow> apm_sorted queue')"
proof -
  have "walk_path_list (join_dirs dirs) = dirs"
    using assms(4) by (simp add: walk_path_list_split nul_free_join_dirs split_join_dirs)
  moreover have "\<forall>d \<in> set dirs. length d \<le> WALKDIR_MAX_PATH_SIZE" using assms(4) by blast
  ultimately show ?thesis
    using assms(1-3) by (auto simp: py_apm_load_cmd_def load_dirs_walk Let_def adds_sorted)
qed

definition demo_py :: "string py_world" where
  "demo_py = \<lparr>py_dlopen = \<lambda>p. None, py_register = \<lambda>m. True,
     py_import = \<lambda>nm. if nm = ''bad'' then No_module else Module nm, py_init_function = \<lambda>m f. Missing\<rparr>"

definition demo_dir :: "string \<Rightarrow> string list option" where
  "demo_dir d = (if d = ''/a/'' then Some [''z.py'', ''.x.py'', ''b.c'', ''m.py''] else None)"

theorem python_load_keeps_sorted_witness:
  "\<exists>queue'. py_apm_load_cmd demo_py demo_dir True True 9 None True
       (\<lambda>s args. (0, \<lparr>load_path = Some (join_dirs [''/a/'', ''/b/'']), load_file = None\<rparr>)) [] [''load''] =
     Inr (Some SLASH_SUCCESS, queue', [Import ''z'', Import ''m'']) \<and> length queue' = 2"
proof -
  let ?parser = "\<lambda>s args. (0, \<lparr>load_path = Some (join_dirs [''/a/'', ''/b/'']), load_file = None\<rparr>)"
  have files: "walked_files demo_dir None [''/a/'', ''/b/''] = [''/a/z.py'', ''/a/.x.py'', ''/a/m.py'']" by code_simp
  have mods: "list_all (\<lambda>f. pymod_of demo_py f \<noteq> Exit_requested) [''/a/z.py'', ''/a/.x.py'', ''/a/m.py'']"
    "concat (map (pymod_calls demo_py) (tried demo_py [''/a/z.py'', ''/a/.x.py'', ''/a/m.py''])) = [Import ''z'', Import ''m'']"
    "length (new_entries demo_py 9 [''/a/z.py'', ''/a/.x.py'', ''/a/m.py'']) = 2"
    by code_simp+
  have dirs: "\<forall>d \<in> set [''/a/'', ''/b/'']. d \<noteq> [] \<and> nul_free d \<and> CHR '';'' \<notin> set d \<and> last d = CHR ''/'' \<and>
      length d \<le> WALKDIR_MAX_PATH_SIZE"
    by code_simp
  obtain queue' where q: "py_apm_load_cmd demo_py demo_dir True True 9 None True ?parser [] [''load''] =
      (let files = walked_files demo_dir None [''/a/'', ''/b/'']
       in Inr (if \<exists>f \<in> set files. pymod_of demo_py f = Exit_requested then None else Some SLASH_SUCCESS, queue',
            concat (map (pymod_calls demo_py) (tried demo_py files))))"
    "mset queue' = mset (new_entries demo_py 9 (walked_files demo_dir None [''/a/'', ''/b/'']))"
    using python_load_keeps_sorted [where parser = ?parser and argv = "[''load'']" and argi = 0 and queue = "[]"
        and opts = "\<lparr>load_path = Some (join_dirs [''/a/'', ''/b/'']), load_file = None\<rparr>"
        and w = demo_py and readdir = demo_dir and malloc = True and version = 9 and home = None, OF _ _ _ dirs]
    by (auto simp: optparse_parse_def)
  have "length queue' = 2" using mset_eq_length [OF q(2)] mods(3) files by simp
  then show ?thesis using q(1) mods(1,2) unfolding files Let_def by (intro exI [of _ queue']) (simp add: list_all_iff)
qed

text \<open>What \<open>apm load\<close> searches for Python modules.\<close>

definition python_dirs :: "string option \<Rightarrow> load_opts \<Rightarrow> string list" where
  "python_dirs home opts =
     walk_path_list
       (case load_path opts of
          Some p \<Rightarrow> p
        | None \<Rightarrow> (case home of None \<Rightarrow> [] | Some h \<Rightarrow> h @ PYAPMS_DIR @ '';/usr/lib/csh/''))"

definition python_entry :: "'m py_world \<Rightarrow> int \<Rightarrow> string list \<Rightarrow> apm_entry_t \<Rightarrow> bool" where
  "python_entry w version files e \<longleftrightarrow> (\<exists>f \<in> set files. (\<exists>m. pymod_of w f = Module m) \<and> e = pymod_entry version f)"

lemma python_entry_mono: "python_entry w version files e \<Longrightarrow> set files \<subseteq> set others \<Longrightarrow> python_entry w version others e"
  by (auto simp: python_entry_def)

lemma walked_files_simps [simp]:
  "walked_files readdir search_name [] = []"
  "walked_files readdir search_name (dir # dirs) =
     (case readdir dir of None \<Rightarrow> [] | Some names \<Rightarrow> map ((@) dir) (filter (wanted_file search_name) names)) @
     walked_files readdir search_name dirs"
  by (simp_all add: walked_files_def)

text \<open>Whatever memory there is, new entries are files of the directories.\<close>

definition adds_modules ::
  "'m py_world \<Rightarrow> int \<Rightarrow> string list \<Rightarrow> apm_entry_t list \<Rightarrow> apm_entry_t list \<Rightarrow> bool" where
  "adds_modules w version files queue queue' \<longleftrightarrow>
     (apm_sorted queue \<longrightarrow> apm_sorted queue') \<and>
     (\<exists>es. mset queue' = mset queue + mset es \<and>
        (\<forall>e \<in> set es. python_entry w version files e))"

lemma adds_modules_refl: "adds_modules w version files queue queue"
  unfolding adds_modules_def by (auto intro: exI [of _ "[]"])

lemma adds_modules_trans:
  assumes "adds_modules w version files q q'" "adds_modules w version files' q' q''" "set files \<union> set files' \<subseteq> set all"
  shows "adds_modules w version all q q''"
proof -
  from assms(1,2) obtain es es' where "mset q' = mset q + mset es" "mset q'' = mset q' + mset es'"
    "\<forall>e \<in> set es. python_entry w version files e" "\<forall>e \<in> set es'. python_entry w version files' e"
    unfolding adds_modules_def by blast
  moreover have "apm_sorted q \<longrightarrow> apm_sorted q''" using assms(1,2) by (simp add: adds_modules_def)
  ultimately show ?thesis
    using assms(3) unfolding adds_modules_def
    by (intro conjI exI [of _ "es @ es'"]) (auto intro: python_entry_mono)
qed

lemma adds_modules_one:
  "pymod_of w f = Module m \<Longrightarrow> adds_modules w version [f] q (apm_queue_add (pymod_entry version f) q)"
  unfolding adds_modules_def
  by (intro conjI exI [of _ "[pymod_entry version f]"]) (auto simp: apm_queue_add_sorted python_entry_def)

lemma load_entries_adds:
  assumes "load_entries w mem version path search_name names (queue, calls) = Inr (ended, queue', calls')"
  shows "adds_modules w version (map ((@) path) (filter (wanted_file search_name) names)) queue queue'"
  using assms
proof (induction names arbitrary: queue calls)
  case (Cons d names)
  let ?f = "path @ d" and ?rest = "map ((@) path) (filter (wanted_file search_name) names)"
  show ?case
  proof (cases "wanted_file search_name d")
    case False
    then show ?thesis using Cons by (simp add: load_entries_skip)
  next
    case True
    have here: "adds_modules w version [?f] queue q \<Longrightarrow> adds_modules w version ?rest q queue' \<Longrightarrow> ?thesis" for q
      using adds_modules_trans [of w version "[?f]" queue q ?rest queue' "?f # ?rest"] True by simp
    have l: "\<not> length path > WALKDIR_MAX_PATH_SIZE" using Cons.prems by (auto simp: load_entries_try [OF True] split: if_splits)
    show ?thesis
    proof (cases "pymod_of w ?f")
      case (Module m)
      let ?q = "if mem then apm_queue_add (pymod_entry version ?f) queue else queue"
      have "adds_modules w version [?f] queue ?q" by (auto intro: adds_modules_one [OF Module] adds_modules_refl)
      moreover have "adds_modules w version ?rest ?q queue'"
        using Cons.prems l Module by (intro Cons.IH) (simp add: load_entries_try [OF True] Let_def)
      ultimately show ?thesis by (rule here)
    next
      case No_module
      then have "adds_modules w version ?rest queue queue'"
        using Cons.prems l by (intro Cons.IH) (simp add: load_entries_try [OF True] Let_def)
      then show ?thesis by (rule here [OF adds_modules_refl])
    next
      case Exit_requested
      then have "queue' = queue" using Cons.prems l by (simp add: load_entries_try [OF True] Let_def)
      then show ?thesis by (simp add: adds_modules_refl)
    qed
  qed
qed (simp add: adds_modules_refl)

lemma load_dirs_adds:
  assumes "load_dirs w readdir mem version search_name dirs (queue, calls) = Inr (ended, queue', calls')"
  shows "adds_modules w version (walked_files readdir search_name dirs) queue queue'"
  using assms
proof (induction dirs arbitrary: queue calls)
  case (Cons dir dirs)
  define here where "here = (case readdir dir of None \<Rightarrow> [] | Some names \<Rightarrow> map ((@) dir) (filter (wanted_file search_name) names))"
  obtain e q c where l: "load_py w readdir mem version search_name dir (queue, calls) = Inr (e, q, c)"
    using Cons.prems by (cases "load_py w readdir mem version search_name dir (queue, calls)") auto
  then have first: "adds_modules w version here queue q"
    by (cases "readdir dir") (auto simp: load_py_def here_def adds_modules_refl dest: load_entries_adds)
  have "adds_modules w version (walked_files readdir search_name dirs) q queue'"
    using Cons l by (cases e) (auto simp: adds_modules_refl)
  from adds_modules_trans [OF first this] show ?case by (simp add: here_def)
qed (simp add: adds_modules_refl)

lemma py_load_adds:
  assumes "py_apm_load_cmd w readdir malloc mem version home running parser queue argv = Inr (ret, queue', calls)"
    and "optparse_parse parser \<lparr>load_path = None, load_file = None\<rparr> argv = (argi, opts)"
  shows "adds_modules w version (walked_files readdir (load_file opts) (python_dirs home opts)) queue queue'"
proof -
  have "queue' = queue \<or> (\<exists>ended calls. load_dirs w readdir mem version (load_file opts) (python_dirs home opts) (queue, []) =
      Inr (ended, queue', calls))"
    using assms by (auto simp: py_apm_load_cmd_def python_dirs_def py_default_path_def Let_def
        split: if_splits option.splits sum.splits)
  then show ?thesis using load_dirs_adds adds_modules_refl by metis
qed

text \<open>
  C31: The command that loads modules keeps the list sorted by file name and loses none. Every entry it adds is that of a
  library, which was found by the linker, was built for the interface version of the shell (or for 8, for a shell of version
  9), and has a \<open>libmain\<close> that returned 0; or, in a build with Python only, that of a file of the searched directories that
  gave a module. All this holds also if the process ends in the middle.
\<close>

theorem apm_load_keeps_sorted:
  assumes "apm_sorted queue" "optparse_parse parser \<lparr>load_path = None, load_file = None\<rparr> argv = (argi, opts)"
    and "apm_load_cmd have_python version dl env leftover home exe_dir w readdir malloc mem running parser queue argv =
      Inr (ret, queue', calls)"
  shows "apm_sorted queue' \<and>
    (\<exists>libs pymods. mset queue' = mset queue + mset libs + mset pymods \<and> (\<not> have_python \<longrightarrow> pymods = []) \<and>
      (\<forall>e \<in> set libs. library_entry version dl e) \<and>
      (\<forall>e \<in> set pymods. python_entry w version (walked_files readdir (load_file opts) (python_dirs home opts)) e))"
proof (cases "argi < 0")
  case True
  then show ?thesis using assms by (auto simp: apm_load_cmd_def intro!: exI [of _ "[]"])
next
  case False
  then obtain res q where s: "apm_load_search version dl env leftover home exe_dir
      \<lparr>search_path = load_path opts, search_str = load_file opts, libs = []\<rparr> queue = Inr (res, q)"
    using assms(2,3) by (auto simp: apm_load_cmd_def split: sum.splits)
  from load_search_sorted [OF assms(1) s] obtain found where found: "apm_sorted q" "mset q = mset queue + mset found"
    "\<forall>e \<in> set found. library_entry version dl e"
    by blast
  show ?thesis
  proof (cases "queue' = q")
    case True
    then show ?thesis using found by (intro conjI exI [of _ found] exI [of _ "[]"]) simp_all
  next
    case other: False
    have "have_python \<and> py_apm_load_cmd w readdir malloc mem version home running parser q argv = Inr (ret, queue', calls)"
      using assms(2,3) False s other by (auto simp: apm_load_cmd_def split: option.splits if_splits)
    then have "have_python" "adds_modules w version (walked_files readdir (load_file opts) (python_dirs home opts)) q queue'"
      using py_load_adds assms(2) by blast+
    then obtain es where "apm_sorted queue'" "mset queue' = mset q + mset es"
      "\<forall>e \<in> set es. python_entry w version (walked_files readdir (load_file opts) (python_dirs home opts)) e"
      using found(1) unfolding adds_modules_def by blast
    then show ?thesis
      using found \<open>have_python\<close> by (intro conjI exI [of _ found] exI [of _ es]) simp_all
  qed
qed

abbreviation demo_load :: "load_opts optparse" where
  "demo_load \<equiv> \<lambda>opts argv. (1, \<lparr>load_path = Some ''/x'', load_file = None\<rparr>)"

abbreviation demo_module :: apm_entry_t where
  "demo_module \<equiv> \<lparr>apm_path = ''/x/libcsh_b.so'', apm_file = ''libcsh_b.so'', apm_version = 8, apm_has_info = False\<rparr>"

lemma demo_load_run:
  "apm_load_cmd False 9 demo_linker demo_walk id None None demo_py demo_dir True True True demo_load [] [''apm load''] =
    Inr (Some SLASH_SUCCESS, [demo_module], [])"
  by code_simp

theorem apm_load_keeps_sorted_witness:
  "\<exists>libs. mset [demo_module] = mset libs \<and> (\<forall>e \<in> set libs. library_entry 9 demo_linker e)"
  using apm_load_keeps_sorted [OF _ _ demo_load_run] by (auto simp: apm_sorted_def optparse_parse_def)

text \<open>
  A file is looked up in a directory that was given without a slash at its end under a name that runs together with that
  of the directory: \<open>apm load -p /opt/apm\<close> imports \<open>apmx\<close> for the file \<open>x.py\<close> of \<open>/opt/apm\<close>.
\<close>

theorem python_path_without_slash:
  assumes "CHR ''/'' \<notin> set (dir @ m)" "CHR ''.'' \<notin> set (dir @ m)" "nul_free dir" "dir \<noteq> []"
  shows "pycsh_load_pymod w ((parent @ CHR ''/'' # dir) @ m @ ''.py'') None =
    (py_import w (dir @ m), [Import (dir @ m)])"
proof -
  let ?p = "parent @ CHR ''/'' # dir @ m @ ''.py''"
  have i: "strrchr_index ?p CHR ''/'' = Some (length parent)"
    using strrchr_index_last [of "dir @ m @ ''.py''" parent] assms(1) by simp
  have c: "char_at ?p (length parent + 1) \<noteq> NUL" "char_at (dir @ m @ ''.py'') 0 \<noteq> CHR ''.''"
    using assms by (cases dir; auto simp: char_at_def nth_append)+
  then have f: "pymod_file ?p = dir @ m @ ''.py''" by (simp add: pymod_file_def i)
  have "CHR ''.'' \<in> set (dir @ m @ ''.py'')" "CHR ''.'' \<notin> set ''__pycache__''" by auto
  then have n: "dir @ m @ ''.py'' \<noteq> ''__pycache__''" by metis
  have t: "takeWhile (\<lambda>c. c \<noteq> CHR ''.'') ((dir @ m) @ ''.py'') = dir @ m"
    using assms(2) by (intro takeWhile_all_append) auto
  have e: "\<not> ends_with ?p ''.so''" by (simp add: ends_with_def)
  have "pymod_name ?p = Some (dir @ m)"
    using c(2) n t by (simp add: pymod_name_def f)
  then show ?thesis
    using e by (simp add: pycsh_load_pymod_def split: loaded.split)
qed

theorem python_path_without_slash_witness:
  "pycsh_load_pymod demo_py ''/opt/apmx.py'' None = (Module ''apmx'', [Import ''apmx''])"
  using python_path_without_slash [of "''apm''" "''x''" demo_py "''/opt''"] by (simp add: demo_py_def)

text \<open>
  A module that comes out of a library is what the function of the library that its file name names has returned, and the
  library is closed by then: the code of the module is unloaded while the interpreter keeps it.
\<close>

theorem pymod_library_closed:
  assumes "pycsh_integrate_pymod w filepath = (Module m, calls)"
  shows "\<exists>lib. py_dlopen w filepath = Some lib \<and>
    (let symbol = ''PyInit_'' @ takeWhile (\<lambda>c. c \<noteq> CHR ''.'') (behind_slash filepath)
     in lib symbol = Some (Module m) \<and> py_register w m \<and>
        calls = [Dlopen filepath, Call_symbol filepath symbol, Dlclose filepath])"
  using assms by (auto simp: pycsh_integrate_pymod_def Let_def split: option.splits loaded.splits if_splits)

theorem pymod_library_closed_witness:
  "\<exists>lib. py_dlopen (demo_py\<lparr>py_dlopen := \<lambda>p. Some (\<lambda>s. Some (Module s)), py_register := \<lambda>m. True\<rparr>) ''/a/m.cpython.so'' =
    Some lib"
  using pymod_library_closed
    [of "demo_py\<lparr>py_dlopen := \<lambda>p. Some (\<lambda>s. Some (Module s)), py_register := \<lambda>m. True\<rparr>" "''/a/m.cpython.so''"
      "''PyInit_m''" "[Dlopen ''/a/m.cpython.so'', Call_symbol ''/a/m.cpython.so'' ''PyInit_m'', Dlclose ''/a/m.cpython.so'']"]
  by (simp add: pycsh_integrate_pymod_def behind_slash_def strrchr_index_def Let_def)

subsection \<open>Interrupts and exceptions\<close>

definition py_initial :: py_state where
  "py_initial = \<lparr>py_initialized = True, py_error = None, exception_allowed = False, py_printed = 0\<rparr>"

text \<open>
  A line that a command executes on its own account, as \<open>run\<close> does, leaves the flag cleared for the rest of that command: a
  signal no longer reaches Python, though a command runs.
\<close>

theorem nested_line_blocks_signals:
  assumes "py_initialized st" "on_python_slash_execute_post_hook st = Some st'"
  shows "sigint_handler True st' = [Slash_sigint, Vmem_client_abort]"
  using assms
  by (auto simp: on_python_slash_execute_post_hook_def PyErr_Print_def sigint_handler_def
      split: option.splits py_exception.splits if_splits)

theorem nested_line_blocks_signals_witness:
  "sigint_handler True py_initial = [Slash_sigint, Vmem_client_abort]"
  using nested_line_blocks_signals [of "py_initial\<lparr>exception_allowed := True\<rparr>" py_initial]
  by (simp add: py_initial_def on_python_slash_execute_post_hook_def)

subsection \<open>Starting the interpreter, running a script\<close>

text \<open>
  The paths of the extension modules are put before those of the interpreter, the home directory's own first, and the
  current directory behind all; this needs a home directory, without which a null pointer is printed. An interpreter that
  runs is left as it is.
\<close>

theorem python_paths:
  "py_init_interpreter True home (Some path) st =
    (if py_running st then Inr st
     else
       (case home of
          None \<Rightarrow> Inl Null_Deref
        | Some h \<Rightarrow> Inr \<lparr>py_running = True, main_thread_state = True,
            py_sys_path = Some ([h @ ''/.local/lib/csh'', h, ''/usr/lib/csh''] @ path @ [''.''])\<rparr>))"
  by (simp add: py_init_interpreter_def append_pyapm_paths_def split: option.split)

text \<open>
  A script that \<open>python\<close> is given runs with its own name and the arguments behind it as its arguments, while the shell
  has given up the terminal, which it takes back whatever the result is; a script that fails or cannot be opened is an error.
  A script that asks to exit ends the program.
\<close>

theorem python_runs_script:
  assumes "optparse_parse parser \<lparr>python_string = None\<rparr> (cmd # options @ filename # args) = (int (length options), \<lparr>python_string = None\<rparr>)"
  shows "python_slash w True parser (cmd # options @ filename # args) =
    (let start = [Simple_string ''import pycsh'', Release_std_in_out];
         script = [Set_argv (filename # args), Set_file filename, Run_file filename]
     in if \<not> can_open w filename then Inr (Some (Slash_ret SLASH_EINVAL), start @ [Acquire_std_in_out])
        else
          (case run_file w filename (filename # args) of
             None \<Rightarrow> Inr (None, start @ script)
           | Some res \<Rightarrow>
               Inr (Some (if res = 0 then Python_ret 0 else Slash_ret SLASH_EINVAL), start @ script @ [Acquire_std_in_out])))"
proof -
  have "nth_arg (cmd # options @ filename # args) (int (length options) + 1) = filename"
    by (simp add: nth_arg_def nat_add_distrib nth_append)
  moreover have "drop (nat (int (length options) + 1)) (cmd # options @ filename # args) = filename # args"
    by (simp add: nat_add_distrib)
  ultimately show ?thesis
    by (auto simp: python_slash_def assms csh_python_exec_file_def Let_def split: option.split)
qed

definition demo_exec :: exec_world where
  "demo_exec = \<lparr>run_string = \<lambda>s a. Some 0, run_file = \<lambda>f a. Some (if length a = 2 then 0 else - 1),
     can_open = \<lambda>f. f = ''x.py'', interactive = Some 0\<rparr>"

theorem python_runs_script_witness:
  "python_slash demo_exec True (\<lambda>s a. (0, s)) [''python'', ''x.py'', ''1''] =
    Inr (Some (Python_ret 0), [Simple_string ''import pycsh'', Release_std_in_out, Set_argv [''x.py'', ''1''], Set_file ''x.py'',
      Run_file ''x.py'', Acquire_std_in_out])"
  using python_runs_script [where w = demo_exec and options = "[]" and cmd = "''python''" and filename = "''x.py''" and args = "[''1'']"
      and parser = "\<lambda>s a. (0, s)"]
  by (simp add: optparse_parse_def demo_exec_def)

end
