(* ===== verification/Getopt.thy ===== *)
theory Getopt
  imports C_Strings
begin

text \<open>
  \<open>getopt\<close> of the GNU C library, as the main programs use it: the short options it finds in a command line, one after the
  other, and the words that are left as operands. Options can stand in one word; an argument follows in the same word or
  is the next one. A plus sign in front of the option string, or the environment variable \<open>POSIXLY_CORRECT\<close>, makes the
  first operand end the options; otherwise operands are passed over. Two dashes end the options. A colon, behind that sign, makes a missing argument a report of its own.
\<close>

section \<open>Option strings\<close>

record getopt_spec =
  require_order :: bool
  report_missing :: bool
  option_chars :: string

text \<open>\<open>posix\<close> is whether \<open>POSIXLY_CORRECT\<close> is set.\<close>

definition getopt_spec :: "bool \<Rightarrow> string \<Rightarrow> getopt_spec" where
  "getopt_spec posix optstring =
     (let order = (char_at optstring 0 = CHR ''+''); rest = (if order then tl optstring else optstring)
      in \<lparr>require_order = (order \<or> posix), report_missing = (char_at rest 0 = CHR '':''), option_chars = rest\<rparr>)"

text \<open>Whether an option takes an argument; \<open>None\<close> if there is no such option.\<close>

definition takes_argument :: "getopt_spec \<Rightarrow> char \<Rightarrow> bool option" where
  "takes_argument spec c =
     (if c = CHR '':'' \<or> c = CHR '';'' \<or> c \<notin> set (option_chars spec) then None
      else Some (char_at (dropWhile (\<lambda>d. d \<noteq> c) (option_chars spec)) 1 = CHR '':''))"

section \<open>Options in a command line\<close>

text \<open>What a call returns: an option with its argument; a colon or a question mark for an option whose argument is
  missing; a question mark for an unknown option.\<close>

datatype getopt_event = Option char "string option" | Missing_argument char | Unknown_option char

fun getopt_word :: "getopt_spec \<Rightarrow> string \<Rightarrow> string list \<Rightarrow> getopt_event list \<times> string list" where
  "getopt_word spec [] rest = ([], rest)"
| "getopt_word spec (c # cs) rest =
     (case takes_argument spec c of
        None \<Rightarrow> (let (found, rest) = getopt_word spec cs rest in (Unknown_option c # found, rest))
      | Some False \<Rightarrow> (let (found, rest) = getopt_word spec cs rest in (Option c None # found, rest))
      | Some True \<Rightarrow>
          (if cs \<noteq> [] then ([Option c (Some cs)], rest)
           else (case rest of
                   [] \<Rightarrow> ([if report_missing spec then Missing_argument c else Unknown_option c], [])
                 | a # rest \<Rightarrow> ([Option c (Some a)], rest))))"

lemma getopt_word_rest: "length (snd (getopt_word spec cs rest)) \<le> length rest"
  by (induction cs) (auto simp: split_beta split: option.split bool.split list.split)

definition option_word :: "string \<Rightarrow> bool" where
  "option_word w \<longleftrightarrow> char_at w 0 = CHR ''-'' \<and> length w > 1"

function getopt_words :: "getopt_spec \<Rightarrow> string list \<Rightarrow> getopt_event list \<times> string list" where
  "getopt_words spec [] = ([], [])"
| "getopt_words spec (w # ws) =
     (if w = ''--'' then ([], ws)
      else if option_word w then
        (let (found, rest) = getopt_word spec (tl w) ws; (more_found, operands) = getopt_words spec rest
         in (found @ more_found, operands))
      else if require_order spec then ([], w # ws)
      else (let (found, operands) = getopt_words spec ws in (found, w # operands)))"
  by pat_completeness auto
termination
proof (relation "measure (\<lambda>(spec, ws). length ws)")
  fix spec w ws rest and p :: "getopt_event list \<times> string list" and found
  assume "p = getopt_word spec (tl w) ws" "(found, rest) = p"
  then have "rest = snd (getopt_word spec (tl w) ws)" by (metis snd_conv)
  then show "((spec, rest), spec, w # ws) \<in> measure (\<lambda>(spec, ws). length ws)"
    using getopt_word_rest [of spec "tl w" ws] by (simp add: less_Suc_eq_le)
qed auto

definition getopt :: "bool \<Rightarrow> string \<Rightarrow> string list \<Rightarrow> getopt_event list \<times> string list" where
  "getopt posix optstring args = getopt_words (getopt_spec posix optstring) args"

section \<open>Lemmas\<close>

lemma getopt_word_argument:
  "Option c x \<in> set (fst (getopt_word spec cs rest)) \<Longrightarrow> takes_argument spec c = Some True \<Longrightarrow> x \<noteq> None"
  by (induction cs) (auto simp: split_beta split: option.splits bool.splits list.splits if_splits)

lemma getopt_words_argument:
  "Option c x \<in> set (fst (getopt_words spec ws)) \<Longrightarrow> takes_argument spec c = Some True \<Longrightarrow> x \<noteq> None"
proof (induction spec ws rule: getopt_words.induct)
  case (2 spec w ws)
  obtain found rest where word: "getopt_word spec (tl w) ws = (found, rest)" by fastforce
  obtain f1 o1 where 1: "getopt_words spec rest = (f1, o1)" by fastforce
  obtain f2 o2 where 2: "getopt_words spec ws = (f2, o2)" by fastforce
  show ?case
    using "2.prems" "2.IH"(1) [OF _ _ word [symmetric] refl] "2.IH"(2) word 1 2
      getopt_word_argument [of c x spec "tl w" ws]
    by (auto split: if_splits)
qed simp

text \<open>Words that are no options are all operands.\<close>

lemma getopt_words_plain: "list_all (\<lambda>w. \<not> option_word w) ws \<Longrightarrow> getopt_words spec ws = ([], ws)"
proof (induction ws)
  case (Cons w ws)
  then have "w \<noteq> ''--''" by (auto simp: option_word_def char_at_def)
  with Cons show ?case by simp
qed simp

text \<open>Without the plus sign and the variable an option behind operands is found all the same.\<close>

lemma getopt_words_behind:
  "list_all (\<lambda>w. \<not> option_word w) ws \<Longrightarrow> \<not> require_order spec \<Longrightarrow>
   getopt_words spec (ws @ rest) = (fst (getopt_words spec rest), ws @ snd (getopt_words spec rest))"
proof (induction ws)
  case (Cons w ws)
  then have "w \<noteq> ''--''" by (auto simp: option_word_def char_at_def)
  with Cons show ?case by (simp add: split_beta)
qed simp

end
