(* ===== verification/Shell_Main.thy ===== *)
theory Shell_Main
  imports Python_Loader Known_Hosts Slash_Base Getopt
begin

text \<open>
  The shell's start (\<open>main\<close> of \<open>src/main.c\<close>): the options, the two scripts run at the start and the variables set for
  them, the command line put together in batch mode, and the node shown in the prompt. The threads of the protocol and
  the signal handlers are calls in a trace. Scripts and the interactive loop are the shell library's and
  are arguments, functions on the variable store; commands in them may end the process.
\<close>

section \<open>The prompt\<close>

text \<open>The text of the node in an array of \<open>CSP_HOSTNAME_LEN\<close> bytes, here \<open>hostname_len\<close>: the known name, shortened if
  need be, an at sign and the number, or the number alone. The sum that decides is of unsigned type and is read back
  as a signed one.\<close>

definition prompt_node :: "nat \<Rightarrow> hosts_state \<Rightarrow> int \<Rightarrow> string c_result" where
  "prompt_node hostname_len st node =
     (case known_hosts_get_name st node (replicate hostname_len NUL) (hostname_len - 1) of
        Inl f \<Rightarrow> Inl f
      | Inr (found, nodebuf) \<Rightarrow>
          if found = 0 then Inr (take (hostname_len - 1) (show_int (to_int32 node)))
          else
            (let nodenumbuf = take 6 (CHR ''@'' # show_int (to_int32 node));
                 nodebuf = c_string nodebuf;
                 node_idx = int (length nodebuf);
                 overflow = (node_idx + int (length nodenumbuf)) - int hostname_len;
                 node_idx = (if overflow > 0 then node_idx - (overflow + 1) else node_idx);
                 node_idx = (if node_idx < 0 then 0 else node_idx);
                 nodebuf = take (nat node_idx) nodebuf
             in Inr (nodebuf @ take (hostname_len - length nodebuf - 1) nodenumbuf)))"

datatype queue_type = Queue_none | Queue_get | Queue_set

text \<open>The crumbs of the prompt: the machine, the node, the queue that is being edited; and the length the line editor
  is told. \<open>nodename\<close> is what \<open>uname\<close> gives.\<close>

definition slash_prompt ::
  "nat \<Rightarrow> string \<Rightarrow> hosts_state \<Rightarrow> int \<Rightarrow> queue_type \<Rightarrow> string \<Rightarrow> (string list \<times> nat) c_result" where
  "slash_prompt hostname_len nodename st node qtype qname =
     (let crumbs = [nodename]; len = 1 + length nodename in
      case (if node \<noteq> 0 then
              (case prompt_node hostname_len st node of
                 Inl f \<Rightarrow> Inl f
               | Inr nodebuf \<Rightarrow> Inr (crumbs @ [nodebuf], len + 3 + length nodebuf))
            else Inr (crumbs, len)) of
        Inl f \<Rightarrow> Inl f
      | Inr (crumbs, len) \<Rightarrow>
          (let (crumbs, len) =
             (case qtype of
                Queue_get \<Rightarrow> (crumbs @ [qname], len + 3 + (2 + length qname))
              | Queue_set \<Rightarrow> (crumbs @ [qname], len + 3 + (2 + length qname))
              | Queue_none \<Rightarrow> (crumbs, len))
           in Inr (crumbs, len + 3)))"

text \<open>An extension module may replace the prompt by a function of its own, here the crumbs and the length it gives.\<close>

definition csh_set_prompt_for_apm :: "'p option \<Rightarrow> 'p option \<Rightarrow> 'p option" where
  "csh_set_prompt_for_apm apm_prompt current_apm_prompt = apm_prompt"

definition prompt_with_apm ::
  "(string list \<times> nat) option \<Rightarrow> nat \<Rightarrow> string \<Rightarrow> hosts_state \<Rightarrow> int \<Rightarrow> queue_type \<Rightarrow> string \<Rightarrow> (string list \<times> nat) c_result" where
  "prompt_with_apm current_apm_prompt hostname_len nodename st node qtype qname =
     (case current_apm_prompt of
        Some r \<Rightarrow> Inr r
      | None \<Rightarrow> slash_prompt hostname_len nodename st node qtype qname)"

text \<open>A shell that comes back from a stop takes the terminal again if it was waiting in a command.\<close>

datatype terminal_call = Acquire_terminal | Refresh_line

definition sigcont_handler :: "bool \<Rightarrow> terminal_call list" where
  "sigcont_handler waiting = (if waiting then [Acquire_terminal, Refresh_line] else [])"

section \<open>The line hook\<close>

definition csh_environ_slash_process_cmd_line_hook ::
  "(nat \<Rightarrow> bool) \<Rightarrow> char \<Rightarrow> csh_env \<Rightarrow> string \<Rightarrow> string option c_result" where
  "csh_environ_slash_process_cmd_line_hook alloc junk env line = csh_expand_vars alloc junk env line"

section \<open>Starting\<close>

text \<open>The name of the initial script and its directory, or the code the program exits with.\<close>

fun main_options :: "getopt_event list \<Rightarrow> string \<Rightarrow> string option \<Rightarrow> int + string \<times> string option" where
  "main_options [] initfile dirname = Inr (initfile, dirname)"
| "main_options (Option c optarg # opts) initfile dirname =
     (if c = CHR ''h'' then Inl 0
      else if c = CHR ''i'' then
        (case optarg of None \<Rightarrow> Inl 1 | Some f \<Rightarrow> main_options opts f (Some []))
      else Inl 1)"
| "main_options (Missing_argument c # opts) initfile dirname =
     (if c = CHR ''i'' then main_options opts [] (Some []) else Inl 1)"
| "main_options (Unknown_option c # opts) initfile dirname = Inl 1"

text \<open>\<open>snprintf(path, 100, "%s/%s", dir, name)\<close>, or the name alone.\<close>

definition path_in :: "string option \<Rightarrow> string \<Rightarrow> string" where
  "path_in dirname nm =
     take 99 (case dirname of
        None \<Rightarrow> nm
      | Some d \<Rightarrow> if length d > 0 then d @ ''/'' @ nm else nm)"

text \<open>The variables for the initial script. A resolved path without a slash would be cut through the null pointer.\<close>

definition set_init_variables ::
  "(string \<Rightarrow> string option) \<Rightarrow> csh_env \<Rightarrow> string \<Rightarrow> csh_env c_result" where
  "set_init_variables realpath env buildpath =
     (let pathbuf = (case realpath buildpath of None \<Rightarrow> [] | Some p \<Rightarrow> p);
          env = csh_putvar env ''INIT_FILE'' pathbuf
      in if length pathbuf > 0 then
           (case strrchr_index pathbuf CHR ''/'' of
              None \<Rightarrow> Inl Null_Deref
            | Some last_slash \<Rightarrow> Inr (csh_putvar env ''INIT_DIR'' (take last_slash pathbuf)))
         else Inr (csh_putvar env ''INIT_DIR'' pathbuf))"

text \<open>Appending in batch mode. The offset computed from the result of \<open>strncat\<close> is always 0, so the bound is the
  size of the whole array.\<close>

abbreviation LINE_SIZE :: nat where "LINE_SIZE \<equiv> 512"

definition append_line :: "string \<Rightarrow> string \<Rightarrow> string c_result" where
  "append_line ex s =
     (let p = 0; ex = ex @ take (LINE_SIZE - p) s
      in if length ex + 1 > LINE_SIZE then Inl Out_Of_Bounds else Inr ex)"

fun batch_line :: "bool \<Rightarrow> string list \<Rightarrow> string \<Rightarrow> string c_result" where
  "batch_line first [] ex = Inr ex"
| "batch_line first (arg # args) ex =
     (case (if first then Inr ex else append_line ex '' '') of
        Inl f \<Rightarrow> Inl f
      | Inr ex \<Rightarrow>
          (case append_line ex arg of
             Inl f \<Rightarrow> Inl f
           | Inr ex \<Rightarrow> batch_line False args ex))"

text \<open>What the program does to the outside, and how it ends: with a code, with the result of the last command, or
  never, asleep without a terminal.\<close>

datatype main_call =
    Curl_init
  | Serial_init
  | Csp_init
  | Bind_service
  | Bind_param_server
  | Start_router
  | Start_vmem_server
  | Router_running
  | Rdp_options int int int int int int
  | Vmem_commands_init
  | Command_server_init
  | Schedule_server_init
  | Start_python interpreter
  | Script string csh_env
  | Line string csh_env
  | Loop csh_env
  | Cleanup
datatype main_end = Exits int | Returns slash_ret | Sleeps

text \<open>A script, a line or the loop gives its result, or the code with which a command in it has ended the process.\<close>

record main_world =
  file_exists :: "string \<Rightarrow> bool"
  real_path :: "string \<Rightarrow> string option"
  run_script :: "string \<Rightarrow> csh_env \<Rightarrow> int + slash_ret \<times> csh_env"
  run_line :: "string \<Rightarrow> csh_env \<Rightarrow> int + slash_ret"
  run_loop :: "csh_env \<Rightarrow> (int + slash_ret) option"
  slash_created :: bool
  signal_set :: "string \<Rightarrow> bool"
  built_with_python :: bool
  built_with_commands :: bool
  built_with_scheduler :: bool
  python_sys :: bool
  python_path :: "string list option"

text \<open>What is started before the first script, and the handlers that are installed behind the last one. From then on the end of
  the program, whatever its code, cleans up, which also empties the variable store.\<close>

definition main_init :: "main_world \<Rightarrow> main_call list" where
  "main_init w =
     [Curl_init, Serial_init, Csp_init, Bind_service, Bind_param_server, Start_router, Start_vmem_server] @
     (if built_with_python w then [Router_running] else []) @ [Rdp_options 3 10000 5000 1 2000 2] @
     (if built_with_commands w then [Vmem_commands_init, Command_server_init] else []) @
     (if built_with_scheduler w then [Schedule_server_init] else [])"

text \<open>The interpreter is started between the two scripts.\<close>

definition main_python :: "main_world \<Rightarrow> string option \<Rightarrow> main_call list c_result" where
  "main_python w home =
     (if \<not> built_with_python w then Inr []
      else
        (case py_init_interpreter (python_sys w) home (python_path w)
                \<lparr>py_running = False, main_thread_state = False, py_sys_path = None\<rparr> of
           Inl f \<Rightarrow> Inl f
         | Inr st \<Rightarrow> Inr [Start_python st]))"

definition install_handlers :: "main_world \<Rightarrow> bool" where
  "install_handlers w \<longleftrightarrow> signal_set w ''SIGINT'' \<and> signal_set w ''SIGTERM'' \<and> signal_set w ''SIGCONT''"

definition csh_cleanup :: "csh_env \<Rightarrow> csh_env \<times> main_call list" where
  "csh_cleanup env = (csh_clearenv env, [Cleanup])"

text \<open>Running the two scripts: the last result and the store, or the code with which a script has ended the process, and the
  calls. What the first script returns is not looked at. The length of \<open>dirname\<close> is taken although it is null without a
  home directory.\<close>

definition main_scripts ::
  "main_world \<Rightarrow> string option \<Rightarrow> string \<Rightarrow> string option \<Rightarrow> ((int + slash_ret \<times> csh_env) \<times> main_call list) c_result" where
  "main_scripts w home initfile dirname =
     (let path = path_in home ''csh_hosts'';
          (hosts, calls) = (if file_exists w path then (run_script w path [], [Script path []]) else (Inr (SLASH_SUCCESS, []), []));
          buildpath = path_in dirname initfile
      in case hosts of
           Inl status \<Rightarrow> Inr (Inl status, calls)
         | Inr (ret, env) \<Rightarrow>
             (case set_init_variables (real_path w) env buildpath of
                Inl f \<Rightarrow> Inl f
              | Inr env \<Rightarrow>
                  (case main_python w home of
                     Inl f \<Rightarrow> Inl f
                   | Inr started \<Rightarrow>
                       (case dirname of
                          None \<Rightarrow> Inl Null_Deref
                        | Some d \<Rightarrow>
                            if length d = 0 \<and> length initfile > 0 \<or> file_exists w buildpath
                            then Inr (run_script w buildpath env, calls @ started @ [Script buildpath env])
                            else Inr (Inr (SLASH_SUCCESS, env), calls @ started)))))"

text \<open>The end of the program behind the installation of the handlers.\<close>

definition main_ends :: "int + slash_ret \<Rightarrow> main_end" where
  "main_ends r = (case r of Inl status \<Rightarrow> Exits status | Inr ret \<Rightarrow> Returns ret)"

text \<open>\<open>posix\<close> is whether \<open>POSIXLY_CORRECT\<close> is set.\<close>

definition main_shell ::
  "bool \<Rightarrow> main_world \<Rightarrow> string option \<Rightarrow> string list \<Rightarrow> (main_end \<times> main_call list) c_result" where
  "main_shell posix w home argv =
     (let (opts, args) = getopt posix '':+hi:'' (tl argv) in
      case main_options opts ''init.csh'' home of
        Inl status \<Rightarrow> Inr (Exits status, [])
      | Inr (initfile, dirname) \<Rightarrow>
          if \<not> slash_created w then Inr (Exits 1, [Curl_init, Serial_init])
          else
            (case main_scripts w home initfile dirname of
               Inl f \<Rightarrow> Inl f
             | Inr (Inl status, calls) \<Rightarrow> Inr (Exits status, main_init w @ calls)
             | Inr (Inr (ret, env), calls) \<Rightarrow>
                 (let calls = main_init w @ calls; (cleared, cleanup) = csh_cleanup env in
                  if \<not> install_handlers w then Inr (Exits 1, calls @ cleanup)
                  else if ret \<noteq> SLASH_EXIT \<and> args \<noteq> [] then
                    (case batch_line True args [] of
                       Inl f \<Rightarrow> Inl f
                     | Inr ex \<Rightarrow> Inr (main_ends (run_line w ex env), calls @ [Line ex env] @ cleanup))
                  else if ret \<noteq> SLASH_EXIT then
                    (case run_loop w env of
                       None \<Rightarrow> Inr (Sleeps, calls @ [Loop env])
                     | Some r \<Rightarrow> Inr (main_ends r, calls @ [Loop env] @ cleanup))
                  else Inr (Returns ret, calls @ cleanup))))"

section \<open>Properties\<close>

lemma c_string_strncpy:
  assumes "nul_free nm" "0 < n"
  shows "c_string (strncpy (replicate n NUL) nm (n - 1)) = take (n - 1) nm"
proof -
  have "strncpy (replicate n NUL) nm (n - 1) = take (n - 1) nm @ replicate (n - 1 - length nm + 1) NUL"
    using assms(2) by (simp add: strncpy_def replicate_append_same)
  then show ?thesis using assms(1) by (simp only: c_string_append_NUL) simp
qed

text \<open>
  The prompt shows a node with a known name as that name, cut so that it fits with the number behind it, an at
  sign and the number; but when name and number together are exactly as long as the array, the last digit of the
  number is lost, and the prompt shows another node.
\<close>

theorem prompt_shows_node:
  assumes "name_of_host st node = Some nm" "nul_free nm" "0 \<le> node" "node < 16384" "8 \<le> hostname_len"
  shows "prompt_node hostname_len st node =
     (let num = CHR ''@'' # show_nat (nat node); short = take (hostname_len - 1) nm
      in if length short + length num = hostname_len then Inr (short @ butlast num)
         else Inr (take (hostname_len - 1 - length num) nm @ num))"
proof -
  obtain h where "find (\<lambda>host. host_node host = node) (known_hosts st) = Some h" "host_name h = nm"
    using assms(1) by (auto simp: name_of_host_def)
  then have get: "known_hosts_get_name st node (replicate hostname_len NUL) (hostname_len - 1) =
      Inr (1, strncpy (replicate hostname_len NUL) nm (hostname_len - 1))"
    by (simp add: known_hosts_get_name_def)
  define num where "num = CHR ''@'' # show_nat (nat node)"
  define short where "short = take (hostname_len - 1) nm"
  have "length (show_nat (nat node)) \<le> 5" using assms(4) by (intro length_show_nat_le) auto
  then have num: "length num \<le> 6" "num \<noteq> []" by (simp_all add: num_def)
  have "to_int32 node = node" using assms(3,4) by (intro to_int32_id) auto
  then have show_num: "take 6 (CHR ''@'' # show_int (to_int32 node)) = num"
    using assms(3) num(1) by (simp add: num_def show_int_def)
  have short: "length short \<le> hostname_len - 1" "c_string (strncpy (replicate hostname_len NUL) nm (hostname_len - 1)) = short"
    using assms(2,5) c_string_strncpy [of nm hostname_len] by (simp_all add: short_def)
  have body: "prompt_node hostname_len st node =
      (let overflow = int (length short) + int (length num) - int hostname_len;
           idx = (if overflow > 0 then int (length short) - (overflow + 1) else int (length short));
           idx = (if idx < 0 then 0 else idx); nodebuf = take (nat idx) short
       in Inr (nodebuf @ take (hostname_len - length nodebuf - 1) num))"
    unfolding prompt_node_def get sum.case prod.case short(2) show_num Let_def by simp
  consider (fits) "length short + length num < hostname_len" | (exact) "length short + length num = hostname_len"
    | (cut) "length short + length num > hostname_len" by linarith
  then have "prompt_node hostname_len st node =
      (if length short + length num = hostname_len then Inr (short @ butlast num)
       else Inr (take (hostname_len - 1 - length num) nm @ num))"
  proof cases
    case fits
    have "0 < length num" using num(2) by simp
    with fits assms(5) have "length nm \<le> hostname_len - 1 - length num"
      unfolding short_def length_take by linarith
    then have "take (hostname_len - 1 - length num) nm = short" by (simp add: short_def)
    with fits show ?thesis
      by (simp add: body Let_def)
  next
    case exact
    then have "take (hostname_len - Suc (length short)) num = butlast num"
      unfolding exact [symmetric] by (simp add: butlast_conv_take)
    with exact show ?thesis
      by (simp add: body Let_def)
  next
    case cut
    have idx: "nat (int (length short) - (int (length short) + int (length num) - int hostname_len + 1)) =
        hostname_len - 1 - length num"
      using num assms(5) by linarith
    have "take (hostname_len - 1 - length num) short = take (hostname_len - 1 - length num) nm"
      using num by (simp add: short_def)
    moreover have "hostname_len - 1 - length num \<le> length short" using cut by linarith
    ultimately show ?thesis
      using cut num assms(5) idx
      by (simp add: body Let_def)
  qed
  then show ?thesis by (simp add: num_def short_def Let_def)
qed

text \<open>A table with one host, whose name has 16 characters.\<close>

abbreviation long_host :: hosts_state where
  "long_host \<equiv> \<lparr>known_hosts = [\<lparr>host_node = 123, host_name = ''payload-computer''\<rparr>], host_env = [],
     known_host_storage_size = SIZEOF_HOST\<rparr>"

theorem prompt_shows_node_witness:
  "prompt_node 20 long_host 123 = Inr (''payload-computer@12'')"
proof -
  have "name_of_host long_host 123 = Some ''payload-computer''" "nul_free ''payload-computer''"
    by (simp_all add: name_of_host_def nul_free_def)
  moreover have "show_nat 123 = ''123''" by code_simp
  ultimately show ?thesis using prompt_shows_node [of long_host 123 "''payload-computer''" 20] by simp
qed

text \<open>The line a batch means: the arguments with a space between them.\<close>

definition joined :: "string list \<Rightarrow> string" where
  "joined args = concat (case args of [] \<Rightarrow> [] | a # as \<Rightarrow> a # map ((#) CHR '' '') as)"

lemma batch_line_rest:
  "length ex < LINE_SIZE \<Longrightarrow> batch_line False args ex =
     (if length (ex @ concat (map ((#) CHR '' '') args)) < LINE_SIZE then Inr (ex @ concat (map ((#) CHR '' '') args))
      else Inl Out_Of_Bounds)"
proof (induction args arbitrary: ex)
  case (Cons arg args)
  consider (space) "length ex + 1 \<ge> LINE_SIZE" | (arg) "length ex + 1 < LINE_SIZE" "length ex + 1 + length arg \<ge> LINE_SIZE"
    | (ok) "length ex + 1 + length arg < LINE_SIZE" by linarith
  then show ?case
  proof cases
    case ok
    then have "batch_line False (arg # args) ex = batch_line False args (ex @ '' '' @ arg)"
      by (simp add: append_line_def Let_def)
    with ok show ?thesis using Cons.IH [of "ex @ '' '' @ arg"] by simp
  qed (use Cons.prems in \<open>auto simp: append_line_def Let_def\<close>)
qed simp

text \<open>
  In batch mode the shell executes exactly the arguments joined by spaces as long as they have fewer than 512
  characters; from 512 on, the line is written behind its array, because the bound given to \<open>strncat\<close> never
  decreases.
\<close>

theorem batch_line_bounds:
  "batch_line True args [] = (if length (joined args) < LINE_SIZE then Inr (joined args) else Inl Out_Of_Bounds)"
proof (cases args)
  case (Cons a as)
  show ?thesis
  proof (cases "length a < LINE_SIZE")
    case True
    then show ?thesis using batch_line_rest [OF True] Cons by (simp add: joined_def append_line_def Let_def)
  next
    case False
    then show ?thesis using Cons by (simp add: joined_def append_line_def Let_def)
  qed
qed (simp add: joined_def)

lemma set_init_gets:
  assumes "realpath buildpath = Some (dir @ CHR ''/'' # base)" "CHR ''/'' \<notin> set base"
  shows "\<exists>env'. set_init_variables realpath env buildpath = Inr env' \<and>
    csh_getvar env' ''INIT_FILE'' = Some (dir @ CHR ''/'' # base) \<and> csh_getvar env' ''INIT_DIR'' = Some dir \<and>
    (\<forall>v. v \<noteq> ''INIT_FILE'' \<and> v \<noteq> ''INIT_DIR'' \<longrightarrow> csh_getvar env' v = csh_getvar env v)"
  using assms
  by (simp add: set_init_variables_def strrchr_index_last env_store.get_put Let_def)

lemma set_init_ok:
  assumes "\<And>p q. realpath p = Some q \<Longrightarrow> CHR ''/'' \<in> set q"
  shows "\<exists>env'. set_init_variables realpath env buildpath = Inr env'"
  using assms [of buildpath]
  by (auto simp: set_init_variables_def Let_def strrchr_index_def split: option.split)

text \<open>What the first script leaves of the variables, if it does not end the process.\<close>

definition hosts_result :: "main_world \<Rightarrow> string option \<Rightarrow> int + slash_ret \<times> csh_env" where
  "hosts_result w home =
     (if file_exists w (path_in home ''csh_hosts'') then run_script w (path_in home ''csh_hosts'') [] else Inr (SLASH_SUCCESS, []))"

definition hosts_calls :: "main_world \<Rightarrow> string option \<Rightarrow> main_call list" where
  "hosts_calls w home =
     (if file_exists w (path_in home ''csh_hosts'') then [Script (path_in home ''csh_hosts'') []] else [])"

lemma main_scripts_hosts:
  "main_scripts w home initfile dirname =
     (case hosts_result w home of
        Inl status \<Rightarrow> Inr (Inl status, hosts_calls w home)
      | Inr (ret, env) \<Rightarrow>
          (case set_init_variables (real_path w) env (path_in dirname initfile) of
             Inl f \<Rightarrow> Inl f
           | Inr env \<Rightarrow>
               (case main_python w home of
                  Inl f \<Rightarrow> Inl f
                | Inr started \<Rightarrow>
                    (case dirname of
                       None \<Rightarrow> Inl Null_Deref
                     | Some d \<Rightarrow>
                         if length d = 0 \<and> length initfile > 0 \<or> file_exists w (path_in dirname initfile)
                         then Inr (run_script w (path_in dirname initfile) env,
                           hosts_calls w home @ started @ [Script (path_in dirname initfile) env])
                         else Inr (Inr (SLASH_SUCCESS, env), hosts_calls w home @ started)))))"
  unfolding main_scripts_def hosts_result_def hosts_calls_def Let_def
  by (cases "file_exists w (path_in home ''csh_hosts'')")
    (simp_all cong del: sum.case_cong_weak option.case_cong_weak)


lemma main_python_home: "home \<noteq> None \<Longrightarrow> \<exists>started. main_python w home = Inr started"
  by (auto simp: main_python_def py_init_interpreter_def append_pyapm_paths_def split: option.split)

text \<open>
  Started with \<open>-i\<close> and a file that resolves to \<open>dir/base\<close>, the shell runs that file as its last script, and the
  script sees the resolved path in \<open>INIT_FILE\<close>, \<open>dir\<close> in \<open>INIT_DIR\<close>, and the variables the hosts script set.
\<close>

theorem main_runs_init_file:
  assumes "initfile \<noteq> []" "length initfile < 100" "home \<noteq> None"
    and "real_path w initfile = Some (dir @ CHR ''/'' # base)" "CHR ''/'' \<notin> set base"
    and "hosts_result w home = Inr (hosts_ret, env)"
  shows "\<exists>env' calls. main_scripts w home initfile (Some []) = Inr (run_script w initfile env', calls @ [Script initfile env']) \<and>
     csh_getvar env' ''INIT_FILE'' = Some (dir @ CHR ''/'' # base) \<and> csh_getvar env' ''INIT_DIR'' = Some dir \<and>
     (\<forall>v. v \<noteq> ''INIT_FILE'' \<and> v \<noteq> ''INIT_DIR'' \<longrightarrow> csh_getvar env' v = csh_getvar env v)"
proof -
  have path: "path_in (Some []) initfile = initfile" using assms(2) by (simp add: path_in_def)
  obtain env' where "set_init_variables (real_path w) env initfile = Inr env'"
    and "csh_getvar env' ''INIT_FILE'' = Some (dir @ CHR ''/'' # base)" "csh_getvar env' ''INIT_DIR'' = Some dir"
      "\<forall>v. v \<noteq> ''INIT_FILE'' \<and> v \<noteq> ''INIT_DIR'' \<longrightarrow> csh_getvar env' v = csh_getvar env v"
    using set_init_gets [of "real_path w", OF assms(4,5)] by blast
  moreover obtain started where "main_python w home = Inr started" using main_python_home [OF assms(3)] by blast
  ultimately show ?thesis
    using assms(1,6) by (intro exI [of _ env'] exI [of _ "hosts_calls w home @ started"]) (simp add: main_scripts_hosts path)
qed

lemma main_scripts_ok:
  assumes "\<And>p q. real_path w p = Some q \<Longrightarrow> CHR ''/'' \<in> set q"
  shows "no_fault (main_scripts w home ''init.csh'' home) \<longleftrightarrow> home \<noteq> None \<or> (\<exists>status. hosts_result w home = Inl status)"
proof (cases "hosts_result w home")
  case (Inr r)
  obtain ret env where r: "r = (ret, env)" by fastforce
  obtain env' where env': "set_init_variables (real_path w) env (path_in home ''init.csh'') = Inr env'"
    using set_init_ok [of "real_path w" env "path_in home ''init.csh''"] assms by blast
  show ?thesis
  proof (cases home)
    case None
    then show ?thesis using Inr r env' by (simp add: main_scripts_hosts split: sum.split)
  next
    case (Some h)
    then obtain started where "main_python w home = Inr started" using main_python_home [of home w] by auto
    then show ?thesis using Inr r env' Some by (simp add: main_scripts_hosts)
  qed
qed (simp add: main_scripts_hosts)

text \<open>
  C40: Without options and with a command line of fewer than 512 characters the start runs into no fault exactly if
  there is a home directory: with \<open>HOME\<close> unset the length of a null string is taken. (A hosts script in the current directory
  that ends the program itself, before that, is the only exception.)
\<close>

theorem main_safe_iff_home:
  assumes "\<And>p q. real_path w p = Some q \<Longrightarrow> CHR ''/'' \<in> set q" "length (joined args) < LINE_SIZE" "slash_created w"
    and "list_all (\<lambda>arg. \<not> option_word arg) args"
  shows "no_fault (main_shell posix w home (''csh'' # args)) \<longleftrightarrow>
    home \<noteq> None \<or> file_exists w ''csh_hosts'' \<and> (\<exists>status. run_script w ''csh_hosts'' [] = Inl status)"
proof -
  have line: "batch_line True args [] = Inr (joined args)"
  proof (cases args)
    case (Cons a as)
    then have "length a < LINE_SIZE" using assms(2) by (simp add: joined_def)
    then show ?thesis using batch_line_rest [of a as] assms(2) Cons
      by (simp add: joined_def append_line_def Let_def)
  qed (simp add: joined_def)
  have scripts: "no_fault (main_scripts w home ''init.csh'' home) \<longleftrightarrow> home \<noteq> None \<or> (\<exists>status. hosts_result w home = Inl status)"
    using assms(1) by (rule main_scripts_ok)
  have opts: "getopt posix '':+hi:'' args = ([], args)"
    using getopt_words_plain [OF assms(4)] by (simp add: getopt_def)
  have "no_fault (main_shell posix w home (''csh'' # args)) \<longleftrightarrow> no_fault (main_scripts w home ''init.csh'' home)"
    using line opts assms(3)
    by (cases "main_scripts w home ''init.csh'' home")
      (auto simp: main_shell_def Let_def split_beta csh_cleanup_def split: option.split sum.split)
  moreover have "home = None \<Longrightarrow> (\<exists>status. hosts_result w home = Inl status) \<longleftrightarrow>
      file_exists w ''csh_hosts'' \<and> (\<exists>status. run_script w ''csh_hosts'' [] = Inl status)"
    by (simp add: hosts_result_def path_in_def)
  ultimately show ?thesis using scripts by blast
qed



abbreviation demo_main :: main_world where
  "demo_main \<equiv> \<lparr>file_exists = (\<lambda>p. False), real_path = (\<lambda>p. Some (''/home/u'' @ CHR ''/'' # p)),
     run_script = (\<lambda>p env. Inr (SLASH_SUCCESS, env)), run_line = (\<lambda>l env. Inr SLASH_SUCCESS),
     run_loop = (\<lambda>env. Some (Inr SLASH_SUCCESS)), slash_created = True, signal_set = (\<lambda>s. True), built_with_python = False,
     built_with_commands = False, built_with_scheduler = False, python_sys = True, python_path = Some []\<rparr>"

theorem main_runs_init_file_witness:
  "\<exists>env' calls. main_scripts demo_main (Some ''/home/u'') ''my.csh'' (Some []) =
       Inr (Inr (SLASH_SUCCESS, env'), calls @ [Script ''my.csh'' env']) \<and> csh_getvar env' ''INIT_DIR'' = Some ''/home/u''"
  using main_runs_init_file [of "''my.csh''" "Some ''/home/u''" demo_main "''/home/u''" "''my.csh''" SLASH_SUCCESS "[]"]
  by (auto simp: hosts_result_def)



theorem main_safe_iff_home_witness:
  "no_fault (main_shell False demo_main (Some ''/home/u'') [''csh'', ''ping'', ''5'']) \<and>
   \<not> no_fault (main_shell False demo_main None [''csh'', ''ping'', ''5''])"
  using main_safe_iff_home [of demo_main "[''ping'', ''5'']"] by (simp add: joined_def option_word_def char_at_def)

text \<open>
  C33: In batch mode the options of a command are taken for the shell's: the plus sign that should end the options at the
  first operand stands behind the colon, where it has no effect, so that, if the shell does not have the option, the program
  ends at once and the command is not run. So it is for any first option behind words that are none, as long as the
  environment does not set \<open>POSIXLY_CORRECT\<close>; with that variable set, or behind \<open>--\<close>, the command gets all its options.
\<close>

theorem batch_command_options_refused:
  assumes "list_all (\<lambda>arg. \<not> option_word arg) words" "c \<notin> {CHR ''h'', CHR ''i'', CHR ''-''}"
  shows "main_shell False w home (''csh'' # words @ (CHR ''-'' # c # cs) # rest) = Inr (Exits 1, []) \<and>
    (words \<noteq> [] \<longrightarrow> getopt True '':+hi:'' (words @ (CHR ''-'' # c # cs) # rest) = ([], words @ (CHR ''-'' # c # cs) # rest)) \<and>
    getopt False '':+hi:'' (''--'' # words @ (CHR ''-'' # c # cs) # rest) = ([], words @ (CHR ''-'' # c # cs) # rest)"
proof -
  let ?spec = "getopt_spec False '':+hi:''" and ?args = "words @ (CHR ''-'' # c # cs) # rest"
  have spec: "\<not> require_order ?spec" "takes_argument ?spec (CHR ''+'') = Some False" by code_simp+
  have "option_chars ?spec = '':+hi:''" by code_simp
  then have none: "takes_argument ?spec c = None" if "c \<noteq> CHR ''+''"
    using assms(2) that by (auto simp: takes_argument_def)
  obtain ev evs where ev: "fst (getopt_words ?spec ((CHR ''-'' # c # cs) # rest)) = ev # evs"
    "ev = Unknown_option c \<or> ev = Option (CHR ''+'') None"
    using assms(2) spec(2) none by (cases "c = CHR ''+''") (auto simp: option_word_def char_at_def split_beta)
  have "fst (getopt False '':+hi:'' ?args) = ev # evs"
    using getopt_words_behind [OF assms(1) spec(1)] ev(1) by (simp add: getopt_def)
  then obtain args where args: "getopt False '':+hi:'' ?args = (ev # evs, args)"
    by (cases "getopt False '':+hi:'' ?args") simp
  have "main_shell False w home (''csh'' # ?args) = Inr (Exits 1, [])"
    unfolding main_shell_def list.sel args Let_def prod.case using ev(2) by auto
  moreover have "getopt True '':+hi:'' ?args = ([], ?args)" if ne: "words \<noteq> []"
  proof -
    obtain w' ws where w: "words = w' # ws" using ne by (cases words) auto
    have "require_order (getopt_spec True '':+hi:'')" by code_simp
    moreover have "w' \<noteq> ''--''" using assms(1) w by (auto simp: option_word_def char_at_def)
    ultimately show ?thesis using assms(1) w by (simp add: getopt_def)
  qed
  ultimately show ?thesis by (simp add: getopt_def)
qed

theorem batch_command_options_refused_witness:
  "main_shell False demo_main (Some ''/home/u'') [''csh'', ''ident'', ''-n'', ''5''] = Inr (Exits 1, [])"
  using batch_command_options_refused [of "[''ident'']" "CHR ''n''" demo_main "Some ''/home/u''" "[]" "[''5'']"]
  by (simp add: option_word_def char_at_def)

end
