(* ===== verification/Loki.thy ===== *)
theory Loki
  imports Csp_Init Slash_Utils
begin

text \<open>
  The log client of \<open>src/loki.c\<close>: cleaning a chunk of terminal output, cutting it into lines, packing the lines into a
  JSON message, the count of failed posts, and the command that starts the client. The turns of the
  two threads are list elements; the HTTP library and the clock are arguments.
\<close>

section \<open>Cleaning\<close>

abbreviation NL :: char where "NL \<equiv> CHR 0x0A"
abbreviation CR :: char where "CR \<equiv> CHR 0x0D"
abbreviation TAB :: char where "TAB \<equiv> CHR 0x09"
abbreviation ESC :: char where "ESC \<equiv> CHR 0x1B"
abbreviation QUOTE :: char where "QUOTE \<equiv> CHR 0x22"
abbreviation APOS :: char where "APOS \<equiv> CHR 0x27"

text \<open>\<open>char\<close> is signed: a byte of 128 or more is negative.\<close>

definition below_32 :: "char \<Rightarrow> bool" where
  "below_32 c \<longleftrightarrow> code c < 32 \<or> 128 \<le> code c"

definition ansi_arg :: "char \<Rightarrow> bool" where
  "ansi_arg c \<longleftrightarrow> isdigit c \<or> c = CHR '';''"

definition newline_run :: "char \<Rightarrow> bool" where
  "newline_run c \<longleftrightarrow> below_32 c \<and> c \<noteq> ESC"

lemma newline_run_NL: "newline_run NL"
  by (simp add: newline_run_def below_32_def code_def)

text \<open>The loop: what it writes and how many terminators it put in. Writing happens in place, behind the reading.\<close>

function strip_loop :: "string \<Rightarrow> string \<times> nat" where
  "strip_loop [] = ([], 0)"
| "strip_loop (c # cs) =
     (if c = ESC then
        (if char_at cs 0 = CHR ''['' then strip_loop (drop 1 (dropWhile ansi_arg (drop 1 cs)))
         else strip_loop cs)
      else if c = NL then
        (let (out, n) = strip_loop (dropWhile newline_run (c # cs)) in (NUL # out, Suc n))
      else if c = TAB then (let (out, n) = strip_loop cs in (CHR '' '' # out, n))
      else if c = QUOTE then (let (out, n) = strip_loop cs in (APOS # out, n))
      else if below_32 c then strip_loop cs
      else (let (out, n) = strip_loop cs in (c # out, n)))"
  by pat_completeness auto
termination
proof (relation "measure length")
  fix c :: char and cs :: string
  have "length (dropWhile ansi_arg (drop 1 cs)) \<le> length cs"
    using length_dropWhile_le [of ansi_arg "drop 1 cs"] by simp
  then show "(drop 1 (dropWhile ansi_arg (drop 1 cs)), c # cs) \<in> measure length" by simp
next
  fix c :: char and cs :: string
  assume "c = NL"
  then show "(dropWhile newline_run (c # cs), c # cs) \<in> measure length"
    using length_dropWhile_le [of newline_run cs] newline_run_NL by (simp add: less_Suc_eq_le)
qed auto

text \<open>The buffer up to its last terminator, and the count, one more from two lines on.\<close>

definition strip_str :: "string \<Rightarrow> string \<times> nat" where
  "strip_str str =
     (let (out, str_counter) = strip_loop (dropWhile (\<lambda>c. c = NL \<or> c = CR) str)
      in (out @ [NUL], if str_counter \<ge> 2 then str_counter + 1 else str_counter))"

section \<open>Packing\<close>

text \<open>The clock gives microseconds, three zeros make them nanoseconds; a line is cut to fit 4048 bytes.\<close>

definition log_entry :: "nat \<Rightarrow> string \<Rightarrow> string" where
  "log_entry usec line =
     take 4047 (''['' @ [QUOTE] @ show_nat usec @ ''000'' @ [QUOTE] @ '', '' @ [QUOTE] @ line @ [QUOTE] @ ''],'')"

definition prompt_line :: "string \<Rightarrow> bool" where
  "prompt_line line \<longleftrightarrow> strstr line '' @ '' \<noteq> None \<and> strstr line '' d. '' \<noteq> None"

abbreviation LOG_SIZE :: nat where "LOG_SIZE \<equiv> 1048476"

text \<open>The walk over the lines in the buffer \<open>p\<close>: how many it passed and the text of the values. It stops at an
  empty line, and after as many lines as were counted.\<close>

function pack_lines :: "(nat \<Rightarrow> nat) \<Rightarrow> nat \<Rightarrow> string \<Rightarrow> nat \<Rightarrow> string \<Rightarrow> (nat \<times> string) c_result" where
  "pack_lines clock str_counter p i formatted =
     (if p = [] then Inl Out_Of_Bounds
      else if hd p = NUL then Inr (i, formatted)
      else
        (let line = takeWhile (\<lambda>c. c \<noteq> NUL) p;
             formatted' = (if prompt_line line then formatted else formatted @ log_entry (clock i) line);
             rest = drop (length line + 1) p
         in if length formatted' + 1 > LOG_SIZE then Inl Out_Of_Bounds
            else if i + 1 = str_counter then Inr (i + 1, formatted')
            else pack_lines clock str_counter rest (i + 1) formatted'))"
  by pat_completeness auto
termination
  by (relation "measure (\<lambda>(clock, n, p, i, f). length p)") auto

declare pack_lines.simps [simp del]

section \<open>The message\<close>

definition quoted :: "string \<Rightarrow> string" where
  "quoted s = QUOTE # s @ [QUOTE]"

definition json_text :: "string \<Rightarrow> int \<Rightarrow> bool \<Rightarrow> string \<Rightarrow> string" where
  "json_text hostname node iscmd formatted =
     ''{'' @ quoted ''streams'' @ '': [{'' @ quoted ''stream'' @ '': {'' @
     quoted ''instance'' @ '': '' @ quoted hostname @ '','' @
     quoted ''node'' @ '': '' @ quoted (show_nat (nat node)) @ '','' @
     quoted ''type'' @ '': '' @ quoted (if iscmd then ''cmd'' else ''stdout'') @
     ''},'' @ quoted ''values'' @ '': ['' @ formatted @ '']}]}''"

text \<open>The format string has 86 characters and a terminator, 8 of them conversions.\<close>

abbreviation JSON_FORMAT_SIZE :: nat where "JSON_FORMAT_SIZE \<equiv> 87"

record json_str_t =
  json_data :: string
  json_len :: nat

record loki_world =
  loki_clock :: "nat \<Rightarrow> nat"
  loki_hostname :: string
  loki_node :: int
  HOSTNAME_LEN :: nat

definition make_json :: "loki_world \<Rightarrow> bool \<Rightarrow> nat \<Rightarrow> string \<Rightarrow> json_str_t" where
  "make_json w iscmd format_len formatted =
     (let json_str_max = format_len + HOSTNAME_LEN w + JSON_FORMAT_SIZE + 11;
          text = json_text (loki_hostname w) (loki_node w) iscmd formatted
      in \<lparr>json_data = take (json_str_max - 1) text, json_len = length text\<rparr>)"

text \<open>The queue of messages after adding a chunk. \<open>mem\<close> is whether there is memory for the message.\<close>

definition loki_add ::
  "loki_world \<Rightarrow> bool \<Rightarrow> bool \<Rightarrow> string \<Rightarrow> bool \<Rightarrow> json_str_t list \<Rightarrow> json_str_t list c_result" where
  "loki_add w mem running log iscmd queue =
     (if \<not> running then Inr queue
      else
        (let (buffer, str_counter) = strip_str log in
         if str_counter < 1 then Inr queue
         else
           (case pack_lines (loki_clock w) str_counter buffer 0 [] of
              Inl f \<Rightarrow> Inl f
            | Inr (i, formatted) \<Rightarrow>
                if i = 0 then Inr queue
                else if formatted = [] then Inr queue
                else if \<not> mem then Inr queue
                else Inr (queue @ [make_json w iscmd (length formatted) (butlast formatted)]))))"

text \<open>Commands are logged with a newline behind them.\<close>

definition on_loki_slash_execute_hook ::
  "loki_world \<Rightarrow> bool \<Rightarrow> bool \<Rightarrow> string \<Rightarrow> json_str_t list \<Rightarrow> json_str_t list c_result" where
  "on_loki_slash_execute_hook w mem running line queue =
     (if running \<and> mem then loki_add w mem running (line @ [NL]) True queue else Inr queue)"

section \<open>Posting\<close>

record post_state =
  loki_running :: bool
  curl_err_count :: nat

definition post_result :: "bool \<Rightarrow> post_state \<Rightarrow> post_state" where
  "post_result ok st =
     (if ok then st\<lparr>curl_err_count := 0\<rparr>
      else
        (let st = st\<lparr>curl_err_count := curl_err_count st + 1\<rparr>
         in if curl_err_count st > 5 then st\<lparr>loki_running := False, curl_err_count := 0\<rparr> else st))"

fun post_thread :: "bool list \<Rightarrow> post_state \<Rightarrow> post_state" where
  "post_thread [] st = st"
| "post_thread (ok # oks) st = (if loki_running st then post_thread oks (post_result ok st) else st)"

section \<open>Reading the terminal's output\<close>

text \<open>Standard output is the pipe; what is read from it goes to the terminal, then to the log up to its first NUL. One element
  per turn: whether the client runs when the turn begins, the bytes read (none if nothing could be read), how many of them
  the terminal takes (the code does not look), and whether the client still runs when they are added. \<open>readbuffer\<close> holds
  zeros but for the bytes read. The state is what the terminal has got and the queue.\<close>

record pipe_turn =
  turn_runs :: bool
  turn_chunk :: string
  turn_written :: nat
  turn_logs :: bool

fun read_pipe ::
  "loki_world \<Rightarrow> bool \<Rightarrow> pipe_turn list \<Rightarrow> string \<times> json_str_t list \<Rightarrow> (string \<times> json_str_t list) c_result"
where
  "read_pipe w mem [] st = Inr st"
| "read_pipe w mem (t # turns) (terminal, queue) =
     (if \<not> turn_runs t then Inr (terminal, queue)
      else if turn_chunk t = [] then read_pipe w mem turns (terminal, queue)
      else
        (case loki_add w mem (turn_logs t) (c_string (turn_chunk t)) False queue of
           Inl f \<Rightarrow> Inl f
         | Inr queue \<Rightarrow> read_pipe w mem turns (terminal @ take (turn_written t) (turn_chunk t), queue)))"

section \<open>Starting\<close>

text \<open>The options live as long as the program; the parser changes them in place. \<open>loki_started\<close> is the code's
  \<open>loki_running\<close>.\<close>

record loki_args =
  use_ssl :: int
  loki_port :: int
  skip_verify :: int
  loki_verbose :: int
  loki_username :: "string option"
  loki_password :: "string option"
  server_ip :: "string option"
  api_root :: "string option"

record loki_state =
  loki_args :: loki_args
  loki_started :: bool
  loki_protocol :: string
  loki_url :: string

record loki_opts =
  lo_args :: loki_args
  lo_user :: "string option"
  lo_pass :: "string option"
  lo_key_file :: "string option"

abbreviation SERVER_PORT :: int where "SERVER_PORT \<equiv> 3100"

definition read_password :: "string \<Rightarrow> string option" where
  "read_password contents =
     (if contents = [] then None
      else Some (takeWhile (\<lambda>c. c \<noteq> NL) (c_string (take 1023 contents))))"

definition make_url :: "loki_args \<Rightarrow> string \<Rightarrow> string" where
  "make_url args protocol =
     take 255
       (case api_root args of
          Some root \<Rightarrow>
            if root \<noteq> [] \<and> last root = CHR ''/'' then root @ ''loki/api/v1/push'' else root @ ''/loki/api/v1/push''
        | None \<Rightarrow>
            protocol @ ''://'' @ (case server_ip args of None \<Rightarrow> ''(null)'' | Some ip \<Rightarrow> ip) @ '':'' @
            show_int (loki_port args) @ ''/loki/api/v1/push'')"

text \<open>\<open>contents\<close> is what a file holds that can be opened; \<open>curl\<close> whether the HTTP library starts; \<open>pipes\<close> whether the
  pipe can be put in place of standard output.\<close>

definition loki_password_file ::
  "bool \<Rightarrow> string option \<Rightarrow> (string \<Rightarrow> string option) \<Rightarrow> string option \<Rightarrow> string option \<Rightarrow> string option option c_result"
where
  "loki_password_file mem home contents key_file pass =
     (case key_file of
        None \<Rightarrow> Inr (Some pass)
      | Some f \<Rightarrow>
          (case key_path home f of
             Inl e \<Rightarrow> Inl e
           | Inr path \<Rightarrow>
               (case contents path of
                  None \<Rightarrow> Inr None
                | Some text \<Rightarrow>
                    if \<not> mem then Inr None
                    else (case read_password text of None \<Rightarrow> Inr None | Some p \<Rightarrow> Inr (Some (Some p))))))"

definition loki_start_cmd ::
  "bool \<Rightarrow> string option \<Rightarrow> (string \<Rightarrow> string option) \<Rightarrow> bool \<Rightarrow> bool \<Rightarrow> loki_opts optparse \<Rightarrow> loki_state \<Rightarrow> string list
     \<Rightarrow> (slash_ret \<times> loki_state) c_result"
where
  "loki_start_cmd mem home contents curl pipes parser st argv =
     (let (argi, opts) = optparse_parse parser
            \<lparr>lo_args = loki_args st, lo_user = None, lo_pass = None, lo_key_file = None\<rparr> argv;
          st = st\<lparr>loki_args := lo_args opts\<rparr>
      in if argi < 0 then Inr (SLASH_EINVAL, st)
         else if loki_started st then Inr (SLASH_SUCCESS, st)
         else if argi + 1 \<ge> argc argv then Inr (SLASH_EINVAL, st)
         else
           (let server = nth_arg argv (argi + 1);
                args = (if \<not> is_http_url (Some server)
                        then (loki_args st)\<lparr>server_ip := Some server, api_root := None\<rparr>
                        else (loki_args st)\<lparr>api_root := Some server, server_ip := None\<rparr>);
                st = st\<lparr>loki_args := args\<rparr>
            in (case loki_password_file mem home contents (lo_key_file opts) (lo_pass opts) of
                  Inl f \<Rightarrow> Inl f
                | Inr None \<Rightarrow> Inr (SLASH_EINVAL, st)
                | Inr (Some pass) \<Rightarrow>
                    if lo_user opts \<noteq> None \<and> pass = None then Inr (SLASH_EINVAL, st)
                    else
                      (let args = (if lo_user opts \<noteq> None
                                   then args\<lparr>loki_username := lo_user opts, loki_password := pass\<rparr> else args);
                           args = (if loki_port args = 0 then args\<lparr>loki_port := SERVER_PORT\<rparr> else args);
                           protocol = (if use_ssl args \<noteq> 0 then ''https'' else loki_protocol st);
                           st = st\<lparr>loki_args := args, loki_protocol := protocol\<rparr>;
                           st = (if curl then st\<lparr>loki_url := make_url args protocol\<rparr> else st\<lparr>loki_started := False\<rparr>)
                       in if \<not> pipes then Inr (SLASH_EINVAL, st)
                          else Inr (SLASH_SUCCESS, st\<lparr>loki_started := True\<rparr>)))))"

section \<open>Properties\<close>

definition log_plain :: "char \<Rightarrow> bool" where
  "log_plain c \<longleftrightarrow> 32 \<le> code c \<and> code c < 128 \<and> c \<noteq> QUOTE"

lemma log_plain_branches:
  "log_plain c \<Longrightarrow> c \<noteq> ESC \<and> c \<noteq> NL \<and> c \<noteq> CR \<and> c \<noteq> TAB \<and> c \<noteq> QUOTE \<and> c \<noteq> NUL \<and> \<not> below_32 c"
  by (auto simp: log_plain_def below_32_def code_def)

lemma log_plain_other: "log_plain (CHR '' '')" "log_plain APOS"
  "\<not> below_32 c \<Longrightarrow> c \<noteq> QUOTE \<Longrightarrow> log_plain c"
  by (auto simp: log_plain_def below_32_def code_def)

lemma strip_loop_clean:
  "list_all (\<lambda>c. c = NUL \<or> log_plain c) (fst (strip_loop s)) \<and> length (fst (strip_loop s)) \<le> length s \<and>
   count_list (fst (strip_loop s)) NUL = snd (strip_loop s)"
proof (induction s rule: strip_loop.induct)
  case (2 c cs)
  have len: "length (dropWhile ansi_arg (drop 1 cs)) \<le> length cs" "length (dropWhile newline_run cs) \<le> length cs"
    using length_dropWhile_le [of ansi_arg "drop 1 cs"] length_dropWhile_le [of newline_run cs] by simp_all
  have neq: "log_plain c \<Longrightarrow> c \<noteq> NUL" using log_plain_branches by blast
  consider (esc) "c = ESC" | (nl) "c = NL" | (tab) "c = TAB" | (quote) "c = QUOTE"
    | (low) "c \<notin> {ESC, NL, TAB, QUOTE}" "below_32 c" | (plain) "c \<notin> {ESC, NL, TAB, QUOTE}" "\<not> below_32 c"
    by auto
  then show ?case
  proof cases
    case esc
    then show ?thesis using 2(1,2) len(1) by (auto intro: le_trans)
  next
    case nl
    then show ?thesis using 2(3) len(2) newline_run_NL by (auto simp: split_beta intro: le_trans)
  next
    case tab
    then show ?thesis using 2(4) log_plain_other(1) by (auto simp: split_beta)
  next
    case quote
    then show ?thesis using 2(5) log_plain_other(2) by (auto simp: split_beta)
  next
    case low
    then show ?thesis using 2(6) by auto
  next
    case plain
    then show ?thesis using 2(7) log_plain_other(3) neq by (auto simp: split_beta)
  qed
qed simp

text \<open>
  C37: Cleaning works in place and leaves only what a JSON string may hold unescaped, but for the backslash: of any
  text there remain ASCII characters from 32 on without quotation marks, cut into lines by terminators; these are
  counted, without the last one unless there are more than two; the result is not longer than the text.
\<close>

theorem strip_str_clean:
  "(case strip_str s of (buffer, n) \<Rightarrow>
     list_all (\<lambda>c. c = NUL \<or> 32 \<le> code c \<and> code c < 128 \<and> c \<noteq> QUOTE) buffer \<and> length buffer \<le> length s + 1 \<and>
     n = (if count_list buffer NUL \<le> 2 then count_list buffer NUL - 1 else count_list buffer NUL))"
proof -
  let ?t = "dropWhile (\<lambda>c. c = NL \<or> c = CR) s"
  have "length ?t \<le> length s" by (rule length_dropWhile_le)
  with strip_loop_clean [of ?t] show ?thesis
    by (auto simp: strip_str_def split_beta Let_def log_plain_def intro: le_trans)
qed

text \<open>Lines the client takes over unchanged: printable, without quotation marks and backslashes, not too long, and not like
  the prompt.\<close>

definition plain_line :: "string \<Rightarrow> bool" where
  "plain_line l \<longleftrightarrow> l \<noteq> [] \<and> list_all log_plain l \<and> CHR 0x5C \<notin> set l \<and> length l \<le> 4000 \<and> \<not> prompt_line l"

definition unlines :: "string list \<Rightarrow> string" where
  "unlines ls = concat (map (\<lambda>l. l @ [NL]) ls)"

definition zlines :: "string list \<Rightarrow> string" where
  "zlines ls = concat (map (\<lambda>l. l @ [NUL]) ls)"

lemma strip_loop_plain:
  "list_all log_plain l \<Longrightarrow> strip_loop (l @ s) = (l @ fst (strip_loop s), snd (strip_loop s))"
  using log_plain_branches by (induction l) (auto simp: split_beta)

lemma strip_loop_newline:
  "s = [] \<or> log_plain (hd s) \<Longrightarrow> strip_loop (NL # s) = (NUL # fst (strip_loop s), Suc (snd (strip_loop s)))"
proof -
  assume "s = [] \<or> log_plain (hd s)"
  then have "dropWhile newline_run s = s"
    using log_plain_branches by (cases s) (auto simp: newline_run_def)
  then show ?thesis using newline_run_NL by (simp add: split_beta)
qed

lemma strip_loop_lines:
  "list_all plain_line ls \<Longrightarrow> strip_loop (unlines ls) = (zlines ls, length ls)"
proof (induction ls)
  case (Cons l ls)
  have "unlines ls = [] \<or> log_plain (hd (unlines ls))"
  proof (cases ls)
    case (Cons l' ls')
    with Cons.prems obtain c cs where "l' = c # cs" "log_plain c" by (cases l') (auto simp: plain_line_def)
    with \<open>ls = l' # ls'\<close> show ?thesis by (simp add: unlines_def)
  qed (simp add: unlines_def)
  from strip_loop_newline [OF this] Cons strip_loop_plain [of l "NL # unlines ls"]
  show ?case by (simp add: unlines_def zlines_def plain_line_def)
qed (simp add: unlines_def zlines_def)

text \<open>The entries of lines that start at the \<open>i\<close>-th.\<close>

fun log_entries :: "(nat \<Rightarrow> nat) \<Rightarrow> nat \<Rightarrow> string list \<Rightarrow> string" where
  "log_entries clock i [] = []"
| "log_entries clock i (l # ls) = log_entry (clock i) l @ log_entries clock (i + 1) ls"

lemma pack_lines_all:
  assumes "list_all plain_line ls"
  shows "length formatted + length (log_entries clock i ls) < LOG_SIZE \<Longrightarrow> i + length ls \<le> n \<Longrightarrow>
     pack_lines clock n (zlines ls @ [NUL]) i formatted = Inr (i + length ls, formatted @ log_entries clock i ls)"
  using assms
proof (induction ls arbitrary: i formatted)
  case Nil
  then show ?case by (simp add: zlines_def pack_lines.simps)
next
  case (Cons l ls)
  have l: "l \<noteq> []" "hd l \<noteq> NUL" "takeWhile (\<lambda>c. c \<noteq> NUL) (l @ NUL # zlines ls @ [NUL]) = l" "\<not> prompt_line l"
  proof -
    show "l \<noteq> []" "\<not> prompt_line l" using Cons.prems by (simp_all add: plain_line_def)
    have "\<forall>c \<in> set l. c \<noteq> NUL" using Cons.prems log_plain_branches by (auto simp: plain_line_def list_all_iff)
    then show "hd l \<noteq> NUL" "takeWhile (\<lambda>c. c \<noteq> NUL) (l @ NUL # zlines ls @ [NUL]) = l"
      using \<open>l \<noteq> []\<close> by (auto simp: takeWhile_all_append)
  qed
  have z: "zlines (l # ls) @ [NUL] = l @ NUL # zlines ls @ [NUL]" by (simp add: zlines_def)
  have step: "pack_lines clock n (zlines (l # ls) @ [NUL]) i formatted =
      (if i + 1 = n then Inr (i + 1, formatted @ log_entry (clock i) l)
       else pack_lines clock n (zlines ls @ [NUL]) (i + 1) (formatted @ log_entry (clock i) l))"
    using l Cons.prems(1) unfolding z by (subst pack_lines.simps) (simp add: Let_def)
  show ?case
  proof (cases "i + 1 = n")
    case True
    then have "length ls = 0" using Cons.prems(2) unfolding list.size by linarith
    then have "ls = []" by simp
    with True step show ?thesis by simp
  next
    case False
    then show ?thesis using step Cons by simp
  qed
qed

lemma loki_add_lines:
  assumes "ls \<noteq> []" "list_all plain_line ls" "length (log_entries (loki_clock w) 0 ls) < LOG_SIZE"
  shows "loki_add w True True (unlines ls) iscmd queue =
     Inr (queue @ [make_json w iscmd (length (log_entries (loki_clock w) 0 ls))
       (butlast (log_entries (loki_clock w) 0 ls))])"
proof -
  obtain l ls' where ls: "ls = l # ls'" using assms(1) by (cases ls) auto
  then obtain c cs where "l = c # cs" "log_plain c" using assms(2) by (cases l) (auto simp: plain_line_def)
  then have "dropWhile (\<lambda>c. c = NL \<or> c = CR) (unlines ls) = unlines ls"
    using log_plain_branches ls by (simp add: unlines_def)
  then have strip: "strip_str (unlines ls) = (zlines ls @ [NUL], if length ls \<ge> 2 then length ls + 1 else length ls)"
    using strip_loop_lines [OF assms(2)] by (simp add: strip_str_def)
  have "log_entry (loki_clock w 0) l \<noteq> []" by (simp add: log_entry_def)
  then have ne: "log_entries (loki_clock w) 0 ls \<noteq> []" using ls by simp
  show ?thesis
    using pack_lines_all [OF assms(2), of "[]" "loki_clock w" 0 "if length ls \<ge> 2 then length ls + 1 else length ls"]
      assms(1,3) strip ne
    by (auto simp: loki_add_def Let_def Suc_le_eq)
qed

text \<open>The time of a line and the line as one value of a document, not cut, and the values of lines, with commas between.\<close>

definition log_value :: "nat \<Rightarrow> string \<Rightarrow> string" where
  "log_value usec line = ''['' @ quoted (show_nat usec @ ''000'') @ '', '' @ quoted line @ '']''"

fun log_values :: "(nat \<Rightarrow> nat) \<Rightarrow> nat \<Rightarrow> string list \<Rightarrow> string" where
  "log_values clock i [] = []"
| "log_values clock i [l] = log_value (clock i) l"
| "log_values clock i (l # l' # ls) = log_value (clock i) l @ '','' @ log_values clock (i + 1) (l' # ls)"

text \<open>A clock whose microseconds have at most sixteen digits, as they will have until the year 2286.\<close>

definition clock_ok :: "loki_world \<Rightarrow> bool" where
  "clock_ok w \<longleftrightarrow> (\<forall>i. loki_clock w i < 10 ^ 16)"

lemma clock_digits: "clock_ok w \<Longrightarrow> length (show_nat (loki_clock w i)) \<le> 16"
  unfolding clock_ok_def by (intro length_show_nat_le) simp_all

lemma log_entry_whole: "clock_ok w \<Longrightarrow> length l \<le> 4000 \<Longrightarrow> log_entry (loki_clock w i) l = log_value (loki_clock w i) l @ '',''"
  using clock_digits [of w i] by (simp add: log_entry_def log_value_def quoted_def)

lemma log_entries_values:
  assumes "clock_ok w" "list_all plain_line ls" "ls \<noteq> []"
  shows "log_entries (loki_clock w) i ls = log_values (loki_clock w) i ls @ '',''"
  using assms(2,3)
proof (induction ls arbitrary: i)
  case (Cons l ls)
  then have l: "log_entry (loki_clock w i) l = log_value (loki_clock w i) l @ '',''"
    using log_entry_whole [OF assms(1)] by (simp add: plain_line_def)
  show ?case using Cons l by (cases ls) simp_all
qed simp

lemma log_entry_length: "clock_ok w \<Longrightarrow> length (log_entry (loki_clock w i) l) \<le> 28 + length l"
  using clock_digits [of w i] by (simp add: log_entry_def)

text \<open>What a pipe holds.\<close>

abbreviation PIPE_SIZE :: nat where "PIPE_SIZE \<equiv> 65536"

text \<open>A line that is walked over has at least one character, so its entry is at most fifteen times as long as what it takes
  of the buffer.\<close>

lemma upto_NUL: "NUL \<in> set p \<Longrightarrow> \<exists>q. p = takeWhile (\<lambda>c. c \<noteq> NUL) p @ NUL # q"
  by (induction p) auto

lemma pack_lines_returns:
  assumes "clock_ok w" "i < n" "n - i \<le> count_list p NUL" "2 * length formatted + 29 * length p < 2 * LOG_SIZE"
  shows "\<exists>k text. pack_lines (loki_clock w) n p i formatted = Inr (k, text)"
  using assms(2-4)
proof (induction "length p" arbitrary: p i formatted rule: less_induct)
  case less
  define line where "line = takeWhile (\<lambda>c. c \<noteq> NUL) p"
  define rest where "rest = drop (length line + 1) p"
  define formatted' where "formatted' = (if prompt_line line then formatted else formatted @ log_entry (loki_clock w i) line)"
  have p: "p \<noteq> []" using less.prems by auto
  show ?case
  proof (cases "hd p = NUL")
    case True
    then show ?thesis using p by (simp add: pack_lines.simps [of _ _ p])
  next
    case False
    then have line: "line \<noteq> []" using p by (cases p) (auto simp: line_def)
    have "NUL \<in> set p" using less.prems(1,2) by (metis count_notin diff_is_0_eq le_zero_eq not_le)
    from upto_NUL [OF this] obtain q where q: "p = line @ NUL # q"
      unfolding line_def by blast
    have rest: "rest = q" unfolding rest_def by (subst q) simp
    have "NUL \<notin> set line" by (auto simp: line_def dest: set_takeWhileD)
    then have c: "count_list p NUL = Suc (count_list q NUL)" by (subst q) simp
    have len: "length p = length line + 1 + length q" by (subst q) simp
    have f: "length formatted' \<le> length formatted + 28 + length line"
      using log_entry_length [OF assms(1), of i line] by (simp add: formatted'_def)
    have "1 \<le> length line" using line by (cases line) auto
    then have f2: "2 * length formatted' + 29 * length q < 2 * LOG_SIZE" using f len less.prems(3) by simp
    have step: "pack_lines (loki_clock w) n p i formatted =
        (if i + 1 = n then Inr (i + 1, formatted') else pack_lines (loki_clock w) n q (i + 1) formatted')"
      using f2 p False rest
      by (subst pack_lines.simps)
        (simp only: Let_def line_def [symmetric] rest_def [symmetric] formatted'_def [symmetric], simp)
    show ?thesis
    proof (cases "i + 1 = n")
      case True
      then show ?thesis using step by simp
    next
      case False
      then have "i + 1 < n" "n - (i + 1) \<le> count_list q NUL" using less.prems(1,2) c by simp_all
      from less.hyps [OF _ this f2] show ?thesis using step False len by simp
    qed
  qed
qed

lemma loki_add_returns:
  assumes "clock_ok w" "length s \<le> PIPE_SIZE"
  shows "\<exists>messages. loki_add w mem running s iscmd queue = Inr (queue @ messages)"
proof (cases "running \<and> \<not> snd (strip_str s) < 1")
  case True
  obtain buffer n where strip: "strip_str s = (buffer, n)" by (cases "strip_str s")
  let ?t = "dropWhile (\<lambda>c. c = NL \<or> c = CR) s"
  have "length ?t \<le> length s" by (rule length_dropWhile_le)
  then have b: "length buffer \<le> length s + 1" "n - 0 \<le> count_list buffer NUL"
    using strip_loop_clean [of ?t] strip by (auto simp: strip_str_def split_beta Let_def)
  have "0 < n" using True strip by simp
  moreover have "2 * length ([] :: string) + 29 * length buffer < 2 * LOG_SIZE" using b(1) assms(2) by simp
  ultimately obtain k out where "pack_lines (loki_clock w) n buffer 0 [] = Inr (k, out)"
    using pack_lines_returns [OF assms(1) _ b(2)] by blast
  then show ?thesis by (auto simp: loki_add_def strip Let_def)
qed (auto simp: loki_add_def split_beta)

lemma lines_fit_pipe:
  assumes "clock_ok w" "list_all plain_line ls"
  shows "2 * length (log_entries (loki_clock w) i ls) \<le> 29 * length (unlines ls)"
  using assms(2)
proof (induction ls arbitrary: i)
  case (Cons l ls)
  then have "1 \<le> length l" by (cases l) (simp_all add: plain_line_def)
  then have "2 * length (log_entry (loki_clock w i) l) \<le> 29 * (length l + 1)"
    using log_entry_length [OF assms(1), of i l] by simp
  moreover have "2 * length (log_entries (loki_clock w) (i + 1) ls) \<le> 29 * length (unlines ls)" using Cons by simp
  ultimately show ?case by (simp add: unlines_def)
qed simp

text \<open>The document for lines, if the names in it fit.\<close>

definition lines_document :: "loki_world \<Rightarrow> bool \<Rightarrow> string list \<Rightarrow> json_str_t" where
  "lines_document w iscmd ls =
     (let text = json_text (loki_hostname w) (loki_node w) iscmd (log_values (loki_clock w) 0 ls)
      in \<lparr>json_data = text, json_len = length text\<rparr>)"

definition names_fit :: "loki_world \<Rightarrow> bool" where
  "names_fit w \<longleftrightarrow> length (loki_hostname w) + length (show_nat (nat (loki_node w))) \<le> HOSTNAME_LEN w + 14"

lemma make_json_whole:
  "names_fit w \<Longrightarrow> make_json w iscmd (length text + 1) text =
    \<lparr>json_data = json_text (loki_hostname w) (loki_node w) iscmd text,
     json_len = length (json_text (loki_hostname w) (loki_node w) iscmd text)\<rparr>"
  by (simp add: make_json_def json_text_def quoted_def names_fit_def Let_def)

lemma loki_add_document:
  assumes "clock_ok w" "names_fit w" "ls \<noteq> []" "list_all plain_line ls" "length (unlines ls) \<le> PIPE_SIZE"
  shows "loki_add w True True (unlines ls) iscmd queue = Inr (queue @ [lines_document w iscmd ls])"
proof -
  have "length (log_entries (loki_clock w) 0 ls) < LOG_SIZE" using lines_fit_pipe [OF assms(1,4), of 0] assms(5) by simp
  from loki_add_lines [OF assms(3,4) this] show ?thesis
    by (simp add: log_entries_values [OF assms(1,4,3)] make_json_whole [OF assms(2), simplified] lines_document_def Let_def)
qed

text \<open>
  C26: Output made of complete lines reaches the log server as it is: the one document queued is the text of one stream
  whose values are one entry per line, in the order of the lines, each with the time of the line, and its length is that of
  this text. A line has 1 to 4000 printable ASCII characters; it has no quotation marks and no backslashes, and it is not like
  the prompt (\<open> @ \<close> and \<open> d. \<close> in it), for such lines are changed, left out, or make the server refuse the document. All
  lines together have at most 65536 bytes, what a pipe holds; the clock has at most 16 digits; the host name and the node's
  number have together at most 14 characters more than the library's limit for host names; memory is there.
\<close>

theorem loki_add_logs_lines:
  assumes "clock_ok w" "names_fit w" "ls \<noteq> []" "list_all plain_line ls" "length (unlines ls) \<le> PIPE_SIZE"
  shows "loki_add w True True (unlines ls) iscmd queue =
    (let text = json_text (loki_hostname w) (loki_node w) iscmd (log_values (loki_clock w) 0 ls)
     in Inr (queue @ [\<lparr>json_data = text, json_len = length text\<rparr>]))"
  using loki_add_document [OF assms] by (simp add: lines_document_def Let_def)

abbreviation demo_loki :: loki_world where
  "demo_loki \<equiv> \<lparr>loki_clock = (\<lambda>i. 17 + i mod 2), loki_hostname = ''sat'', loki_node = 4, HOSTNAME_LEN = 20\<rparr>"

lemma demo_lines: "list_all plain_line [''a'', ''bc'']"
  by code_simp

lemma demo_loki_ok: "clock_ok demo_loki" "names_fit demo_loki"
proof -
  have "17 + i mod 2 < (10 :: nat) ^ 16" for i :: nat by (rule le_less_trans [of _ 18]) auto
  then show "clock_ok demo_loki" by (simp add: clock_ok_def)
  have "length (show_nat 4) \<le> 1" by (rule length_show_nat_le) simp_all
  then show "names_fit demo_loki" by (simp add: names_fit_def)
qed

theorem loki_add_logs_lines_witness:
  "\<exists>text. loki_add demo_loki True True (unlines [''a'', ''bc'']) False [] = Inr [\<lparr>json_data = text, json_len = length text\<rparr>]"
  using loki_add_logs_lines [OF demo_loki_ok _ demo_lines, of False "[]"] by (simp add: unlines_def Let_def)

lemma c_string_unlines: "list_all plain_line ls \<Longrightarrow> c_string (unlines ls) = unlines ls"
proof (rule c_string_self)
  assume "list_all plain_line ls"
  then show "nul_free (unlines ls)"
    using log_plain_branches by (induction ls) (fastforce simp: unlines_def plain_line_def nul_free_def list_all_iff)+
qed

text \<open>The turns in which the client runs, and what the terminal gets in them.\<close>

definition turns_run :: "pipe_turn list \<Rightarrow> pipe_turn list" where
  "turns_run turns = takeWhile turn_runs turns"

definition shown :: "pipe_turn list \<Rightarrow> string" where
  "shown turns = concat (map (\<lambda>t. take (turn_written t) (turn_chunk t)) turns)"

lemma c_string_length: "length (c_string s) \<le> length s"
  by (simp add: c_string_def length_takeWhile_le)

lemma read_pipe_returns:
  assumes "clock_ok w" "\<forall>t \<in> set turns. length (turn_chunk t) \<le> PIPE_SIZE"
  shows "\<exists>messages. read_pipe w mem turns (terminal, queue) = Inr (terminal @ shown (turns_run turns), queue @ messages)"
  using assms(2)
proof (induction turns arbitrary: terminal queue)
  case (Cons t turns)
  then have len: "length (c_string (turn_chunk t)) \<le> PIPE_SIZE"
    using c_string_length [of "turn_chunk t"] by (auto intro: le_trans)
  obtain m where m: "loki_add w mem (turn_logs t) (c_string (turn_chunk t)) False queue = Inr (queue @ m)"
    using loki_add_returns [OF assms(1) len] by blast
  show ?case
    using Cons.IH [of terminal queue] Cons.IH [of "terminal @ take (turn_written t) (turn_chunk t)" "queue @ m"] Cons.prems m
    by (auto simp: turns_run_def shown_def)
qed (simp add: turns_run_def shown_def)

lemma read_pipe_lines:
  assumes "clock_ok w" "names_fit w" "\<forall>t \<in> set (turns_run turns). turn_logs t"
    and "map turn_chunk (turns_run turns) = map unlines chunks"
    and "\<forall>ls \<in> set chunks. ls \<noteq> [] \<and> list_all plain_line ls \<and> length (unlines ls) \<le> PIPE_SIZE"
  shows "read_pipe w True turns (terminal, queue) =
    Inr (terminal @ shown (turns_run turns), queue @ map (lines_document w False) chunks)"
  using assms(3-5)
proof (induction turns arbitrary: chunks terminal queue)
  case (Cons t turns)
  show ?case
  proof (cases "turn_runs t")
    case True
    then obtain ls rest where c: "chunks = ls # rest" "turn_chunk t = unlines ls"
      using Cons.prems(2) by (cases chunks) (auto simp: turns_run_def)
    then have ls: "ls \<noteq> []" "list_all plain_line ls" "length (unlines ls) \<le> PIPE_SIZE" using Cons.prems(3) by simp_all
    have "unlines ls \<noteq> []" using ls(1) by (cases ls) (simp_all add: unlines_def)
    moreover have "turn_logs t" using Cons.prems(1) True by (simp add: turns_run_def)
    ultimately show ?thesis
      using Cons True c ls by (simp add: turns_run_def shown_def c_string_unlines loki_add_document [OF assms(1,2)])
  qed (use Cons.prems in \<open>simp add: turns_run_def shown_def\<close>)
qed (simp add: turns_run_def shown_def)

text \<open>
  C35: The client does not change what the terminal shows. Whatever chunks of output it reads (lines or parts of lines, with
  colours, prompts or any bytes; each at most 65536 bytes, what a pipe holds), the terminal gets in the order of the chunks
  what its writes take of each, all of it if no write is short, and no message that is queued is lost. If the chunks are made
  of complete lines (as for a single chunk: printable, no quotation marks, no backslashes, not like the prompt) and memory is
  there, each chunk becomes one message of its lines, in the same order. What is in the pipe when the client has stopped is
  not read.
\<close>

theorem read_pipe_transparent:
  assumes "clock_ok w" "\<forall>t \<in> set turns. length (turn_chunk t) \<le> PIPE_SIZE"
  shows "\<exists>terminal' messages. read_pipe w mem turns (terminal, queue) = Inr (terminal', queue @ messages) \<and>
    terminal' = terminal @ concat (map (\<lambda>t. take (turn_written t) (turn_chunk t)) (takeWhile turn_runs turns)) \<and>
    ((\<forall>t \<in> set turns. length (turn_chunk t) \<le> turn_written t) \<longrightarrow>
      terminal' = terminal @ concat (map turn_chunk (takeWhile turn_runs turns))) \<and>
    (\<forall>chunks. mem \<and> names_fit w \<and> (\<forall>t \<in> set turns. turn_logs t) \<and>
       map turn_chunk (takeWhile turn_runs turns) = map unlines chunks \<and>
       (\<forall>ls \<in> set chunks. ls \<noteq> [] \<and> list_all plain_line ls) \<longrightarrow>
       messages = map (lines_document w False) chunks)"
proof -
  obtain messages where run: "read_pipe w mem turns (terminal, queue) = Inr (terminal @ shown (turns_run turns), queue @ messages)"
    using read_pipe_returns [OF assms] by blast
  have run_in: "set (takeWhile turn_runs turns) \<subseteq> set turns" by (auto dest: set_takeWhileD)
  have "messages = map (lines_document w False) chunks"
    if "mem" "names_fit w" "\<forall>t \<in> set turns. turn_logs t" "map turn_chunk (takeWhile turn_runs turns) = map unlines chunks"
      "\<forall>ls \<in> set chunks. ls \<noteq> [] \<and> list_all plain_line ls" for chunks
  proof -
    have "set (map unlines chunks) \<subseteq> turn_chunk ` set turns" using that(4) run_in by (metis image_mono set_map)
    then have "\<forall>ls \<in> set chunks. length (unlines ls) \<le> PIPE_SIZE" using assms(2) by fastforce
    then show ?thesis
      using read_pipe_lines [OF assms(1) that(2), of turns chunks terminal queue] that run run_in
      by (auto simp: turns_run_def)
  qed
  moreover have "shown (turns_run turns) = concat (map turn_chunk (takeWhile turn_runs turns))"
    if "\<forall>t \<in> set turns. length (turn_chunk t) \<le> turn_written t"
    unfolding shown_def turns_run_def using that run_in
    by (intro arg_cong [where f = concat] map_cong) auto
  ultimately show ?thesis using run by (auto simp: shown_def turns_run_def)
qed

theorem read_pipe_transparent_witness:
  "\<exists>messages. read_pipe demo_loki True [\<lparr>turn_runs = True, turn_chunk = ''x: '', turn_written = 3, turn_logs = True\<rparr>] ([], []) =
    Inr (''x: '', messages)"
  using read_pipe_transparent [OF demo_loki_ok(1),
      of "[\<lparr>turn_runs = True, turn_chunk = ''x: '', turn_written = 3, turn_logs = True\<rparr>]" True "[]" "[]"]
  by (auto simp del: read_pipe.simps)

text \<open>
  The length handed to the HTTP library is that of the text in the buffer exactly if host name, node and type
  together have at most twenty characters more than the library's limit for host names; a longer host name is cut in
  the buffer but not in the length, so that memory behind the buffer is sent.
\<close>

theorem json_length_matches:
  assumes "formatted \<noteq> []"
  shows "(let m = make_json w iscmd (length formatted) (butlast formatted) in length (json_data m) = json_len m) \<longleftrightarrow>
     length (loki_hostname w) + length (show_nat (nat (loki_node w))) + (if iscmd then 3 else 6) \<le> HOSTNAME_LEN w + 20"
proof -
  have "0 < length formatted" using assms by simp
  then show ?thesis by (auto simp: make_json_def json_text_def quoted_def Let_def)
qed

theorem json_length_matches_witness:
  "length (json_data (make_json (demo_loki\<lparr>loki_hostname := replicate 40 (CHR ''x'')\<rparr>) True 1 [])) \<noteq>
   json_len (make_json (demo_loki\<lparr>loki_hostname := replicate 40 (CHR ''x'')\<rparr>) True 1 [])"
  using json_length_matches [of "[CHR '','']" "demo_loki\<lparr>loki_hostname := replicate 40 (CHR ''x'')\<rparr>" True]
  by (simp add: Let_def)

lemma failures_prefix: "k \<le> 5 \<Longrightarrow> \<not> prefix (replicate 6 False) (replicate k False @ True # xs)"
proof
  assume k: "k \<le> 5" and "prefix (replicate 6 False) (replicate k False @ True # xs)"
  then obtain ys where "replicate k False @ True # xs = replicate 6 False @ ys" by (auto simp: prefix_def)
  then have "(replicate k False @ True # xs) ! k = (replicate 6 False @ ys) ! k" by simp
  with k show False by (simp add: nth_append)
qed

lemma failures_interrupted:
  "k \<le> 5 \<Longrightarrow> sublist (replicate 6 False) (replicate k False @ True # xs) \<longleftrightarrow> sublist (replicate 6 False) xs"
proof (induction k)
  case 0
  then show ?case using failures_prefix [of 0 xs] by (simp add: sublist_Cons_right)
next
  case (Suc k)
  have "replicate (Suc k) False @ True # xs = False # replicate k False @ True # xs" by simp
  with Suc failures_prefix [of "Suc k" xs] show ?case by (simp only: sublist_Cons_right) simp
qed

text \<open>
  Starting with no errors counted, the client keeps running through a sequence of posts exactly if no six posts in
  a row fail: any success forgives the failures before it.
\<close>

theorem post_thread_stops:
  "loki_running (post_thread oks \<lparr>loki_running = True, curl_err_count = 0\<rparr>) \<longleftrightarrow>
     \<not> sublist (replicate 6 False) oks"
proof -
  have stopped: "loki_running (post_thread oks st) = False" if "\<not> loki_running st" for oks st
    using that by (cases oks) auto
  have "k \<le> 5 \<Longrightarrow> loki_running (post_thread oks \<lparr>loki_running = True, curl_err_count = k\<rparr>) \<longleftrightarrow>
     \<not> sublist (replicate 6 False) (replicate k False @ oks)" for k
  proof (induction oks arbitrary: k)
    case Nil
    have "\<not> sublist (replicate 6 False) (replicate k False)"
      using sublist_length_le [of "replicate 6 False" "replicate k False"] Nil by auto
    then show ?case by simp
  next
    case (Cons ok oks)
    show ?case
    proof (cases ok)
      case True
      then show ?thesis using Cons.IH [of 0] failures_interrupted [OF Cons.prems] by (simp add: post_result_def)
    next
      case False
      have eq: "replicate k False @ False # oks = replicate (Suc k) False @ oks"
        by (simp add: replicate_app_Cons_same)
      show ?thesis
      proof (cases "k = 5")
        case True
        have "sublist (replicate 6 False) (replicate (Suc k) False @ oks)"
          using True by (intro prefix_imp_sublist) simp
        then show ?thesis using False True stopped eq by (simp only: eq) (simp add: post_result_def)
      next
        case k: False
        then show ?thesis
          using False Cons.IH [of "Suc k"] Cons.prems unfolding False
          by (simp only: eq) (simp add: post_result_def del: replicate.simps)
      qed
    qed
  qed
  from this [of 0] show ?thesis by simp
qed

end
