(* ===== verification/Metrics.thy ===== *)
theory Metrics
  imports Loki
begin

text \<open>
  The metric exporters \<open>src/victoria_metrics.c\<close> and \<open>src/prometheus.c\<close>: the two buffers of metric lines, what a push or a
  scrape takes out of them, the commands that start and stop the push client, and the race between the start and the
  push thread. The HTTP library and the sockets are left out.
\<close>

section \<open>A buffer of metric lines\<close>

text \<open>What the sniffer relies on: adding a line appends it if there is room, else nothing changes; the buffer never
  holds more than its capacity.\<close>

locale metric_sink =
  fixes add :: "'b \<Rightarrow> string \<Rightarrow> 'b"
    and clear :: "'b \<Rightarrow> 'b"
    and contents :: "'b \<Rightarrow> string"
    and capacity :: nat
  assumes contents_add: "contents (add b line) =
      (if length (contents b) + length line < capacity then contents b @ line else contents b)"
    and contents_clear: "contents (clear b) = []"
begin

lemma add_bounded: "length (contents b) < capacity \<Longrightarrow> length (contents (add b line)) < capacity"
  by (simp add: contents_add)

lemma adds_bounded: "length (contents b) < capacity \<Longrightarrow> length (contents (foldl add b ls)) < capacity"
  by (induction ls arbitrary: b) (simp_all add: add_bounded)

text \<open>As long as everything fits nothing is lost.\<close>

lemma adds_fit:
  "length (contents b) + length (concat ls) < capacity \<Longrightarrow> contents (foldl add b ls) = contents b @ concat ls"
  by (induction ls arbitrary: b) (simp_all add: contents_add)

end

abbreviation BUFFER_SIZE :: nat where "BUFFER_SIZE \<equiv> 10485760"

text \<open>The contents of a buffer are its bytes up to its length.\<close>

definition vm_add :: "string \<Rightarrow> string \<Rightarrow> string" where
  "vm_add buffer metric_line =
     (let line_len = length metric_line
      in if length buffer + line_len < BUFFER_SIZE then buffer @ metric_line else buffer)"

definition prometheus_add :: "string \<Rightarrow> string \<Rightarrow> string" where
  "prometheus_add prometheus_buf str =
     (if length prometheus_buf + length str < 1024 * 1024 * 10 then prometheus_buf @ str else prometheus_buf)"

definition prometheus_clear :: "string \<Rightarrow> string" where
  "prometheus_clear prometheus_buf = []"

interpretation vm_sink: metric_sink vm_add "\<lambda>b. []" "\<lambda>b. b" BUFFER_SIZE
  by unfold_locales (simp_all add: vm_add_def Let_def)

interpretation prom_sink: metric_sink prometheus_add prometheus_clear "\<lambda>b. b" BUFFER_SIZE
  by unfold_locales (simp_all add: prometheus_add_def prometheus_clear_def)

text \<open>One line of a metric, cut to fit an array.\<close>

definition metric_line :: "string \<Rightarrow> int \<Rightarrow> nat \<Rightarrow> string \<Rightarrow> nat \<Rightarrow> string" where
  "metric_line nm node idx val time_ms =
     nm @ ''{node='' @ quoted (show_nat (nat node)) @ '', idx='' @ quoted (show_nat idx) @ ''} '' @ val @ '' '' @
     show_nat time_ms @ [NL]"

datatype metric_kind = Metric_number | Metric_bytes

record metric_param =
  mp_name :: string
  mp_node :: int
  mp_kind :: metric_kind
  mp_array_size :: int

text \<open>\<open>value_str\<close> is the library's text of an element.\<close>

definition vm_add_param :: "(metric_param \<Rightarrow> nat \<Rightarrow> string) \<Rightarrow> nat \<Rightarrow> metric_param \<Rightarrow> string \<Rightarrow> string" where
  "vm_add_param value_str time_ms param buffer =
     (if mp_kind param = Metric_bytes then buffer
      else
        (let arr_cnt = (if mp_array_size param < 0 then 1 else mp_array_size param)
         in foldl (\<lambda>b j. vm_add b (take 999 (metric_line (mp_name param) (mp_node param) j
                                               (take 99 (value_str param j)) time_ms)))
              buffer [0..<nat arr_cnt]))"

section \<open>Pushing\<close>

text \<open>
  One turn of the push loop, which holds the lock of the buffer: the new buffer, and what the server has got, marked
  with whether the library reported success. A push that is reported as failed (the answer got lost, or is an error)
  may have delivered the beginning of its body, all of it included; the number is how many bytes.
\<close>

datatype push_outcome = Push_ok | Push_failed nat

definition vm_push_turn :: "push_outcome \<Rightarrow> string \<Rightarrow> string \<times> (bool \<times> string) list" where
  "vm_push_turn outcome buffer =
     (if buffer = [] then (buffer, [])
      else
        (case outcome of
           Push_ok \<Rightarrow> ([], [(True, buffer)])
         | Push_failed n \<Rightarrow> (buffer, [(False, take n buffer)])))"

text \<open>What a scrape does, and what can come between its two parts.\<close>

definition prometheus_dump :: "string \<Rightarrow> string" where
  "prometheus_dump prometheus_buf = prometheus_buf"

datatype vm_event = Vm_line string | Vm_turn push_outcome

fun vm_event_step :: "string \<times> (bool \<times> string) list \<Rightarrow> vm_event \<Rightarrow> string \<times> (bool \<times> string) list" where
  "vm_event_step (buffer, got) (Vm_line line) = (vm_add buffer line, got)"
| "vm_event_step (buffer, got) (Vm_turn outcome) =
     (let (buffer, bodies) = vm_push_turn outcome buffer in (buffer, got @ bodies))"

datatype prom_event = Prom_line string | Prom_dump | Prom_clear

fun prom_event_step :: "string \<times> string \<Rightarrow> prom_event \<Rightarrow> string \<times> string" where
  "prom_event_step (buffer, sent) (Prom_line line) = (prometheus_add buffer line, sent)"
| "prom_event_step (buffer, sent) Prom_dump = (buffer, sent @ prometheus_dump buffer)"
| "prom_event_step (buffer, sent) Prom_clear = (prometheus_clear buffer, sent)"

section \<open>Starting and stopping the push client\<close>

record vm_args =
  vm_use_ssl :: int
  vm_port :: int
  vm_skip_verify :: int
  vm_verbose :: int
  vm_api_root :: "string option"
  vm_username :: "string option"
  vm_password :: "string option"
  vm_server_ip :: "string option"

record vm_state =
  vm_running :: bool
  victoria_metrics_args :: vm_args
  vm_sniffing :: bool

record vm_opts =
  vo_args :: vm_args
  vo_user :: "string option"
  vo_pass :: "string option"
  vo_key_file :: "string option"
  vo_logfile :: int

definition vm_secret ::
  "bool \<Rightarrow> string option \<Rightarrow> (string \<Rightarrow> string option) \<Rightarrow> string option \<Rightarrow> string option option c_result" where
  "vm_secret mem home contents key_file =
     (case key_file of
        None \<Rightarrow> Inr (Some None)
      | Some f \<Rightarrow>
          (case key_path home f of
             Inl e \<Rightarrow> Inl e
           | Inr path \<Rightarrow>
               (case contents path of
                  None \<Rightarrow> Inr None
                | Some text \<Rightarrow>
                    if \<not> mem then Inr None
                    else if text = [] then Inr None
                    else
                      (let text = take 1023 text;
                           line = takeWhile (\<lambda>c. c \<noteq> NL) text @ (if NL \<in> set text then [NL] else [])
                       in Inr (Some (Some (c_string line)))))))"

definition vm_start_cmd ::
  "bool \<Rightarrow> string option \<Rightarrow> (string \<Rightarrow> string option) \<Rightarrow> vm_opts optparse \<Rightarrow> vm_state \<Rightarrow> string list
     \<Rightarrow> (slash_ret \<times> vm_state) c_result"
where
  "vm_start_cmd mem home contents parser st argv =
     (if vm_running st then Inr (SLASH_SUCCESS, st)
      else
        (let (argi, opts) = optparse_parse parser
               \<lparr>vo_args = victoria_metrics_args st, vo_user = None, vo_pass = None, vo_key_file = None,
                vo_logfile = 0\<rparr> argv;
             st = st\<lparr>victoria_metrics_args := vo_args opts\<rparr>
         in if argi < 0 then Inr (SLASH_EINVAL, st)
            else if argi + 1 \<ge> argc argv then Inr (SLASH_EINVAL, st)
            else
              (let server = nth_arg argv (argi + 1);
                   args = (if \<not> is_http_url (Some server)
                           then (victoria_metrics_args st)\<lparr>vm_server_ip := Some server, vm_api_root := None\<rparr>
                           else (victoria_metrics_args st)\<lparr>vm_api_root := Some server, vm_server_ip := None\<rparr>);
                   st = st\<lparr>victoria_metrics_args := args\<rparr>
               in (case vm_secret mem home contents (vo_key_file opts) of
                     Inl f \<Rightarrow> Inl f
                   | Inr None \<Rightarrow> Inr (SLASH_EINVAL, st)
                   | Inr (Some sec_key) \<Rightarrow>
                       (case vo_user opts of
                          Some user \<Rightarrow>
                            (case (case sec_key of None \<Rightarrow> vo_pass opts | Some k \<Rightarrow> Some k) of
                               None \<Rightarrow> Inr (SLASH_EINVAL, st)
                             | Some password \<Rightarrow>
                                 (let args = args\<lparr>vm_username := Some user,
                                              vm_password := Some (takeWhile (\<lambda>c. c \<noteq> NL) password)\<rparr>;
                                      args = (if vm_port args = 0 then args\<lparr>vm_port := 8427\<rparr> else args)
                                  in Inr (SLASH_SUCCESS, st\<lparr>victoria_metrics_args := args, vm_sniffing := True,
                                                            vm_running := True\<rparr>)))
                        | None \<Rightarrow>
                            (let args = (if vm_port args = 0 then args\<lparr>vm_port := 8428\<rparr> else args)
                             in Inr (SLASH_SUCCESS, st\<lparr>victoria_metrics_args := args, vm_sniffing := True,
                                                       vm_running := True\<rparr>)))))))"

definition vm_stop_cmd :: "vm_state \<Rightarrow> slash_ret \<times> vm_state" where
  "vm_stop_cmd st =
     (if \<not> vm_running st then (SLASH_SUCCESS, st)
      else (SLASH_SUCCESS,
            st\<lparr>victoria_metrics_args := (victoria_metrics_args st)\<lparr>vm_username := None, vm_password := None,
                 vm_api_root := None, vm_server_ip := None\<rparr>,
               vm_running := False\<rparr>))"

text \<open>The two addresses the push thread uses; \<open>%s\<close> of a null pointer prints a mark.\<close>

definition vm_url :: "string \<Rightarrow> string \<Rightarrow> vm_args \<Rightarrow> string" where
  "vm_url protocol api args =
     take 255
       (case vm_api_root args of
          Some root \<Rightarrow> if root \<noteq> [] \<and> last root = CHR ''/'' then root @ api else root @ ''/'' @ api
        | None \<Rightarrow>
            protocol @ ''://'' @ (case vm_server_ip args of None \<Rightarrow> ''(null)'' | Some ip \<Rightarrow> ip) @ '':'' @
            show_int (vm_port args) @ ''/'' @ api)"

definition vm_test_url :: "vm_args \<Rightarrow> string" where
  "vm_test_url args =
     vm_url (if vm_use_ssl args \<noteq> 0 then ''https'' else ''http'') ''prometheus/api/v1/query'' args"

definition vm_push_url :: "string \<Rightarrow> vm_args \<Rightarrow> string" where
  "vm_push_url hostname args =
     vm_url (if vm_use_ssl args \<noteq> 0 then ''https'' else ''http'')
       (''api/v1/import/prometheus?extra_label=instance='' @ hostname) args"

section \<open>The start and the push thread\<close>

text \<open>\<open>vm start\<close> creates the thread and then sets \<open>vm_running\<close>; the thread tests the connection, clears \<open>vm_running\<close> when
  the test fails, and then runs as long as it is set.\<close>

datatype starter = Before_create | Before_set | Started
datatype pusher = No_thread | Testing | Looping | Ended

record vm_threads =
  starter :: starter
  pusher :: pusher
  running :: bool

inductive vm_thread_step :: "bool \<Rightarrow> vm_threads \<Rightarrow> vm_threads \<Rightarrow> bool" for ok where
  create: "starter st = Before_create \<Longrightarrow> vm_thread_step ok st (st\<lparr>starter := Before_set, pusher := Testing\<rparr>)"
| set_running: "starter st = Before_set \<Longrightarrow> vm_thread_step ok st (st\<lparr>starter := Started, running := True\<rparr>)"
| test_ok: "pusher st = Testing \<Longrightarrow> ok \<Longrightarrow> vm_thread_step ok st (st\<lparr>pusher := Looping\<rparr>)"
| test_failed: "pusher st = Testing \<Longrightarrow> \<not> ok \<Longrightarrow> vm_thread_step ok st (st\<lparr>pusher := Looping, running := False\<rparr>)"
| turn: "pusher st = Looping \<Longrightarrow> running st \<Longrightarrow> vm_thread_step ok st st"
| leave: "pusher st = Looping \<Longrightarrow> \<not> running st \<Longrightarrow> vm_thread_step ok st (st\<lparr>pusher := Ended\<rparr>)"

definition vm_threads_start :: vm_threads where
  "vm_threads_start = \<lparr>starter = Before_create, pusher = No_thread, running = False\<rparr>"

section \<open>Properties\<close>

definition vm_accepts :: "string \<Rightarrow> string \<Rightarrow> bool" where
  "vm_accepts b l \<longleftrightarrow> length b + length l < BUFFER_SIZE"

lemma vm_add_accepts:
  "vm_add b l = (if vm_accepts b l then b @ l else b)"
  by (simp add: vm_accepts_def vm_add_def Let_def)

text \<open>The lines that found room, in their order; the bodies of the pushes that were reported as successful; and whether what
  each other push delivered is sent again, in front of all that follows.\<close>

fun vm_accepted :: "string \<times> (bool \<times> string) list \<Rightarrow> vm_event list \<Rightarrow> string" where
  "vm_accepted st [] = []"
| "vm_accepted st (e # es) =
     (case e of
        Vm_line l \<Rightarrow> (if vm_accepts (fst st) l then l else [])
      | Vm_turn outcome \<Rightarrow> []) @ vm_accepted (vm_event_step st e) es"

definition acknowledged :: "(bool \<times> string) list \<Rightarrow> string" where
  "acknowledged got = concat (map snd (filter fst got))"

fun failed_resent :: "(bool \<times> string) list \<Rightarrow> string \<Rightarrow> bool" where
  "failed_resent [] buffer = True"
| "failed_resent ((ok, body) # got) buffer =
     ((if ok then True else prefix body (acknowledged got @ buffer)) \<and> failed_resent got buffer)"

lemma acknowledged_simps [simp]:
  "acknowledged [] = []" "acknowledged ((True, b) # got) = b @ acknowledged got"
  "acknowledged ((False, b) # got) = acknowledged got" "acknowledged (xs @ ys) = acknowledged xs @ acknowledged ys"
  by (simp_all add: acknowledged_def)

lemma failed_resent_line: "failed_resent got b \<Longrightarrow> failed_resent got (b @ l)"
  by (induction got) (auto simp flip: append_assoc)

lemma failed_resent_turn:
  "failed_resent got b \<Longrightarrow> failed_resent (got @ [(True, b)]) []"
  "failed_resent got b \<Longrightarrow> failed_resent (got @ [(False, take n b)]) b"
  by (induction got) (auto simp: take_is_prefix)

lemma vm_turn_keeps:
  assumes "vm_push_turn outcome b = (b', bodies)" "failed_resent got b"
  shows "acknowledged (got @ bodies) @ b' = acknowledged got @ b \<and> failed_resent (got @ bodies) b' \<and> length b' \<le> length b"
  using assms failed_resent_turn
  by (auto simp: vm_push_turn_def split: if_splits push_outcome.splits)

lemma vm_events_conserve:
  assumes "failed_resent got b" "length b < BUFFER_SIZE"
  shows "case foldl vm_event_step (b, got) es of (b', got') \<Rightarrow>
     acknowledged got' @ b' = acknowledged got @ b @ vm_accepted (b, got) es \<and> length b' < BUFFER_SIZE \<and>
     failed_resent got' b'"
  using assms
proof (induction es arbitrary: b got)
  case (Cons e es)
  show ?case
  proof (cases e)
    case (Vm_line l)
    have "failed_resent got (vm_add b l)"
      using Cons.prems(1) failed_resent_line unfolding vm_add_accepts by auto
    note IH = Cons.IH [OF this vm_sink.add_bounded [OF Cons.prems(2)]]
    have line: "vm_add b l = b @ (if vm_accepts b l then l else [])" by (simp add: vm_add_accepts)
    show ?thesis using IH [unfolded split_beta] unfolding Vm_line split_beta by (simp add: line)
  next
    case (Vm_turn outcome)
    obtain b' bodies where t: "vm_push_turn outcome b = (b', bodies)" by fastforce
    note k = vm_turn_keeps [OF t Cons.prems(1)]
    have "length b' < BUFFER_SIZE" using k Cons.prems(2) by linarith
    moreover have "failed_resent (got @ bodies) b'" using k by blast
    ultimately have "case foldl vm_event_step (b', got @ bodies) es of (b'', got') \<Rightarrow>
        acknowledged got' @ b'' = acknowledged (got @ bodies) @ b' @ vm_accepted (b', got @ bodies) es \<and>
        length b'' < BUFFER_SIZE \<and> failed_resent got' b''"
      by (intro Cons.IH)
    moreover have "acknowledged (got @ bodies) @ b' @ r = acknowledged got @ b @ r" for r
      using k by (metis append.assoc)
    ultimately show ?thesis unfolding Vm_turn by (simp add: t split_beta)
  qed
qed simp

text \<open>Pushes that fail keep the buffer for the one that succeeds.\<close>

lemma pushed_after_failures:
  "b \<noteq> [] \<Longrightarrow>
   \<exists>got'. foldl vm_event_step (b, got) (map (\<lambda>n. Vm_turn (Push_failed n)) fails @ [Vm_turn Push_ok]) = ([], got' @ [(True, b)])"
  by (induction fails arbitrary: got) (auto simp: vm_push_turn_def)

text \<open>
  C18: The push client loses nothing: whatever lines are added and however pushes succeed or fail, the bodies of the pushes
  reported as successful, followed by what is still in the buffer, are exactly the lines that found room, in their order, and
  the buffer never overflows. The server gets a line twice only through a push that delivered something although it was
  reported as failed (its answer got lost, or was an error): that beginning is then sent again, first of all.
\<close>

theorem vm_push_exactly_once:
  "case foldl vm_event_step ([], []) es of (buffer, got) \<Rightarrow>
      acknowledged got @ buffer = vm_accepted ([], []) es \<and> length buffer < BUFFER_SIZE \<and> failed_resent got buffer"
  using vm_events_conserve [of "[]" "[]" es] by simp

text \<open>
  The scrape has no lock: a line added between sending the buffer and clearing it is neither sent nor kept.
\<close>

theorem prometheus_loses_line:
  assumes "length b + length l < BUFFER_SIZE"
  shows "foldl prom_event_step (b, []) [Prom_dump, Prom_line l, Prom_clear, Prom_dump] = ([], b)"
  using assms by (simp add: prometheus_add_def prometheus_clear_def prometheus_dump_def)

theorem prometheus_loses_line_witness:
  "foldl prom_event_step (''a'', []) [Prom_dump, Prom_line ''b'', Prom_clear, Prom_dump] = ([], ''a'')"
  using prometheus_loses_line [of "''a''" "''b''"] by (simp only: list.size)

text \<open>
  Starting the push client can end in a shell that believes it is running without a thread: if the thread tests
  its connection, even successfully, before \<open>vm start\<close> sets the flag, it ends at once, and then nothing changes any
  more but that \<open>vm start\<close> reports success without doing anything.
\<close>

theorem vm_start_race:
  "\<exists>st. (vm_thread_step ok)\<^sup>*\<^sup>* vm_threads_start st \<and> starter st = Started \<and> running st \<and> pusher st = Ended \<and>
     (\<forall>st'. \<not> vm_thread_step ok st st') \<and>
     (\<forall>mem home contents parser vm argv. let vm = vm\<lparr>vm_running := running st\<rparr> in
        vm_start_cmd mem home contents parser vm argv = Inr (SLASH_SUCCESS, vm))"
proof -
  let ?s1 = "\<lparr>starter = Before_set, pusher = Testing, running = False\<rparr>"
  let ?s2 = "\<lparr>starter = Before_set, pusher = Looping, running = False\<rparr>"
  let ?s3 = "\<lparr>starter = Before_set, pusher = Ended, running = False\<rparr>"
  let ?s4 = "\<lparr>starter = Started, pusher = Ended, running = True\<rparr>"
  have 1: "vm_thread_step ok vm_threads_start ?s1"
    using vm_thread_step.create [of vm_threads_start ok] by (simp add: vm_threads_start_def)
  have 2: "vm_thread_step ok ?s1 ?s2"
  proof (cases ok)
    case True
    then show ?thesis using vm_thread_step.test_ok [of ?s1 True] by simp
  next
    case False
    then show ?thesis using vm_thread_step.test_failed [of ?s1 False] by simp
  qed
  have 3: "vm_thread_step ok ?s2 ?s3"
    using vm_thread_step.leave [of ?s2 ok] by simp
  have 4: "vm_thread_step ok ?s3 ?s4"
    using vm_thread_step.set_running [of ?s3 ok] by simp
  have "(vm_thread_step ok)\<^sup>*\<^sup>* vm_threads_start ?s4"
    using 1 2 3 4 by (meson converse_rtranclp_into_rtranclp rtranclp.rtrancl_refl)
  moreover have "\<not> vm_thread_step ok ?s4 st'" for st'
    by (auto elim: vm_thread_step.cases)
  ultimately show ?thesis by (intro exI [of _ ?s4]) (simp add: vm_start_cmd_def)
qed

end
