(* ===== verification/Sniffer_Log.thy ===== *)
theory Sniffer_Log
  imports Hk_Sniffer Metrics
begin

text \<open>
  The parameter sniffer of \<open>src/param_sniffer.c\<close>, which writes a metric line for each value in a packet, and the stream
  of orbit data of \<open>src/vts.c\<close> it feeds. The reader of the packed data and the layout of numbers as text are the
  libraries' and are arguments.
\<close>

section \<open>Orbit data\<close>

text \<open>What goes to the simulator, with the time of each; an element of the array that was not written is \<open>None\<close>.\<close>

datatype 'd vts_event =
    Vts_time nat
  | Vts_quat nat "'d option" "'d option" "'d option" "'d option"
  | Vts_pos nat "'d option" "'d option" "'d option"

record vts_state =
  vts_running :: bool
  adcs_node :: int
  last_q_hat_time :: nat
  last_pos_time :: nat

abbreviation Q_HAT_ID :: int where "Q_HAT_ID \<equiv> 305"
abbreviation ORBIT_POS :: int where "ORBIT_POS \<equiv> 357"

definition check_vts :: "vts_state \<Rightarrow> int \<Rightarrow> int \<Rightarrow> bool" where
  "check_vts st node pid =
     (if \<not> vts_running st then False
      else if node \<noteq> adcs_node st then False
      else pid = Q_HAT_ID \<or> pid = ORBIT_POS)"

definition vts_add ::
  "'d option list \<Rightarrow> int \<Rightarrow> nat \<Rightarrow> nat \<Rightarrow> vts_state \<Rightarrow> vts_state \<times> 'd vts_event list" where
  "vts_add arr pid count time_ms st =
     (let timestamp = time_ms div 1000;
          events = [Vts_time timestamp];
          (st, events) =
            (if pid = Q_HAT_ID \<and> count = 4 \<and> timestamp > last_q_hat_time st
             then (st\<lparr>last_q_hat_time := timestamp\<rparr>,
                   events @ [Vts_quat timestamp (arr ! 3) (arr ! 0) (arr ! 1) (arr ! 2)])
             else (st, events))
      in if pid = ORBIT_POS \<and> count = 3 \<and> timestamp > last_pos_time st
         then (st\<lparr>last_pos_time := timestamp\<rparr>, events @ [Vts_pos timestamp (arr ! 0) (arr ! 1) (arr ! 2)])
         else (st, events))"

record vts_opts =
  vts_server_ip :: "string option"
  vts_port_num :: int
  vts_adcs_node :: int

text \<open>\<open>connects\<close> is whether there is a socket, the address is one, the connection is made and the first message
  sent. The node option is stored as it is parsed.\<close>

definition vts_init ::
  "(string \<Rightarrow> int \<Rightarrow> bool) \<Rightarrow> vts_opts optparse \<Rightarrow> vts_state \<Rightarrow> string list \<Rightarrow> slash_ret \<times> vts_state" where
  "vts_init connects parser st argv =
     (let (argi, opts) = optparse_parse parser
            \<lparr>vts_server_ip = None, vts_port_num = 8888, vts_adcs_node = adcs_node st\<rparr> argv;
          st = st\<lparr>adcs_node := vts_adcs_node opts\<rparr>
      in if argi < 0 then (SLASH_EINVAL, st)
         else
           (let ip = (case vts_server_ip opts of None \<Rightarrow> ''127.0.0.1'' | Some ip \<Rightarrow> ip)
            in if \<not> connects ip (vts_port_num opts) then (SLASH_EINVAL, st)
               else (SLASH_SUCCESS, st\<lparr>vts_running := True\<rparr>)))"

section \<open>Logging a value\<close>

text \<open>How a type is written, and the tokens of the packed data: the head of an array, or a value.\<close>

datatype log_kind = Log_number | Log_double | Log_other
datatype 'v token = Tok_array nat | Tok 'v

record ('v, 'd) log_lib =
  kind_of :: "param_type \<Rightarrow> log_kind"
  expect_text :: "param_type \<Rightarrow> 'v \<Rightarrow> string option"
  expect_double :: "'v \<Rightarrow> 'd"

text \<open>The text of the array head, if there is one, and the values behind it.\<close>

definition array_count :: "'v token list \<Rightarrow> nat \<times> 'v token list" where
  "array_count reader = (case reader of Tok_array n # rest \<Rightarrow> (n, rest) | _ \<Rightarrow> (1, reader))"

text \<open>The value a token gives, \<open>None\<close> when the reader runs into an error.\<close>

definition next_value :: "'v token list \<Rightarrow> ('v \<times> 'v token list) option" where
  "next_value reader = (case reader of Tok v # rest \<Rightarrow> Some (v, rest) | _ \<Rightarrow> None)"

text \<open>The loop over \<open>count\<close> elements from index \<open>i\<close>: the lines, the array for the simulator, and the rest of the
  data. \<open>tmp\<close> has 1000 bytes and keeps the line of the element before where none is written.\<close>

fun log_values ::
  "('v, 'd) log_lib \<Rightarrow> param_t \<Rightarrow> bool \<Rightarrow> nat \<Rightarrow> nat \<Rightarrow> nat \<Rightarrow> string \<Rightarrow> 'd option list \<Rightarrow> 'v token list
     \<Rightarrow> (string list \<times> 'd option list \<times> 'v token list) c_result"
where
  "log_values lib param vts time_ms i 0 tmp vts_arr reader = Inr ([], vts_arr, reader)"
| "log_values lib param vts time_ms i (Suc count) tmp vts_arr reader =
     (case next_value reader of
        None \<Rightarrow> Inr ([], vts_arr, reader)
      | Some (v, rest) \<Rightarrow>
          (case (case kind_of lib (param_type_of param) of
                   Log_other \<Rightarrow> Inr (Some (tmp, vts_arr))
                 | Log_number \<Rightarrow>
                     (case expect_text lib (param_type_of param) v of
                        None \<Rightarrow> Inr None
                      | Some t \<Rightarrow>
                          (let line = metric_line (param_name param) (param_node param) i t time_ms
                           in if length line + 1 > 1000 then Inl Out_Of_Bounds else Inr (Some (line, vts_arr))))
                 | Log_double \<Rightarrow>
                     (case expect_text lib (param_type_of param) v of
                        None \<Rightarrow> Inr None
                      | Some t \<Rightarrow>
                          (let line = metric_line (param_name param) (param_node param) i t time_ms
                           in if length line + 1 > 1000 then Inl Out_Of_Bounds
                              else if vts then
                                (if i < length vts_arr then Inr (Some (line, vts_arr[i := Some (expect_double lib v)]))
                                 else Inl Out_Of_Bounds)
                              else Inr (Some (line, vts_arr))))) of
             Inl f \<Rightarrow> Inl f
           | Inr None \<Rightarrow> Inr ([], vts_arr, rest)
           | Inr (Some (tmp, vts_arr)) \<Rightarrow>
               (case log_values lib param vts time_ms (Suc i) count tmp vts_arr rest of
                  Inl f \<Rightarrow> Inl f
                | Inr (lines, vts_arr, reader) \<Rightarrow> Inr (tmp # lines, vts_arr, reader))))"

record sinks =
  sink_vm :: "string option"
  sink_prometheus :: "string option"
  sink_file :: "string option"

text \<open>A line goes to every sink that is open.\<close>

definition emit :: "sinks \<Rightarrow> string \<Rightarrow> sinks" where
  "emit s tmp =
     s\<lparr>sink_vm := map_option (\<lambda>b. vm_add b tmp) (sink_vm s),
       sink_prometheus := map_option (\<lambda>b. prometheus_add b tmp) (sink_prometheus s),
       sink_file := map_option (\<lambda>b. b @ tmp) (sink_file s)\<rparr>"

text \<open>The time in milliseconds: that of the value, else the clock's (\<open>now_ms\<close>).\<close>

definition log_time :: "nat \<Rightarrow> nat \<times> nat \<Rightarrow> nat" where
  "log_time now_ms timestamp =
     (if fst timestamp > 0 then (fst timestamp * 1000000 + snd timestamp div 1000) div 1000 else now_ms)"

definition param_sniffer_log ::
  "('v, 'd) log_lib \<Rightarrow> nat \<Rightarrow> param_t \<Rightarrow> int \<Rightarrow> nat \<times> nat \<Rightarrow> 'v token list \<Rightarrow> sinks \<Rightarrow> vts_state
     \<Rightarrow> (sinks \<times> vts_state \<times> 'd vts_event list \<times> 'v token list) c_result"
where
  "param_sniffer_log lib now_ms param offset timestamp reader s st =
     (let offset = (if offset < 0 then 0 else offset);
          (count, reader) = array_count reader;
          vts = check_vts st (param_node param) (param_id param);
          time_ms = log_time now_ms timestamp
      in (case log_values lib param vts time_ms (nat offset) count [] (replicate 4 None) reader of
            Inl f \<Rightarrow> Inl f
          | Inr (lines, vts_arr, reader) \<Rightarrow>
              (let s = foldl emit s lines;
                   (st, events) = (if vts then vts_add vts_arr (param_id param) count time_ms st else (st, []))
               in Inr (s, st, events, reader))))"

section \<open>The sniffer\<close>

text \<open>Which packets are logged: not those of the housekeeping sniffer, only those from or to the parameter server with a
  right checksum that are pull responses. \<open>kind\<close> is their first byte; the library fixes the port and the types.\<close>

record sniffer_consts =
  PARAM_PORT_SERVER :: int
  PARAM_PULL_RESPONSE :: int
  PARAM_PULL_RESPONSE_V2 :: int

text \<open>The version of the packed data, \<open>None\<close> if the packet is dropped.\<close>

definition sniffed_version ::
  "sniffer_consts \<Rightarrow> (csp_packet \<Rightarrow> int \<times> csp_packet) \<Rightarrow> csp_packet \<Rightarrow> int \<Rightarrow> (nat \<times> csp_packet) option" where
  "sniffed_version c csp_crc32_verify packet type =
     (if packet_sport packet \<noteq> PARAM_PORT_SERVER c \<and> packet_dport packet \<noteq> PARAM_PORT_SERVER c then None
      else
        (let (r, packet) = param_sniffer_crc csp_crc32_verify packet in
         if r < 0 then None
         else if type \<noteq> PARAM_PULL_RESPONSE c \<and> type \<noteq> PARAM_PULL_RESPONSE_V2 c then None
         else if type = PARAM_PULL_RESPONSE c then Some (1, packet)
         else Some (2, packet)))"

text \<open>An item: its head as \<open>param_deserialize_id\<close> reads it, with nanoseconds, and the value's tokens. The receive time
  replaces a missing timestamp.\<close>

record 'v sniff_item =
  si_head :: hk_item
  si_tv_nsec :: nat
  si_tokens :: "'v token list"

fun sniff_items ::
  "('v, 'd) log_lib \<Rightarrow> (int \<Rightarrow> int \<Rightarrow> param_t option) \<Rightarrow> nat \<Rightarrow> int \<Rightarrow> nat \<Rightarrow> 'v sniff_item list \<Rightarrow> sinks \<Rightarrow> vts_state
     \<Rightarrow> (sinks \<times> vts_state \<times> 'd vts_event list) c_result"
where
  "sniff_items lib find_id now_ms src timestamp_rx [] s st = Inr (s, st, [])"
| "sniff_items lib find_id now_ms src timestamp_rx (item # items) s st =
     (let node = (if item_node (si_head item) = 0 then src else item_node (si_head item));
          timestamp = (if item_tv_sec (si_head item) = 0 \<and> timestamp_rx \<noteq> 0 then (timestamp_rx, 0)
                       else (nat (item_tv_sec (si_head item)), si_tv_nsec item))
      in case find_id node (item_id (si_head item)) of
           None \<Rightarrow> sniff_items lib find_id now_ms src timestamp_rx items s st
         | Some param \<Rightarrow>
             (case param_sniffer_log lib now_ms param (item_offset (si_head item)) timestamp (si_tokens item) s st of
                Inl f \<Rightarrow> Inl f
              | Inr (s, st, events, reader) \<Rightarrow>
                  (case sniff_items lib find_id now_ms src timestamp_rx items s st of
                     Inl f \<Rightarrow> Inl f
                   | Inr (s, st, events') \<Rightarrow> Inr (s, st, events @ events'))))"

section \<open>Starting the sniffer\<close>

text \<open>The sniffer is started once; what a later start asks of the log file is ignored. \<open>log_opens\<close> is whether the log file can
  be opened, \<open>sniffer_logfile\<close> whether it is. \<open>prometheus_started\<close> is the flag of \<open>src/prometheus.c\<close>.\<close>

record sniffer_state =
  sniffer_running :: bool
  sniffer_logfile :: bool
  prometheus_started :: bool

definition param_sniffer_init :: "bool \<Rightarrow> int \<Rightarrow> sniffer_state \<Rightarrow> sniffer_state" where
  "param_sniffer_init log_opens add_logfile st =
     (if sniffer_running st then st
      else
        (let st = (if add_logfile \<noteq> 0 then st\<lparr>sniffer_logfile := log_opens\<rparr> else st)
         in st\<lparr>sniffer_running := True\<rparr>))"

definition prometheus_start_cmd ::
  "bool \<Rightarrow> int optparse \<Rightarrow> string list \<Rightarrow> sniffer_state \<Rightarrow> slash_ret \<times> sniffer_state" where
  "prometheus_start_cmd log_opens parser argv st =
     (if prometheus_started st then (SLASH_SUCCESS, st)
      else
        (let (argi, logfile) = optparse_parse parser 0 argv
         in if argi < 0 then (SLASH_EINVAL, st)
            else (SLASH_SUCCESS, (param_sniffer_init log_opens logfile st)\<lparr>prometheus_started := True\<rparr>)))"

section \<open>Properties\<close>

text \<open>The lines of an array of values, from an index on.\<close>

fun value_lines :: "param_t \<Rightarrow> nat \<Rightarrow> nat \<Rightarrow> string list \<Rightarrow> string list" where
  "value_lines param time_ms i [] = []"
| "value_lines param time_ms i (t # ts) =
     metric_line (param_name param) (param_node param) i t time_ms # value_lines param time_ms (Suc i) ts"

definition lines_fit :: "param_t \<Rightarrow> nat \<Rightarrow> nat \<Rightarrow> string list \<Rightarrow> bool" where
  "lines_fit param time_ms i ts \<longleftrightarrow> list_all (\<lambda>l. length l < 1000) (value_lines param time_ms i ts)"

lemma log_values_numbers:
  assumes "kind_of lib (param_type_of param) \<noteq> Log_other" "\<not> vts"
  shows "map (expect_text lib (param_type_of param)) vs = map Some ts \<Longrightarrow> lines_fit param time_ms i ts \<Longrightarrow>
     log_values lib param vts time_ms i (length vs) tmp arr (map Tok vs @ rest) =
       Inr (value_lines param time_ms i ts, arr, rest)"
proof (induction vs arbitrary: i ts tmp)
  case (Cons v vs)
  then obtain t ts' where "ts = t # ts'" "expect_text lib (param_type_of param) v = Some t"
      "map (expect_text lib (param_type_of param)) vs = map Some ts'"
    by (cases ts) auto
  with Cons assms show ?case
    by (cases "kind_of lib (param_type_of param)") (simp_all add: next_value_def lines_fit_def Let_def)
qed simp

lemma param_sniffer_log_numbers:
  assumes "kind_of lib (param_type_of param) \<noteq> Log_other" "\<not> check_vts st (param_node param) (param_id param)"
    and "map (expect_text lib (param_type_of param)) vs = map Some ts"
    and "lines_fit param (log_time now_ms timestamp) (nat (max 0 offset)) ts"
  shows "param_sniffer_log lib now_ms param offset timestamp (Tok_array (length vs) # map Tok vs @ rest) s st =
     Inr (foldl emit s (value_lines param (log_time now_ms timestamp) (nat (max 0 offset)) ts), st, [], rest)"
proof -
  have "(if offset < 0 then 0 else offset) = max 0 offset" by simp
  then show ?thesis
    using log_values_numbers [OF assms(1) _ assms(3,4), of False "[]" "replicate 4 None" rest] assms(2)
    unfolding param_sniffer_log_def Let_def array_count_def
    by simp
qed

lemma sink_vm_emit: "sink_vm (foldl emit s ls) = map_option (\<lambda>b. foldl vm_add b ls) (sink_vm s)"
  by (induction ls arbitrary: s) (simp_all add: emit_def option.map_comp comp_def option.map_id0 option.map_ident)

text \<open>
  A packed array of numbers that are not streamed becomes one line per element (each of fewer than 1000 bytes), with the name and the node of the parameter, the index
  counted from the offset in the packet, the value and one time for all, and every open sink gets exactly these lines
  in order.
\<close>

theorem sniffer_log_lines:
  assumes "kind_of lib (param_type_of param) \<noteq> Log_other" "\<not> check_vts st (param_node param) (param_id param)"
    and "map (expect_text lib (param_type_of param)) vs = map Some ts"
    and "lines_fit param (log_time now_ms timestamp) (nat (max 0 offset)) ts"
  shows "param_sniffer_log lib now_ms param offset timestamp (Tok_array (length vs) # map Tok vs @ rest) s st =
     Inr (foldl emit s (value_lines param (log_time now_ms timestamp) (nat (max 0 offset)) ts), st, [], rest)"
  using assms by (rule param_sniffer_log_numbers)

abbreviation demo_lib :: "(nat, nat) log_lib" where
  "demo_lib \<equiv> \<lparr>kind_of = (\<lambda>t. if t = PARAM_TYPE_OTHER 9 then Log_double else Log_number),
     expect_text = (\<lambda>t v. Some (show_nat v)), expect_double = (\<lambda>v. v)\<rparr>"

abbreviation no_vts :: vts_state where
  "no_vts \<equiv> \<lparr>vts_running = False, adcs_node = 0, last_q_hat_time = 0, last_pos_time = 0\<rparr>"

theorem sniffer_log_lines_witness:
  "param_sniffer_log demo_lib 0 temp_param (- 1) (1700000000, 5000000) [Tok_array 2, Tok 21, Tok 22]
     \<lparr>sink_vm = None, sink_prometheus = None, sink_file = Some []\<rparr> no_vts =
   Inr (\<lparr>sink_vm = None, sink_prometheus = None,
         sink_file = Some (metric_line ''temp'' 5 0 ''21'' 1700000000005 @ metric_line ''temp'' 5 1 ''22'' 1700000000005)\<rparr>,
        no_vts, [], [])"
proof -
  define l0 where "l0 = metric_line ''temp'' 5 0 ''21'' 1700000000005"
  define l1 where "l1 = metric_line ''temp'' 5 1 ''22'' 1700000000005"
  have t: "log_time 0 (1700000000, 5000000) = 1700000000005" by (simp add: log_time_def)
  have "length (show_nat 1700000000005) \<le> 13" "length (show_nat 5) \<le> 1" "length (show_nat 0) \<le> 1" "length (show_nat 1) \<le> 1"
    by (rule length_show_nat_le; simp)+
  then have len: "length l0 < 1000" "length l1 < 1000"
    by (simp_all add: l0_def l1_def metric_line_def quoted_def)
  have vals: "map (expect_text demo_lib (param_type_of temp_param)) [21, 22] = map Some [''21'', ''22'']" by code_simp
  have lines: "value_lines temp_param 1700000000005 0 [''21'', ''22''] = [l0, l1]"
    by (simp add: l0_def l1_def)
  have "param_sniffer_log demo_lib 0 temp_param (- 1) (1700000000, 5000000) (Tok_array (length [21 :: nat, 22]) # map Tok [21, 22] @ [])
     \<lparr>sink_vm = None, sink_prometheus = None, sink_file = Some []\<rparr> no_vts =
     Inr (foldl emit \<lparr>sink_vm = None, sink_prometheus = None, sink_file = Some []\<rparr>
       (value_lines temp_param (log_time 0 (1700000000, 5000000)) (nat (max 0 (- 1))) [''21'', ''22'']), no_vts, [], [])"
  proof (rule sniffer_log_lines [OF _ _ vals])
    show "lines_fit temp_param (log_time 0 (1700000000, 5000000)) (nat (max 0 (- 1))) [''21'', ''22'']"
      using len by (simp add: lines_fit_def t lines del: value_lines.simps)
  qed (simp_all add: check_vts_def)
  moreover have "nat (max 0 (- 1)) = 0" by simp
  ultimately show ?thesis
    unfolding t lines l0_def [symmetric] l1_def [symmetric] by (simp add: lines emit_def numeral_2_eq_2 del: value_lines.simps)
qed

text \<open>
  An array of doubles with an element beyond the fourth, from a parameter that is streamed, is written behind the array
  for the simulator.
\<close>

lemma vts_array_overflow:
  assumes "kind_of lib (param_type_of param) = Log_double" "check_vts st (param_node param) (param_id param)"
    and "4 \<le> offset" "expect_text lib (param_type_of param) v = Some t"
  shows "param_sniffer_log lib now_ms param offset timestamp [Tok v] s st = Inl Out_Of_Bounds"
proof -
  have "\<not> nat offset < 4" using assms(3) by simp
  then show ?thesis using assms
    by (simp add: param_sniffer_log_def array_count_def next_value_def Let_def)
qed

text \<open>The times of the attitudes among the events.\<close>

definition quat_times :: "'d vts_event list \<Rightarrow> nat list" where
  "quat_times events = concat (map (\<lambda>e. case e of Vts_quat t a b c d \<Rightarrow> [t] | _ \<Rightarrow> []) events)"

definition pos_times :: "'d vts_event list \<Rightarrow> nat list" where
  "pos_times events = concat (map (\<lambda>e. case e of Vts_pos t a b c \<Rightarrow> [t] | _ \<Rightarrow> []) events)"

fun vts_run :: "('d option list \<times> int \<times> nat \<times> nat) list \<Rightarrow> vts_state \<Rightarrow> vts_state \<times> 'd vts_event list" where
  "vts_run [] st = (st, [])"
| "vts_run ((arr, pid, count, time_ms) # xs) st =
     (let (st, events) = vts_add arr pid count time_ms st; (st, events') = vts_run xs st in (st, events @ events'))"

lemma vts_run_times:
  "sorted_wrt (<) (quat_times (snd (vts_run xs st))) \<and> sorted_wrt (<) (pos_times (snd (vts_run xs st))) \<and>
   list_all (\<lambda>t. last_q_hat_time st < t) (quat_times (snd (vts_run xs st))) \<and>
   list_all (\<lambda>t. last_pos_time st < t) (pos_times (snd (vts_run xs st)))"
proof (induction xs arbitrary: st)
  case Nil
  show ?case by (simp add: quat_times_def pos_times_def)
next
  case (Cons x xs)
  obtain arr pid count time_ms where x: "x = (arr, pid, count, time_ms)" by (cases x)
  obtain st1 ev where a: "vts_add arr pid count time_ms st = (st1, ev)" by fastforce
  obtain st2 ev' where r: "vts_run xs st1 = (st2, ev')" by fastforce
  have mono: "last_q_hat_time st \<le> last_q_hat_time st1" "last_pos_time st \<le> last_pos_time st1"
    and ev: "quat_times ev = [] \<or> quat_times ev = [last_q_hat_time st1] \<and> last_q_hat_time st < last_q_hat_time st1"
      "pos_times ev = [] \<or> pos_times ev = [last_pos_time st1] \<and> last_pos_time st < last_pos_time st1"
    using a by (auto simp: vts_add_def Let_def quat_times_def pos_times_def split: if_splits)
  have app: "quat_times (ev @ ev') = quat_times ev @ quat_times ev'" "pos_times (ev @ ev') = pos_times ev @ pos_times ev'"
    by (simp_all add: quat_times_def pos_times_def)
  have "snd (vts_run (x # xs) st) = ev @ ev'" using x a r by simp
  then show ?case
    using Cons.IH [of st1] r mono ev app by (auto simp: list_all_iff)
qed

text \<open>
  Whatever values are streamed, in whatever order and however often the same packet is seen, the simulator gets
  attitudes with strictly increasing times, and positions with strictly increasing times.
\<close>

theorem vts_times_increase:
  "sorted_wrt (<) (quat_times (snd (vts_run xs st))) \<and> sorted_wrt (<) (pos_times (snd (vts_run xs st)))"
  using vts_run_times [of xs st] by simp

text \<open>Once the sniffer runs, the option for a log file has no effect and is not refused either.\<close>

lemma logfile_ignored:
  "sniffer_running st \<Longrightarrow> optparse_parse parser 0 argv = (argi, logfile) \<Longrightarrow> 0 \<le> argi \<Longrightarrow>
   fst (prometheus_start_cmd log_opens parser argv st) = SLASH_SUCCESS \<and>
   sniffer_logfile (snd (prometheus_start_cmd log_opens parser argv st)) = sniffer_logfile st"
  by (simp add: prometheus_start_cmd_def param_sniffer_init_def)

end
