(* ===== verification/Locks.thy ===== *)
theory Locks
  imports Csp_Cmds
begin

text \<open>
  The locks of \<open>src/lock.c\<close> for the parameter library: three binary semaphores, the deadline of a bounded wait, and the
  threads that take and give one.
\<close>

section \<open>Waiting\<close>

text \<open>The deadline is the clock's time plus the wait, in seconds and nanoseconds; the two parts of the wait are
  unsigned 32-bit numbers.\<close>

definition lock_deadline :: "int \<Rightarrow> int \<times> int \<Rightarrow> int \<times> int" where
  "lock_deadline block_time_ms ts =
     (let (tv_sec, tv_nsec) = ts;
          sec = to_uint32 (c_div block_time_ms 1000);
          nsec = to_uint32 ((block_time_ms - 1000 * sec) * 1000000);
          tv_sec = tv_sec + sec;
          tv_sec = (if tv_nsec + nsec \<ge> 1000000000 then tv_sec + 1 else tv_sec)
      in (tv_sec, (tv_nsec + nsec) mod 1000000000))"

datatype lock_wait = Wait_forever | Wait_until int int | No_clock

text \<open>
  What can happen to a thread that waits on a semaphore: it is woken (the semaphore may be up), a signal interrupts
  it, or the clock reaches a time. \<open>sem_wait\<close> and \<open>sem_timedwait\<close> give the return value and the value left;
  \<open>None\<close>: the thread still waits. A semaphore that is up is taken even after the deadline.
\<close>

datatype wait_event = Woken | Interrupted | Clock_at int int

definition sem_wait :: "wait_event \<Rightarrow> nat \<Rightarrow> (int \<times> nat) option" where
  "sem_wait ev val =
     (if 0 < val \<and> ev \<noteq> Interrupted then Some (0, val - 1)
      else if ev = Interrupted then Some (- 1, val)
      else None)"

definition sem_timedwait :: "int \<times> int \<Rightarrow> wait_event \<Rightarrow> nat \<Rightarrow> (int \<times> nat) option" where
  "sem_timedwait deadline ev val =
     (case ev of
        Clock_at s n \<Rightarrow>
          if 0 < val then Some (0, val - 1)
          else if fst deadline < s \<or> fst deadline = s \<and> snd deadline \<le> n then Some (- 1, val)
          else None
      | _ \<Rightarrow> sem_wait ev val)"

text \<open>\<open>si_lock_take\<close>; \<open>clock\<close> is the time at the call, \<open>None\<close> if it cannot be read.\<close>

definition si_lock_take :: "(int \<times> int) option \<Rightarrow> int \<Rightarrow> wait_event \<Rightarrow> nat \<Rightarrow> (int \<times> nat) option" where
  "si_lock_take clock block_time_ms ev val =
     (let ret_of = (\<lambda>r. map_option (\<lambda>(ret, val). (if ret \<noteq> 0 then - 1 else 0, val)) r)
      in (if block_time_ms = - 1 then ret_of (sem_wait ev val)
          else
            (case clock of
               None \<Rightarrow> Some (- 1, val)
             | Some ts \<Rightarrow> ret_of (sem_timedwait (lock_deadline block_time_ms ts) ev val))))"

section \<open>Giving and allocating\<close>

text \<open>\<open>si_lock_give\<close> looks at the value and then posts.\<close>

definition give_posts :: "nat \<Rightarrow> bool" where
  "give_posts val = (\<not> val > 0)"

text \<open>The value after a give that looked at \<open>seen\<close>.\<close>

definition si_lock_give :: "nat \<Rightarrow> nat \<Rightarrow> nat" where
  "si_lock_give seen val = (if give_posts seen then val + 1 else val)"

abbreviation NUM_LOCKS :: nat where "NUM_LOCKS \<equiv> 3"

record lock_pool =
  lock_taken :: "bool list"
  lock_values :: "nat list"

text \<open>The first lock that is free, with its semaphore set to 1; \<open>None\<close> is the null pointer.\<close>

definition si_lock_init :: "lock_pool \<Rightarrow> nat option \<times> lock_pool" where
  "si_lock_init pool =
     (case find (\<lambda>i. \<not> lock_taken pool ! i) [0..<NUM_LOCKS] of
        None \<Rightarrow> (None, pool)
      | Some i \<Rightarrow> (Some i, \<lparr>lock_taken = (lock_taken pool)[i := True], lock_values = (lock_values pool)[i := 1]\<rparr>))"

section \<open>Threads\<close>

text \<open>
  A thread is outside, holds the lock because its \<open>si_lock_take\<close> returned 0, or is inside \<open>si_lock_give\<close>, having
  read a value and not yet posted; other threads may run between the two. A thread gives when it holds the lock, or
  when the lock is free at that moment (a give too many). Other steps of a thread do not touch the lock.
\<close>

datatype lock_pc = Outside | Holding | Giving nat

record lock_threads =
  sem_value :: nat
  lock_pc :: "nat \<Rightarrow> lock_pc"

inductive lock_step :: "lock_threads \<Rightarrow> lock_threads \<Rightarrow> bool" where
  take: "lock_pc st t = Outside \<Longrightarrow> si_lock_take clock ms ev (sem_value st) = Some (ret, val) \<Longrightarrow>
     lock_step st (st\<lparr>sem_value := val, lock_pc := (lock_pc st)(t := if ret = 0 then Holding else Outside)\<rparr>)"
| look: "lock_pc st t = Holding \<or> lock_pc st t = Outside \<and> 0 < sem_value st \<Longrightarrow>
     lock_step st (st\<lparr>lock_pc := (lock_pc st)(t := Giving (sem_value st))\<rparr>)"
| give: "lock_pc st t = Giving seen \<Longrightarrow>
     lock_step st (st\<lparr>sem_value := si_lock_give seen (sem_value st), lock_pc := (lock_pc st)(t := Outside)\<rparr>)"

definition lock_start :: "nat \<Rightarrow> lock_threads" where
  "lock_start val = \<lparr>sem_value = val, lock_pc = (\<lambda>t. Outside)\<rparr>"

inductive_cases lock_stepE: "lock_step st st'"

section \<open>Properties\<close>

text \<open>
  A bounded wait ends at exactly the time asked for: for every wait from 0 to the largest one the deadline is the
  current time plus that many milliseconds, and its nanoseconds are below one second.
\<close>

theorem lock_deadline_exact:
  assumes "0 \<le> block_time_ms" "block_time_ms \<le> INT32_MAX" "0 \<le> n" "n < 1000000000"
  shows "(case lock_deadline block_time_ms (s, n) of (s', n') \<Rightarrow>
     s' * 1000000000 + n' = s * 1000000000 + n + block_time_ms * 1000000 \<and> 0 \<le> n' \<and> n' < 1000000000)"
proof -
  define q where "q = block_time_ms div 1000"
  define r where "r = block_time_ms mod 1000"
  have b: "block_time_ms = 1000 * q + r" and r: "0 \<le> r" "r < 1000" and q: "0 \<le> q" "q < 4294967296"
    using assms(1,2) by (simp_all add: q_def r_def)
  have "c_div block_time_ms 1000 = q"
    using assms(1) by (cases "block_time_ms = 0") (simp_all add: c_div_def q_def)
  then have sec: "to_uint32 (c_div block_time_ms 1000) = q" using q by (simp add: to_uint32_id)
  have nsec: "to_uint32 ((block_time_ms - 1000 * q) * 1000000) = r * 1000000"
    using r b by (simp add: to_uint32_id)
  show ?thesis
  proof (cases "n + r * 1000000 \<ge> 1000000000")
    case True
    have "(n + r * 1000000) mod 1000000000 = n + r * 1000000 - 1000000000"
    proof -
      have "(n + r * 1000000) mod 1000000000 = (n + r * 1000000 - 1000000000) mod 1000000000"
        by (rule mod_pos_geq) (use True in simp_all)
      also have "\<dots> = n + r * 1000000 - 1000000000"
        by (rule mod_pos_pos_trivial) (use True assms(4) r in simp_all)
      finally show ?thesis .
    qed
    with True show ?thesis using sec nsec b assms r by (simp add: lock_deadline_def Let_def)
  next
    case False
    then have "(n + r * 1000000) mod 1000000000 = n + r * 1000000" using assms(3) r by simp
    with False show ?thesis using sec nsec b assms r by (simp add: lock_deadline_def Let_def)
  qed
qed

theorem lock_deadline_exact_witness: "lock_deadline 1500 (10, 700000000) = (12, 200000000)"
proof -
  obtain s n where d: "lock_deadline 1500 (10, 700000000) = (s, n)" by fastforce
  have "s * 1000000000 + n = 12200000000 \<and> 0 \<le> n \<and> n < 1000000000"
    using lock_deadline_exact [of 1500 700000000 10] d by simp
  then have e: "s * 1000000000 + n = 12200000000" and n: "0 \<le> n" "n < 1000000000" by auto
  have "s = (s * 1000000000 + n) div 1000000000" "n = (s * 1000000000 + n) mod 1000000000"
    using n by simp_all
  then have "s = 12" "n = 200000000" unfolding e by simp_all
  with d show ?thesis by simp
qed

text \<open>A negative wait other than -1 is no error and no immediate return: -2 waits for more than a second.\<close>

lemma lock_deadline_negative: "lock_deadline (- 2) (0, 0) = (1, 292967296)"
  by (simp add: lock_deadline_def c_div_def to_uint32_eq)

text \<open>A take that returns 0 found the semaphore up and took one off; one that returns -1 left it.\<close>

lemma si_lock_take_cases:
  assumes "si_lock_take clock ms ev val = Some (ret, val')"
  shows "ret = 0 \<and> 0 < val \<and> val' = val - 1 \<or> ret = - 1 \<and> val' = val"
  using assms
  by (auto simp: si_lock_take_def Let_def sem_wait_def sem_timedwait_def split: if_splits option.splits wait_event.splits)

text \<open>The threads that have the lock: those that hold it and those that are giving it back.\<close>

definition owners :: "lock_threads \<Rightarrow> nat set" where
  "owners st = {t. lock_pc st t = Holding \<or> lock_pc st t = Giving 0}"

definition lock_inv :: "lock_threads \<Rightarrow> bool" where
  "lock_inv st \<longleftrightarrow> sem_value st = 1 \<and> owners st = {} \<or> sem_value st = 0 \<and> (\<exists>t. owners st = {t})"

lemma lock_inv_step:
  assumes "lock_step st st'" "lock_inv st"
  shows "lock_inv st'"
  using assms(1)
proof (cases rule: lock_step.cases)
  case (take t clock ms ev ret val)
  from si_lock_take_cases [OF take(3)] show ?thesis
  proof
    assume r: "ret = 0 \<and> 0 < sem_value st \<and> val = sem_value st - 1"
    then have "sem_value st = 1" "owners st = {}" using assms(2) by (auto simp: lock_inv_def)
    then have "owners st' = {t}" using r take by (auto simp: owners_def)
    then show ?thesis using r take \<open>sem_value st = 1\<close> by (simp add: lock_inv_def)
  next
    assume r: "ret = - 1 \<and> val = sem_value st"
    then have "owners st' = owners st" using take by (auto simp: owners_def)
    then show ?thesis using r take assms(2) by (simp add: lock_inv_def)
  qed
next
  case (look t)
  have "owners st' = owners st"
  proof (cases "lock_pc st t = Holding")
    case True
    then have "t \<in> owners st" by (simp add: owners_def)
    then have "sem_value st = 0" using assms(2) by (auto simp: lock_inv_def)
    then show ?thesis using look True by (auto simp: owners_def)
  next
    case False
    then show ?thesis using look by (auto simp: owners_def)
  qed
  then show ?thesis using look assms(2) by (simp add: lock_inv_def)
next
  case (give t seen)
  show ?thesis
  proof (cases "seen = 0")
    case True
    then have "t \<in> owners st" using give by (simp add: owners_def)
    then have z: "sem_value st = 0" "owners st = {t}" using assms(2) by (auto simp: lock_inv_def)
    have "owners st' = owners st - {t}" using give by (auto simp: owners_def)
    then show ?thesis using z give True by (simp add: lock_inv_def si_lock_give_def give_posts_def)
  next
    case False
    then have "owners st' = owners st" using give by (auto simp: owners_def)
    then show ?thesis using False give assms(2) by (simp add: lock_inv_def si_lock_give_def give_posts_def)
  qed
qed

lemma si_lock_init_up:
  assumes "si_lock_init pool = (Some i, pool')" "length (lock_values pool) = NUM_LOCKS"
  shows "lock_values pool' ! i = 1"
proof -
  have f: "find (\<lambda>i. \<not> lock_taken pool ! i) [0..<NUM_LOCKS] = Some i" and p: "lock_values pool' = (lock_values pool)[i := 1]"
    using assms(1) by (auto simp: si_lock_init_def split: option.splits)
  have "i < NUM_LOCKS" using f by (auto simp: find_Some_iff)
  with p assms(2) show ?thesis by simp
qed

text \<open>
  C28: A lock that \<open>si_lock_init\<close> handed out excludes: in every state that threads reach by taking it (with any wait,
  timeouts and interruptions included), by giving it back, and by giving it once too often while it is free, with any
  interleaving also between the look and the post of a give, at most one thread has it, the semaphore is never above
  1, and it is 1 exactly when nobody has the lock, so that it can be taken again. (A thread that gives a lock another
  one holds is not covered: the code would release it.)
\<close>

theorem lock_excludes:
  assumes "si_lock_init pool = (Some i, pool')" "length (lock_values pool) = NUM_LOCKS"
    and "lock_step\<^sup>*\<^sup>* (lock_start (lock_values pool' ! i)) st"
  shows "sem_value st \<le> 1 \<and> (sem_value st = 1 \<longleftrightarrow> owners st = {}) \<and> (\<exists>t. owners st \<subseteq> {t})"
proof -
  have "lock_inv st"
    using assms(3)
  proof (induction rule: rtranclp_induct)
    case base
    show ?case using si_lock_init_up [OF assms(1,2)] by (simp add: lock_inv_def lock_start_def owners_def)
  qed (rule lock_inv_step)
  then show ?thesis by (auto simp: lock_inv_def)
qed

text \<open>Thread 7 takes the lock; a give that thread 8 had begun while the lock was free does not release it.\<close>

theorem lock_excludes_witness:
  "\<exists>st. lock_pc st 7 = Holding \<and> lock_pc st 8 = Outside \<and> sem_value st = 0 \<and> (\<exists>t. owners st \<subseteq> {t})"
proof -
  let ?pool = "\<lparr>lock_taken = [True, False, False], lock_values = [0, 0, 0]\<rparr>"
  let ?pool' = "\<lparr>lock_taken = [True, True, False], lock_values = [0, 1, 0]\<rparr>"
  let ?s0 = "lock_start 1"
  let ?s1 = "?s0\<lparr>lock_pc := (lock_pc ?s0)(8 := Giving (sem_value ?s0))\<rparr>"
  let ?s2 = "?s1\<lparr>sem_value := 0, lock_pc := (lock_pc ?s1)(7 := if (0::int) = 0 then Holding else Outside)\<rparr>"
  let ?s3 = "?s2\<lparr>sem_value := si_lock_give 1 (sem_value ?s2), lock_pc := (lock_pc ?s2)(8 := Outside)\<rparr>"
  have i: "si_lock_init ?pool = (Some 1, ?pool')" by code_simp
  have "lock_step ?s0 ?s1" by (rule lock_step.look) (simp add: lock_start_def)
  moreover have "lock_step ?s1 ?s2"
    by (rule lock_step.take [of _ _ None "- 1" Woken])
      (simp_all add: lock_start_def si_lock_take_def sem_wait_def)
  moreover have "lock_step ?s2 ?s3" by (rule lock_step.give) (simp add: lock_start_def)
  ultimately have "lock_step\<^sup>*\<^sup>* ?s0 ?s3" by (meson converse_rtranclp_into_rtranclp rtranclp.rtrancl_refl)
  then have "\<exists>t. owners ?s3 \<subseteq> {t}" using lock_excludes [OF i] by simp
  then show ?thesis by (intro exI [of _ ?s3]) (simp add: lock_start_def si_lock_give_def give_posts_def)
qed

text \<open>Three locks can be had, the fourth request gets the null pointer.\<close>

lemma si_lock_init_three:
  "(let p0 = \<lparr>lock_taken = [False, False, False], lock_values = [0, 0, 0]\<rparr>;
        (a, p1) = si_lock_init p0; (b, p2) = si_lock_init p1; (c, p3) = si_lock_init p2; (d, p4) = si_lock_init p3
    in (a, b, c, d)) = (Some 0, Some 1, Some 2, None)"
  by code_simp

end
