(* ===== verification/List_Cmds.thy ===== *)
theory List_Cmds
  imports Csp_Cmds
begin

text \<open>
  The commands on the list of parameters (\<open>src/param_list_slash.c\<close>, \<open>src/param_list_store_slash.c\<close>), the listing and the
  compression of remote memory (\<open>src/vmem_client_slash.c\<close>), and changing the directory (\<open>src/nav.c\<close>). What they do is a
  call of a library; how its answer becomes the result is modelled.
\<close>

section \<open>The list of parameters\<close>

datatype list_call =
    List_print int int "string option" int
  | List_download int int int bool
  | List_remove int int
  | List_create int int int int int string "string option" "string option" int
  | List_insert
  | List_destroy
  | List_save "string option" int bool "string option"
  | Store_save int
  | Store_load int

record list_opts =
  list_node :: int
  list_verbosity :: int
  list_mask :: "string option"

text \<open>Masks and types are texts the library knows.\<close>

record list_lib =
  maskstr_to_mask :: "string \<Rightarrow> int"
  umaskstr_to_mask :: "string \<Rightarrow> int"
  typestr_to_typeid :: "string \<Rightarrow> int option"
  is_local :: "int \<Rightarrow> bool"
  creates :: bool
  inserts :: bool

definition list_cmd :: "list_lib \<Rightarrow> slash_defaults \<Rightarrow> list_opts optparse \<Rightarrow> string list \<Rightarrow> slash_ret \<times> list_call list" where
  "list_cmd lib dfl parser argv =
     (let (argi, opts) = optparse_parse parser \<lparr>list_node = slash_dfl_node dfl, list_verbosity = 1, list_mask = None\<rparr> argv
      in if argi < 0 then (SLASH_EINVAL, [])
         else
           (let msk = (case list_mask opts of None \<Rightarrow> 4294967295 | Some s \<Rightarrow> maskstr_to_mask lib s);
                globstr = (if argi + 1 < argc argv then Some (nth_arg argv (argi + 1)) else None)
            in (SLASH_SUCCESS, [List_print msk (list_node opts) globstr (list_verbosity opts)])))"

record list_download_opts = csp_opts +
  dl_version :: int
  dl_remotes :: bool

definition list_download ::
  "list_lib \<Rightarrow> hosts_state \<Rightarrow> slash_defaults \<Rightarrow> list_download_opts optparse \<Rightarrow> string list \<Rightarrow> slash_ret \<times> list_call list"
where
  "list_download lib hosts dfl parser argv =
     (let (argi, opts) = optparse_parse parser
            \<lparr>csp_node = slash_dfl_node dfl, csp_timeout = slash_dfl_timeout dfl, dl_version = 3, dl_remotes = False\<rparr> argv
      in if argi < 0 then (SLASH_EINVAL, [])
         else
           (case node_argument hosts argv argi (csp_node opts) of
              None \<Rightarrow> (SLASH_EINVAL, [])
            | Some node \<Rightarrow>
                if node = 0 \<or> is_local lib node then (SLASH_EINVAL, [])
                else (SLASH_SUCCESS, [List_download node (csp_timeout opts) (dl_version opts) (dl_remotes opts)])))"

record list_forget_opts =
  forget_node :: int
  forget_verbose :: int

definition list_forget ::
  "hosts_state \<Rightarrow> slash_defaults \<Rightarrow> list_forget_opts optparse \<Rightarrow> string list \<Rightarrow> slash_ret \<times> list_call list" where
  "list_forget hosts dfl parser argv =
     (let (argi, opts) = optparse_parse parser \<lparr>forget_node = slash_dfl_node dfl, forget_verbose = 2\<rparr> argv
      in if argi < 0 then (SLASH_EINVAL, [])
         else
           (case node_argument hosts argv argi (forget_node opts) of
              None \<Rightarrow> (SLASH_EINVAL, [])
            | Some node \<Rightarrow> (SLASH_SUCCESS, [List_remove node (forget_verbose opts)])))"

record list_add_opts =
  la_node :: int
  la_array_len :: int
  la_vmem_type :: int
  la_help :: "string option"
  la_unit :: "string option"
  la_mask :: "string option"
  la_umask :: "string option"

text \<open>The mask is the union of the two masks as 32-bit words. A parameter the list refuses is destroyed, and the
  command succeeds all the same.\<close>

definition mask_union :: "int \<Rightarrow> int \<Rightarrow> int" where
  "mask_union a b = uint (or (word_of_int a :: 32 word) (word_of_int b))"

definition list_add ::
  "list_lib \<Rightarrow> slash_defaults \<Rightarrow> list_add_opts optparse \<Rightarrow> string list \<Rightarrow> slash_ret \<times> list_call list" where
  "list_add lib dfl parser argv =
     (let (argi, opts) = optparse_parse parser
            \<lparr>la_node = slash_dfl_node dfl, la_array_len = 0, la_vmem_type = 0, la_help = None, la_unit = None,
             la_mask = None, la_umask = None\<rparr> argv
      in if argi < 0 then (SLASH_EINVAL, [])
         else if argi + 1 \<ge> argc argv then (SLASH_EINVAL, [])
         else if argi + 2 \<ge> argc argv then (SLASH_EINVAL, [])
         else if argi + 3 \<ge> argc argv then (SLASH_EINVAL, [])
         else
           (let nm = nth_arg argv (argi + 1);
                pid = to_uint32 (fst (strtoul 10 (nth_arg argv (argi + 2))))
            in case typestr_to_typeid lib (nth_arg argv (argi + 3)) of
                 None \<Rightarrow> (SLASH_EINVAL, [])
               | Some typeid \<Rightarrow>
                   (let msk = (case la_mask opts of None \<Rightarrow> 0 | Some s \<Rightarrow> maskstr_to_mask lib s);
                        msk = (case la_umask opts of None \<Rightarrow> msk | Some s \<Rightarrow> mask_union msk (umaskstr_to_mask lib s));
                        create = List_create pid (la_node opts) typeid msk (la_array_len opts) nm (la_unit opts)
                                   (la_help opts) (la_vmem_type opts)
                    in if \<not> creates lib then (SLASH_EINVAL, [create])
                       else if inserts lib then (SLASH_SUCCESS, [create, List_insert])
                       else (SLASH_SUCCESS, [create, List_insert, List_destroy]))))"

record list_save_opts =
  ls_filename :: "string option"
  ls_node :: int
  ls_skip_node :: bool

definition list_save_cmd :: "slash_defaults \<Rightarrow> list_save_opts optparse \<Rightarrow> string list \<Rightarrow> slash_ret \<times> list_call list" where
  "list_save_cmd dfl parser argv =
     (let (argi, opts) = optparse_parse parser \<lparr>ls_filename = None, ls_node = slash_dfl_node dfl, ls_skip_node = False\<rparr> argv
      in if argi < 0 then (SLASH_EINVAL, [])
         else
           (let globstr = (if argi + 1 < argc argv then Some (nth_arg argv (argi + 1)) else None)
            in (SLASH_SUCCESS, [List_save (ls_filename opts) (ls_node opts) (ls_skip_node opts) globstr])))"

definition param_list_store_vmem_save_slash :: "string list \<Rightarrow> slash_ret \<times> list_call list" where
  "param_list_store_vmem_save_slash argv =
     (if argc argv \<noteq> 2 then (SLASH_EUSAGE, []) else (SLASH_SUCCESS, [Store_save (atoi (nth_arg argv 1))]))"

definition param_list_store_vmem_load_slash :: "string list \<Rightarrow> slash_ret \<times> list_call list" where
  "param_list_store_vmem_load_slash argv =
     (if argc argv \<noteq> 2 then (SLASH_EUSAGE, []) else (SLASH_SUCCESS, [Store_load (atoi (nth_arg argv 1))]))"

section \<open>Remote memory\<close>

datatype vmem_call =
    Vmem_list int int int
  | Vmem_decompress int int int int int int
  | Vmem_compress int int int int int int

record vmem_opts = csp_opts +
  vmem_version :: int

definition vmem_client_slash_list ::
  "slash_defaults \<Rightarrow> vmem_opts optparse \<Rightarrow> string list \<Rightarrow> slash_ret \<times> vmem_call list" where
  "vmem_client_slash_list dfl parser argv =
     (let (argi, opts) = optparse_parse parser
            \<lparr>csp_node = slash_dfl_node dfl, csp_timeout = slash_dfl_timeout dfl, vmem_version = 2\<rparr> argv
      in if argi < 0 then (SLASH_EINVAL, [])
         else (SLASH_SUCCESS, [Vmem_list (csp_node opts) (csp_timeout opts) (vmem_version opts)]))"

text \<open>The two addresses and the length, or the result of the first parser that fails.\<close>

definition codec_args :: "string list \<Rightarrow> int \<Rightarrow> slash_ret + int \<times> int \<times> int" where
  "codec_args argv argi =
     (case parse_vmem_address argv argi of
        (res, argi, src) \<Rightarrow>
          if slash_failed res then Inl res
          else
            (case parse_vmem_address argv argi of
               (res, argi, dst) \<Rightarrow>
                 if slash_failed res then Inl res
                 else
                   (case parse_length argv argi of
                      (res, argi, len) \<Rightarrow>
                        if slash_failed res then Inl res else Inr (the src, the dst, the len))))"

text \<open>The codes of the memory client: -1 and -2 are translated, others are passed on.\<close>

definition codec_result :: "int \<Rightarrow> slash_ret" where
  "codec_result res =
     (if res < 0 then
        if res = - 1 then SLASH_ENOMEM else if res = - 2 then SLASH_EIO else SLASH_RESULT res
      else SLASH_RESULT res)"

definition vmem_client_slash_decompress ::
  "(vmem_call \<Rightarrow> int) \<Rightarrow> slash_defaults \<Rightarrow> vmem_opts optparse \<Rightarrow> string list \<Rightarrow> slash_ret \<times> vmem_call list" where
  "vmem_client_slash_decompress client dfl parser argv =
     (let (argi, opts) = optparse_parse parser
            \<lparr>csp_node = slash_dfl_node dfl, csp_timeout = slash_dfl_timeout dfl, vmem_version = 1\<rparr> argv
      in if argi < 0 then (SLASH_EINVAL, [])
         else
           (case codec_args argv argi of
              Inl res \<Rightarrow> (res, [])
            | Inr (src, dst, len) \<Rightarrow>
                (let call = Vmem_decompress (csp_node opts) (csp_timeout opts) src dst len (vmem_version opts)
                 in (codec_result (client call), [call]))))"

definition vmem_client_slash_compress ::
  "(vmem_call \<Rightarrow> int) \<Rightarrow> slash_defaults \<Rightarrow> vmem_opts optparse \<Rightarrow> string list \<Rightarrow> slash_ret \<times> vmem_call list" where
  "vmem_client_slash_compress client dfl parser argv =
     (let (argi, opts) = optparse_parse parser
            \<lparr>csp_node = slash_dfl_node dfl, csp_timeout = slash_dfl_timeout dfl, vmem_version = 1\<rparr> argv
      in if argi < 0 then (SLASH_EINVAL, [])
         else
           (case codec_args argv argi of
              Inl res \<Rightarrow> (res, [])
            | Inr (src, dst, len) \<Rightarrow>
                (let call = Vmem_compress (csp_node opts) (csp_timeout opts) src dst len (vmem_version opts)
                 in (codec_result (client call), [call]))))"

section \<open>Directories\<close>

abbreviation PATH_MAX :: nat where "PATH_MAX \<equiv> 4096"

text \<open>The directory changed to; \<open>getenv\<close> may return the null pointer. \<open>chdir\<close> is whether a directory can be
  entered.\<close>

definition slash_cd :: "string option \<Rightarrow> (string \<Rightarrow> bool) \<Rightarrow> string list \<Rightarrow> (slash_ret \<times> string option) c_result" where
  "slash_cd home chdir argv =
     (if argc argv \<noteq> 2 then Inr (SLASH_EUSAGE, None)
      else
        (let arg = nth_arg argv 1;
             target = (if length arg > 0 then
                         if char_at arg 0 = CHR ''~'' then
                           (case home of
                              None \<Rightarrow> Inl Null_Deref
                            | Some h \<Rightarrow>
                                if length h + 1 > PATH_MAX then Inl Out_Of_Bounds
                                else if char_at arg 1 \<noteq> NUL \<and> length h + length (tl arg) + 1 > PATH_MAX
                                then Inl Out_Of_Bounds
                                else Inr (h @ tl arg))
                         else Inr arg
                       else (case home of None \<Rightarrow> Inl Null_Deref | Some h \<Rightarrow> Inr h))
         in (case target of
               Inl f \<Rightarrow> Inl f
             | Inr dir \<Rightarrow> if \<not> chdir dir then Inr (SLASH_EINVAL, None) else Inr (SLASH_SUCCESS, Some dir))))"

text \<open>\<open>ls\<close>: the head line that is printed and the command for the system's shell, in an array of 100 bytes like the current
  directory, which is printed without a check that it fitted.\<close>

definition slash_ls :: "string \<Rightarrow> string list \<Rightarrow> (slash_ret \<times> string \<times> string) c_result" where
  "slash_ls cwd argv =
     (let dir = (if length cwd < 100 then Inr cwd else Inl Out_Of_Bounds) in
      if argc argv = 2 then
        (let arg = nth_arg argv 1; cmd = take 99 (''ls '' @ arg)
         in if char_at arg 0 = CHR ''/'' then Inr (SLASH_SUCCESS, arg @ '':'', cmd)
            else (case dir of Inl f \<Rightarrow> Inl f | Inr d \<Rightarrow> Inr (SLASH_SUCCESS, d @ ''/'' @ arg @ '':'', cmd)))
      else (case dir of Inl f \<Rightarrow> Inl f | Inr d \<Rightarrow> Inr (SLASH_SUCCESS, d @ '':'', ''ls'')))"

definition slash_pwd :: "string \<Rightarrow> string list \<Rightarrow> slash_ret \<times> string option" where
  "slash_pwd cwd argv = (if argc argv \<noteq> 0 then (SLASH_EUSAGE, None) else (SLASH_SUCCESS, Some cwd))"

definition slash_cat :: "(string \<Rightarrow> string option) \<Rightarrow> string list \<Rightarrow> slash_ret \<times> string" where
  "slash_cat contents argv =
     (if argc argv \<noteq> 2 then (SLASH_EUSAGE, [])
      else (case contents (nth_arg argv 1) of None \<Rightarrow> (SLASH_EINVAL, []) | Some text \<Rightarrow> (SLASH_SUCCESS, text)))"

definition cmd_sleep :: "string list \<Rightarrow> slash_ret \<times> int option" where
  "cmd_sleep argv =
     (if argc argv \<noteq> 2 then (SLASH_EUSAGE, None) else (SLASH_SUCCESS, Some (to_uint32 (atoi (nth_arg argv 1) * 1000))))"

section \<open>A file as remote memory\<close>

text \<open>The parameters of \<open>src/vmem_dynfile.c\<close> and the area they set up; writing \<open>file_init\<close> calls back. \<open>appends\<close> is whether the
  file can be opened; \<open>init\<close> counts the initialisations by the library.\<close>

abbreviation MAX_FILE_SIZE :: nat where "MAX_FILE_SIZE \<equiv> 10000000"

record dynfile =
  file_init :: int
  file_name :: string
  file_size :: nat
  area_size :: nat
  area_filename :: string
  area_inits :: nat

definition file_init_cb :: "(string \<Rightarrow> bool) \<Rightarrow> dynfile \<Rightarrow> dynfile" where
  "file_init_cb appends st =
     (if file_size st > MAX_FILE_SIZE then st\<lparr>file_init := - 1\<rparr>
      else
        (let st = st\<lparr>area_size := file_size st, area_filename := file_name st\<rparr>
         in if \<not> appends (area_filename st) then st\<lparr>file_init := - 2\<rparr>
            else st\<lparr>area_inits := area_inits st + 1\<rparr>))"

section \<open>Parameters of the program itself\<close>

text \<open>What the program declares: the counters of the CSP library (\<open>src/csp_debug_param.c\<close>) and its serial number
  (\<open>src/serial.c\<close>), with their types, the number of elements as declared, and whether they count errors.\<close>

datatype own_type = Own_uint8 | Own_int32
datatype own_flag = PM_DEBUG | PM_ERRCNT | PM_HWREG

record own_param =
  own_id :: nat
  own_name :: string
  own_type :: own_type
  own_array_size :: int
  own_flags :: "own_flag list"

definition debug_param :: "nat \<Rightarrow> string \<Rightarrow> own_flag list \<Rightarrow> own_param" where
  "debug_param i nm flags =
     \<lparr>own_id = i, own_name = nm, own_type = Own_uint8, own_array_size = 0, own_flags = flags\<rparr>"

definition csp_debug_params :: "own_param list" where
  "csp_debug_params =
     [debug_param 51 ''csp_buf_out'' [PM_DEBUG, PM_ERRCNT],
      debug_param 52 ''csp_conn_out'' [PM_DEBUG, PM_ERRCNT],
      debug_param 53 ''csp_conn_ovf'' [PM_DEBUG, PM_ERRCNT],
      debug_param 54 ''csp_conn_noroute'' [PM_DEBUG, PM_ERRCNT],
      debug_param 55 ''csp_inval_reply'' [PM_DEBUG, PM_ERRCNT],
      debug_param 56 ''csp_errno'' [PM_DEBUG],
      debug_param 57 ''csp_can_errno'' [PM_DEBUG],
      debug_param 58 ''csp_print_rdp'' [PM_DEBUG],
      debug_param 59 ''csp_print_packet'' [PM_DEBUG]]"

definition serial_param :: own_param where
  "serial_param =
     \<lparr>own_id = 31, own_name = ''serial0'', own_type = Own_int32, own_array_size = - 1, own_flags = [PM_HWREG]\<rparr>"

text \<open>The serial number is whatever \<open>rand\<close> gives, as an unsigned number.\<close>

definition serial_init :: "int \<Rightarrow> int" where
  "serial_init random = to_uint32 random"

definition serial_get :: "int \<Rightarrow> int" where
  "serial_get serial0 = serial0"

section \<open>Properties\<close>

text \<open>No two parameters of the program share a number or a name.\<close>

lemma own_params_distinct:
  "distinct (map own_id (serial_param # csp_debug_params)) \<and> distinct (map own_name (serial_param # csp_debug_params))"
  by code_simp

text \<open>A path of more than 96 characters is listed under the name of its head.\<close>

lemma slash_ls_cuts:
  assumes "length arg > 96" "hd arg = CHR ''/''"
  shows "slash_ls cwd [''ls'', arg] = Inr (SLASH_SUCCESS, arg @ '':'', ''ls '' @ take 96 arg)"
  using assms by (cases arg) (auto simp: slash_ls_def nth_arg_def)

text \<open>The name of the command counts as an argument, so \<open>pwd\<close> can only be refused.\<close>

lemma pwd_refused: "slash_pwd cwd (cmd # args) = (SLASH_EUSAGE, None)"
  by (simp add: slash_pwd_def)

text \<open>A list is never requested from the shell's own addresses.\<close>

lemma list_download_remote:
  "List_download node t v r \<in> set (snd (list_download lib hosts dfl parser argv)) \<Longrightarrow>
   node \<noteq> 0 \<and> \<not> is_local lib node"
  by (auto simp: list_download_def Let_def split: prod.splits if_splits option.splits)

lemma codec_args_parse:
  assumes "strtoul 16 a = (src, [])" "strtoul 16 b = (dst, [])"
  shows "codec_args [cmd, a, b, show_nat n] 0 =
     (if int n \<le> UINT32_MAX then Inr (src, dst, int n) else Inl SLASH_EINVAL)"
  using assms strto_scan_digits [OF show_nat_nonempty show_nat_digits, of "[]" n]
  by (auto simp: codec_args_def parse_vmem_address_def parse_length_def nth_arg_def strtoul_def Let_def
      split: option.splits)

text \<open>A compression sends one request, with the two addresses and the length as they were typed; a length of more than
  32 bits is refused and nothing is sent. A client without memory and one that timed out are told apart.\<close>

lemma vmem_compress_sends:
  assumes "strtoul 16 a = (src, [])" "strtoul 16 b = (dst, [])"
  shows "vmem_client_slash_compress client dfl (\<lambda>opts args. (0, opts)) [cmd, a, b, show_nat n] =
     (if int n \<le> UINT32_MAX
      then (let call = Vmem_compress (slash_dfl_node dfl) (slash_dfl_timeout dfl) src dst (int n) 1
            in (codec_result (client call), [call]))
      else (SLASH_EINVAL, []))"
  using codec_args_parse [OF assms] by (simp add: vmem_client_slash_compress_def optparse_parse_def)

text \<open>The area never grows beyond what was allocated for it; a file that cannot be opened is reported, but the area has
  its name and size already.\<close>

lemma file_init_bounded: "area_size st \<le> MAX_FILE_SIZE \<Longrightarrow> area_size (file_init_cb appends st) \<le> MAX_FILE_SIZE"
  by (simp add: file_init_cb_def Let_def)

lemma file_init_not_rolled_back:
  "file_size st \<le> MAX_FILE_SIZE \<Longrightarrow> \<not> appends (file_name st) \<Longrightarrow>
   file_init_cb appends st = st\<lparr>area_size := file_size st, area_filename := file_name st, file_init := - 2\<rparr>"
  by (simp add: file_init_cb_def Let_def)

end
