(* ===== verification/Zmqproxy.thy ===== *)
theory Zmqproxy
  imports Getopt
begin

unbundle bit_operations_syntax

text \<open>
  The start of the proxy program \<open>src/zmqproxy.c\<close>: its options, the key, the calls of the ZeroMQ library in their order, the
  log of captured packets and the monitoring of connections. The proxy loop itself is the library's; the one that
  simulates a bad channel is in \<open>Proxy_Lossy\<close>. At the end the other program, \<open>src/spacebridge.c\<close>.
\<close>

section \<open>The command line\<close>

text \<open>The two builds of the program; the second simulates a bad channel.\<close>

definition shortopts :: "bool \<Rightarrow> string" where
  "shortopts lossy = (if lossy then ''hakgv:d:s:p:f:L:C:D:T:S:N:U:O:'' else ''hgv:a:k:d:s:p:f:'')"

text \<open>The global variables; pointers can be null. The probabilities are kept as the text the C library reads.\<close>

record proxy_conf =
  csp_version :: int
  debug :: int
  sub_str :: "string option"
  pub_str :: "string option"
  logfile_name :: "string option"
  keyfile_name :: "string option"
  keyarg :: "string option"
  loss_prob :: "string option"
  corr_prob :: "string option"
  delay_prob :: "string option"
  enable_lossy :: bool
  delay_ms :: int
  seed :: int
  hdx_node :: int
  hdx_powerup_delay :: int
  hdx_powerdown_delay :: int

definition proxy_defaults :: proxy_conf where
  "proxy_defaults =
     \<lparr>csp_version = 2, debug = 0, sub_str = Some ''tcp://0.0.0.0:6000'', pub_str = Some ''tcp://0.0.0.0:7000'',
      logfile_name = None, keyfile_name = None, keyarg = None, loss_prob = None, corr_prob = None,
      delay_prob = None, enable_lossy = False, delay_ms = 0, seed = 0, hdx_node = 0, hdx_powerup_delay = 30,
      hdx_powerdown_delay = 100\<rparr>"

text \<open>The number in an argument; options that read one always have an argument.\<close>

definition opt_num :: "string option \<Rightarrow> int" where
  "opt_num arg = (case arg of None \<Rightarrow> 0 | Some s \<Rightarrow> atoi s)"

text \<open>One option: the exit code of the program or the new configuration.\<close>

definition set_option :: "bool \<Rightarrow> char \<Rightarrow> string option \<Rightarrow> proxy_conf \<Rightarrow> int + proxy_conf" where
  "set_option lossy opt optarg conf =
     (if opt = CHR ''d'' then Inr (conf\<lparr>debug := opt_num optarg\<rparr>)
      else if opt = CHR ''v'' then Inr (conf\<lparr>csp_version := opt_num optarg\<rparr>)
      else if opt = CHR ''s'' then Inr (conf\<lparr>sub_str := optarg\<rparr>)
      else if opt = CHR ''p'' then Inr (conf\<lparr>pub_str := optarg\<rparr>)
      else if opt = CHR ''f'' then Inr (conf\<lparr>logfile_name := optarg\<rparr>)
      else if opt = CHR ''a'' then Inr (conf\<lparr>keyfile_name := optarg\<rparr>)
      else if opt = CHR ''k'' then Inr (conf\<lparr>keyarg := optarg\<rparr>)
      else if opt = CHR ''g'' then Inl 0
      else if lossy \<and> opt = CHR ''L'' then Inr (conf\<lparr>loss_prob := optarg, enable_lossy := True\<rparr>)
      else if lossy \<and> opt = CHR ''C'' then Inr (conf\<lparr>corr_prob := optarg, enable_lossy := True\<rparr>)
      else if lossy \<and> opt = CHR ''D'' then Inr (conf\<lparr>delay_prob := optarg, enable_lossy := True\<rparr>)
      else if lossy \<and> opt = CHR ''T'' then Inr (conf\<lparr>delay_ms := opt_num optarg\<rparr>)
      else if lossy \<and> opt = CHR ''S'' then Inr (conf\<lparr>seed := opt_num optarg\<rparr>)
      else if lossy \<and> opt = CHR ''N'' then Inr (conf\<lparr>hdx_node := opt_num optarg, enable_lossy := True\<rparr>)
      else if lossy \<and> opt = CHR ''U'' then Inr (conf\<lparr>hdx_powerup_delay := opt_num optarg\<rparr>)
      else if lossy \<and> opt = CHR ''O'' then Inr (conf\<lparr>hdx_powerdown_delay := opt_num optarg\<rparr>)
      else Inl 1)"

fun set_options :: "bool \<Rightarrow> getopt_event list \<Rightarrow> proxy_conf \<Rightarrow> int + proxy_conf" where
  "set_options lossy [] conf = Inr conf"
| "set_options lossy (Option opt optarg # opts) conf =
     (case set_option lossy opt optarg conf of
        Inl r \<Rightarrow> Inl r
      | Inr conf \<Rightarrow> set_options lossy opts conf)"
| "set_options lossy (Missing_argument opt # opts) conf = Inl 1"
| "set_options lossy (Unknown_option opt # opts) conf = Inl 1"

section \<open>The key\<close>

abbreviation CURVE_KEYLEN :: nat where "CURVE_KEYLEN \<equiv> 41"
abbreviation NL :: char where "NL \<equiv> CHR 0x0A"

text \<open>A line as \<open>fgets\<close> reads it into an array of \<open>n\<close> bytes.\<close>

definition fgets_line :: "nat \<Rightarrow> string \<Rightarrow> string" where
  "fgets_line n text =
     (let text = take (n - 1) text in takeWhile (\<lambda>c. c \<noteq> NL) text @ (if NL \<in> set text then [NL] else []))"

text \<open>The exit code, or no key, or the key; \<open>contents\<close> are the files that can be opened.\<close>

definition load_key :: "(string \<Rightarrow> string option) \<Rightarrow> proxy_conf \<Rightarrow> int + string option" where
  "load_key contents conf =
     (case keyfile_name conf of
        Some f \<Rightarrow>
          (case contents f of
             None \<Rightarrow> Inl 1
           | Some text \<Rightarrow>
               if length text \<noteq> CURVE_KEYLEN then Inl 1
               else Inr (Some (c_string (fgets_line CURVE_KEYLEN text))))
      | None \<Rightarrow>
          (case keyarg conf of
             None \<Rightarrow> Inr None
           | Some k \<Rightarrow> Inr (Some (take (CURVE_KEYLEN - 1) k))))"

section \<open>The main program\<close>

datatype proxy_socket = Frontend | Backend

datatype zmq_call =
    Curve_server proxy_socket
  | Secret_key proxy_socket string
  | Bind proxy_socket "string option"
  | Start_capture
  | Start_monitors
  | Lossy_loop
  | Proxy_loop

datatype proxy_end = Exits int | Aborts | Serves

text \<open>Calls in an \<open>assert\<close>: those that are made, and whether all succeeded.\<close>

fun asserted :: "(zmq_call \<Rightarrow> bool) \<Rightarrow> zmq_call list \<Rightarrow> zmq_call list \<times> bool" where
  "asserted ok [] = ([], True)"
| "asserted ok (c # cs) = (if ok c then (let (done, all_ok) = asserted ok cs in (c # done, all_ok)) else ([c], False))"

definition key_calls :: "string \<Rightarrow> zmq_call list" where
  "key_calls sec_key =
     [Curve_server Frontend, Secret_key Frontend sec_key, Curve_server Backend, Secret_key Backend sec_key]"

definition proxy_main ::
  "bool \<Rightarrow> bool \<Rightarrow> (string \<Rightarrow> string option) \<Rightarrow> (zmq_call \<Rightarrow> bool) \<Rightarrow> string list \<Rightarrow> zmq_call list \<times> proxy_end" where
  "proxy_main posix lossy contents ok argv =
     (case set_options lossy (fst (getopt posix (shortopts lossy) (tl argv))) proxy_defaults of
        Inl r \<Rightarrow> ([], Exits r)
      | Inr conf \<Rightarrow>
          (case load_key contents conf of
             Inl r \<Rightarrow> ([], Exits r)
           | Inr sec_key \<Rightarrow>
               (let (set_up, all_ok) =
                      asserted ok ((case sec_key of None \<Rightarrow> [] | Some k \<Rightarrow> key_calls k) @
                                   [Bind Frontend (sub_str conf), Bind Backend (pub_str conf)])
                in if \<not> all_ok then (set_up, Aborts)
                   else (set_up @ (if debug conf AND 2 \<noteq> 0 then [Start_capture] else []) @
                         (if debug conf AND 1 \<noteq> 0 then [Start_monitors] else []) @
                         (if lossy \<and> enable_lossy conf then [Lossy_loop] else [Proxy_loop]),
                         Serves))))"

section \<open>The log of packets\<close>

text \<open>The task subscribes to all that the backend publishes, with the public key that belongs to the secret one if there is a
  key; it ends the program if the log file cannot be opened. \<open>public\<close> is the library's.\<close>

datatype capture_call =
    Server_key string
  | Public_key string
  | Own_secret_key string
  | Connect_capture "string option"
  | Subscribe_all
  | Open_log string

definition capture_setup ::
  "(string \<Rightarrow> string) \<Rightarrow> (capture_call \<Rightarrow> bool) \<Rightarrow> bool \<Rightarrow> proxy_conf \<Rightarrow> string \<Rightarrow> capture_call list \<times> proxy_end" where
  "capture_setup public ok mem conf sec_key =
     (let keys = (if keyfile_name conf \<noteq> None \<or> keyarg conf \<noteq> None
                  then [Server_key (public sec_key), Public_key (public sec_key), Own_secret_key sec_key] else []);
          connect = Connect_capture (pub_str conf)
      in if \<not> ok connect then (keys @ [connect], Aborts)
         else if \<not> ok Subscribe_all then (keys @ [connect, Subscribe_all], Aborts)
         else if \<not> mem then (keys @ [connect, Subscribe_all], Aborts)
         else
           (case logfile_name conf of
              None \<Rightarrow> (keys @ [connect, Subscribe_all], Serves)
            | Some f \<Rightarrow>
                (keys @ [connect, Subscribe_all, Open_log f], if ok (Open_log f) then Serves else Exits (- 1))))"

text \<open>A burst are the messages that wait when the first of them is read. A short one makes the program read on, to throw
  away, until nothing waits or an empty message comes. \<open>room\<close> is the space of a packet from the start of a frame,
  which is the library's; nothing checks a message against it.\<close>

function capture_burst :: "nat \<Rightarrow> string list \<Rightarrow> string list c_result" where
  "capture_burst room [] = Inr []"
| "capture_burst room (m # ms) =
     (if length m < 5 then capture_burst room (drop 1 (dropWhile (\<lambda>m. m \<noteq> []) ms))
      else if length m > room then Inl Out_Of_Bounds
      else (case capture_burst room ms of Inl f \<Rightarrow> Inl f | Inr frames \<Rightarrow> Inr (m # frames)))"
  by pat_completeness auto
termination
proof (relation "measure (\<lambda>(room, ms). length ms)")
  fix room :: nat and m :: string and ms :: "string list"
  have "length (drop 1 (dropWhile (\<lambda>m. m \<noteq> []) ms)) \<le> length ms"
    using length_dropWhile_le [of "\<lambda>m. m \<noteq> []" ms] by simp
  then show "((room, drop 1 (dropWhile (\<lambda>m. m \<noteq> []) ms)), room, m # ms) \<in> measure (\<lambda>(room, ms). length ms)"
    by simp
qed auto

text \<open>What goes to the log file: as many bytes of the line between packets as a pointer has.\<close>

definition log_frames :: "string list \<Rightarrow> string" where
  "log_frames frames = concat (map (\<lambda>frame. take 8 (''--------'' @ [NL]) @ frame) frames)"

section \<open>Monitoring\<close>

datatype zmq_event =
    Accepted | Handshake_succeeded | Handshake_failed_protocol | Handshake_failed_auth | Disconnected
  | Handshake_failed_no_detail | Other_event

text \<open>A frame of a message, and whether another one follows.\<close>

record zmq_frame =
  frame_data :: string
  frame_more :: bool

text \<open>The variables of the task; the address is not set at first and points to freed memory after a turn.\<close>

datatype address = Dangling | Null | Text string

record monitor =
  event_value :: int
  event_address :: address

definition le_bytes :: "string \<Rightarrow> nat" where
  "le_bytes bs = foldr (\<lambda>c n. of_char c + 256 * n) bs 0"

text \<open>Each frame is \<open>None\<close> if receiving it fails; \<open>mem\<close> is whether memory can be had.\<close>

definition get_monitor_event ::
  "bool \<Rightarrow> zmq_frame option \<Rightarrow> zmq_frame option \<Rightarrow> monitor \<Rightarrow> (int \<times> monitor) c_result" where
  "get_monitor_event mem frame1 frame2 st =
     (case frame1 of
        None \<Rightarrow> Inr (- 1, st)
      | Some f \<Rightarrow>
          if \<not> frame_more f then Inl Assert_Failed
          else if length (frame_data f) < 6 then Inl Out_Of_Bounds
          else
            (let event = int (le_bytes (take 2 (frame_data f)));
                 st = st\<lparr>event_value := to_int32 (int (le_bytes (take 4 (drop 2 (frame_data f)))))\<rparr>
             in (case frame2 of
                   None \<Rightarrow> Inr (- 1, st)
                 | Some g \<Rightarrow>
                     if frame_more g then Inl Assert_Failed
                     else Inr (event, st\<lparr>event_address := (if mem then Text (c_string (frame_data g)) else Null)\<rparr>))))"

text \<open>What is printed for an event: its kind, the peer of an accepted connection, the number of an error or of an
  unknown event, and the address.\<close>

record monitor_line =
  line_event :: zmq_event
  line_peer :: "(string \<times> int) option"
  line_number :: int
  line_address :: "string option"

definition handle_event ::
  "(int \<Rightarrow> zmq_event) \<Rightarrow> (int \<Rightarrow> (string \<times> int) option) \<Rightarrow> int \<Rightarrow> monitor \<Rightarrow> monitor_line c_result" where
  "handle_event classify getpeername event st =
     (let addr = (case event_address st of
                    Dangling \<Rightarrow> Inl Out_Of_Bounds
                  | Null \<Rightarrow> Inr ''(null)''
                  | Text t \<Rightarrow> Inr t)
      in (case classify event of
            Other_event \<Rightarrow>
              Inr \<lparr>line_event = Other_event, line_peer = None, line_number = to_uint32 event, line_address = None\<rparr>
          | kind \<Rightarrow>
              (case addr of
                 Inl f \<Rightarrow> Inl f
               | Inr a \<Rightarrow>
                   Inr \<lparr>line_event = kind,
                        line_peer = (if kind = Accepted \<and> event_value st \<noteq> - 1
                                     then getpeername (event_value st) else None),
                        line_number = (if kind = Handshake_failed_no_detail then event_value st else 0),
                        line_address = Some a\<rparr>)))"

text \<open>The two tasks watch one socket each through a pair of sockets; every step is asserted. The calls that are made, and
  whether all succeeded.\<close>

datatype monitor_call =
    Socket_monitor proxy_socket string
  | Pair_socket
  | Connect_monitor string

fun monitor_asserted :: "(monitor_call \<Rightarrow> bool) \<Rightarrow> monitor_call list \<Rightarrow> monitor_call list \<times> bool" where
  "monitor_asserted ok [] = ([], True)"
| "monitor_asserted ok (c # cs) =
     (if ok c then (let (done, all_ok) = monitor_asserted ok cs in (c # done, all_ok)) else ([c], False))"

definition monitor_backend_setup :: "(monitor_call \<Rightarrow> bool) \<Rightarrow> monitor_call list \<times> bool" where
  "monitor_backend_setup ok =
     monitor_asserted ok
       [Socket_monitor Backend ''inproc://monitor-pub'', Pair_socket, Connect_monitor ''inproc://monitor-pub'']"

definition monitor_frontend_setup :: "(monitor_call \<Rightarrow> bool) \<Rightarrow> monitor_call list \<times> bool" where
  "monitor_frontend_setup ok =
     monitor_asserted ok
       [Socket_monitor Frontend ''inproc://monitor-sub'', Pair_socket, Connect_monitor ''inproc://monitor-sub'']"

text \<open>A turn of the task. Freeing a pointer that does not point to memory in use is a fault, the null pointer is not.\<close>

definition monitor_turn ::
  "(int \<Rightarrow> zmq_event) \<Rightarrow> (int \<Rightarrow> (string \<times> int) option) \<Rightarrow> bool \<Rightarrow> zmq_frame option \<times> zmq_frame option \<Rightarrow> monitor
     \<Rightarrow> (monitor_line \<times> monitor) c_result"
where
  "monitor_turn classify getpeername mem frames st =
     (case get_monitor_event mem (fst frames) (snd frames) st of
        Inl f \<Rightarrow> Inl f
      | Inr (event, st) \<Rightarrow>
          (case handle_event classify getpeername event st of
             Inl f \<Rightarrow> Inl f
           | Inr line \<Rightarrow>
               (case event_address st of
                  Dangling \<Rightarrow> Inl Double_Free
                | Null \<Rightarrow> Inr (line, st)
                | Text t \<Rightarrow> Inr (line, st\<lparr>event_address := Dangling\<rparr>))))"

fun task_monitor ::
  "(int \<Rightarrow> zmq_event) \<Rightarrow> (int \<Rightarrow> (string \<times> int) option) \<Rightarrow> bool \<Rightarrow> (zmq_frame option \<times> zmq_frame option) list \<Rightarrow> monitor
     \<Rightarrow> monitor_line list c_result"
where
  "task_monitor classify getpeername mem [] st = Inr []"
| "task_monitor classify getpeername mem (fs # fss) st =
     (case monitor_turn classify getpeername mem fs st of
        Inl f \<Rightarrow> Inl f
      | Inr (line, st) \<Rightarrow>
          (case task_monitor classify getpeername mem fss st of Inl f \<Rightarrow> Inl f | Inr ls \<Rightarrow> Inr (line # ls)))"

section \<open>The bridge\<close>

text \<open>\<open>src/spacebridge.c\<close>: the options, then the calls of the protocol library. \<open>can_ok\<close> is whether the CAN interface can be
  had; the interface given to the bridge is \<open>None\<close> for a null pointer. Then it bridges for ever.\<close>

datatype bridge_call =
    Socketcan_init "string option"
  | Zmqhub_init "string option"
  | Bridge_set_interfaces string "string option"

fun bridge_options ::
  "getopt_event list \<Rightarrow> string option \<Rightarrow> string option \<Rightarrow> int + string option \<times> string option" where
  "bridge_options [] can_dev csp_zmqhub_addr = Inr (can_dev, csp_zmqhub_addr)"
| "bridge_options (Option opt optarg # opts) can_dev csp_zmqhub_addr =
     (if opt = CHR ''h'' then Inl 0
      else if opt = CHR ''c'' then bridge_options opts optarg csp_zmqhub_addr
      else if opt = CHR ''z'' then bridge_options opts can_dev optarg
      else Inl 1)"
| "bridge_options (Missing_argument opt # opts) can_dev csp_zmqhub_addr = Inl 1"
| "bridge_options (Unknown_option opt # opts) can_dev csp_zmqhub_addr = Inl 1"

definition bridge_main :: "bool \<Rightarrow> bool \<Rightarrow> string list \<Rightarrow> bridge_call list \<times> proxy_end" where
  "bridge_main posix can_ok argv =
     (case bridge_options (fst (getopt posix ''+hc:z:'' (tl argv))) (Some ''can0'') (Some ''localhost'') of
        Inl r \<Rightarrow> ([], Exits r)
      | Inr (can_dev, csp_zmqhub_addr) \<Rightarrow>
          ([Socketcan_init can_dev, Zmqhub_init csp_zmqhub_addr,
            Bridge_set_interfaces ''ZMQ'' (if can_ok then can_dev else None)],
           Serves))"

section \<open>Properties\<close>

text \<open>A key asked for once stays asked for, if the options that ask for one have their argument.\<close>

definition wants_key :: "proxy_conf \<Rightarrow> bool" where
  "wants_key conf \<longleftrightarrow> keyfile_name conf \<noteq> None \<or> keyarg conf \<noteq> None"

lemma set_option_key:
  assumes "set_option lossy c x conf = Inr conf'" "c \<in> {CHR ''a'', CHR ''k''} \<Longrightarrow> x \<noteq> None"
  shows "wants_key conf' \<longleftrightarrow> wants_key conf \<or> c \<in> {CHR ''a'', CHR ''k''}"
  using assms by (auto simp: set_option_def wants_key_def split: if_splits)

lemma set_options_key:
  assumes "set_options lossy opts conf = Inr conf'"
    and "\<And>c x. Option c x \<in> set opts \<Longrightarrow> c \<in> {CHR ''a'', CHR ''k''} \<Longrightarrow> x \<noteq> None"
  shows "wants_key conf' \<longleftrightarrow> wants_key conf \<or> (\<exists>c x. Option c x \<in> set opts \<and> c \<in> {CHR ''a'', CHR ''k''})"
  using assms
proof (induction opts arbitrary: conf)
  case (Cons o' opts)
  from Cons.prems(1) obtain c x where o': "o' = Option c x" by (cases o') auto
  with Cons.prems(1) obtain conf1 where 1: "set_option lossy c x conf = Inr conf1" "set_options lossy opts conf1 = Inr conf'"
    by (auto split: sum.splits)
  have "wants_key conf1 \<longleftrightarrow> wants_key conf \<or> c \<in> {CHR ''a'', CHR ''k''}"
    using set_option_key [OF 1(1)] Cons.prems(2) [of c x] o' by auto
  moreover have "wants_key conf' \<longleftrightarrow> wants_key conf1 \<or> (\<exists>c x. Option c x \<in> set opts \<and> c \<in> {CHR ''a'', CHR ''k''})"
    by (rule Cons.IH [OF 1(2)]) (use Cons.prems(2) in auto)
  ultimately show ?case using o' by auto
qed simp

lemma asserted_prefix: "\<exists>rest. cs = fst (asserted ok cs) @ rest \<and> (snd (asserted ok cs) \<longrightarrow> rest = [])"
  by (induction cs) (auto simp: split_beta)

lemma binds_after_keys:
  assumes "xs @ Bind s a # ys = key_calls k @ rest"
  shows "set (key_calls k) \<subseteq> set xs"
proof -
  consider us where "xs = key_calls k @ us" | us where "key_calls k = xs @ us" "us @ rest = Bind s a # ys" "us \<noteq> []"
    using assms by (fastforce simp: append_eq_append_conv2)
  then show ?thesis
  proof cases
    case (2 us)
    then have "Bind s a \<in> set (key_calls k)" by (cases us) auto
    then show ?thesis by (simp add: key_calls_def)
  qed auto
qed

lemma set_up_with_key:
  assumes "fst (asserted ok (key_calls k @ binds)) @ behind = xs @ Bind s a # ys" "\<And>s a. Bind s a \<notin> set behind"
  shows "set (key_calls k) \<subseteq> set xs"
proof -
  obtain rest where rest: "key_calls k @ binds = fst (asserted ok (key_calls k @ binds)) @ rest"
    using asserted_prefix by metis
  from assms(1) consider us where "fst (asserted ok (key_calls k @ binds)) = xs @ Bind s a # us"
    | us where "behind = us @ Bind s a # ys"
  proof -
    from assms(1) consider vs where "fst (asserted ok (key_calls k @ binds)) = xs @ vs" "vs @ behind = Bind s a # ys"
      | vs where "behind = vs @ Bind s a # ys"
      by (auto simp: append_eq_append_conv2)
    then show thesis using that by cases (auto simp: append_eq_Cons_conv)
  qed
  then show ?thesis
  proof cases
    case (1 us)
    with rest show ?thesis using binds_after_keys [of xs s a "us @ rest" k binds] by simp
  next
    case (2 us)
    then show ?thesis using assms(2) by auto
  qed
qed

text \<open>
  C14: Encryption that is asked for is never dropped silently in the normal build: if the command line has the option
  for a key or for a key file, then whatever the files hold and whichever call of the library fails, no socket is bound
  before it is a server for encrypted connections with a secret key.
\<close>

theorem proxy_key_before_bind:
  assumes "Option c x \<in> set (fst (getopt posix (shortopts False) (tl argv)))" "c \<in> {CHR ''a'', CHR ''k''}"
    and calls: "fst (proxy_main posix False contents ok argv) = xs @ Bind s addr # ys"
  shows "Curve_server s \<in> set xs \<and> (\<exists>key. Secret_key s key \<in> set xs)"
proof -
  let ?opts = "fst (getopt posix (shortopts False) (tl argv))"
  have arg: "takes_argument (getopt_spec posix (shortopts False)) c = Some True" if "c \<in> {CHR ''a'', CHR ''k''}" for c
    using that by (auto simp: takes_argument_def getopt_spec_def shortopts_def char_at_def Let_def)
  obtain conf where conf: "set_options False ?opts proxy_defaults = Inr conf"
    using calls by (cases "set_options False ?opts proxy_defaults") (simp_all add: proxy_main_def)
  have "wants_key conf"
    using set_options_key [OF conf] getopt_words_argument [OF _ arg] assms(1,2) unfolding getopt_def by metis
  moreover obtain k where "load_key contents conf = Inr k"
    using calls conf by (cases "load_key contents conf") (simp_all add: proxy_main_def)
  ultimately obtain key where key: "load_key contents conf = Inr (Some key)"
    by (auto simp: load_key_def wants_key_def split: option.splits if_splits)
  from calls conf key obtain behind where
    "fst (asserted ok (key_calls key @ [Bind Frontend (sub_str conf), Bind Backend (pub_str conf)])) @ behind
       = xs @ Bind s addr # ys" "\<And>s a. Bind s a \<notin> set behind"
    by (auto simp: proxy_main_def Let_def split_beta split: if_splits)
  from set_up_with_key [OF this] show ?thesis by (cases s) (auto simp: key_calls_def)
qed

theorem proxy_key_before_bind_witness:
  "Curve_server Backend \<in> set [Curve_server Frontend, Secret_key Frontend ''ab'', Curve_server Backend,
     Secret_key Backend ''ab'', Bind Frontend (Some ''tcp://0.0.0.0:6000'')] \<and>
   fst (proxy_main False False (\<lambda>f. None) (\<lambda>c. True) [''zmqproxy'', ''-kab'']) \<noteq> []"
proof -
  let ?xs = "[Curve_server Frontend, Secret_key Frontend ''ab'', Curve_server Backend, Secret_key Backend ''ab'',
    Bind Frontend (Some ''tcp://0.0.0.0:6000'')]"
  have run: "fst (proxy_main False False (\<lambda>f. None) (\<lambda>c. True) [''zmqproxy'', ''-kab'']) =
      ?xs @ Bind Backend (Some ''tcp://0.0.0.0:7000'') # [Proxy_loop]"
    by code_simp
  have opt: "Option (CHR ''k'') (Some ''ab'') \<in> set (fst (getopt False (shortopts False) (tl [''zmqproxy'', ''-kab''])))"
    by code_simp
  from proxy_key_before_bind [OF opt _ run] run show ?thesis by auto
qed

text \<open>
  The build that simulates a bad channel has no argument for the two options, so the same command line is accepted,
  the key file is a word that is passed over, and the sockets are bound without encryption.
\<close>

theorem lossy_build_ignores_key:
  assumes "char_at f 0 \<noteq> CHR ''-''" "opt = ''-a'' \<or> opt = ''-k''"
  shows "proxy_main False True contents (\<lambda>c. True) [''zmqproxy'', opt, f] =
    ([Bind Frontend (Some ''tcp://0.0.0.0:6000''), Bind Backend (Some ''tcp://0.0.0.0:7000''), Proxy_loop], Serves)"
proof -
  have "takes_argument (getopt_spec False (shortopts True)) (CHR ''a'') = Some False"
    "takes_argument (getopt_spec False (shortopts True)) (CHR ''k'') = Some False" "\<not> require_order (getopt_spec False (shortopts True))"
    by code_simp+
  moreover have "\<not> option_word f" "f \<noteq> ''--''" "option_word ''-a''" "option_word ''-k''"
    using assms(1) by (auto simp: option_word_def char_at_def)
  ultimately show ?thesis
    using assms(2) by (auto simp: proxy_main_def getopt_def set_option_def load_key_def proxy_defaults_def)
qed

theorem lossy_build_ignores_key_witness:
  "snd (proxy_main False True (\<lambda>f. None) (\<lambda>c. True) [''zmqproxy'', ''-a'', ''key.txt'']) = Serves \<and>
   snd (proxy_main False False (\<lambda>f. None) (\<lambda>c. True) [''zmqproxy'', ''-a'', ''key.txt'']) = Exits 1"
proof -
  have "snd (proxy_main False False (\<lambda>f. None) (\<lambda>c. True) [''zmqproxy'', ''-a'', ''key.txt'']) = Exits 1" by code_simp
  then show ?thesis using lossy_build_ignores_key [of "''key.txt''" "''-a''"] by (simp add: char_at_def)
qed

text \<open>Messages of a whole length are all logged, in order; a short one hides every message that waits behind it.\<close>

lemma capture_all:
  "list_all (\<lambda>m. 5 \<le> length m \<and> length m \<le> room) ms \<Longrightarrow> capture_burst room ms = Inr ms"
  by (induction ms) auto

lemma capture_short_hides:
  assumes "length m < 5" "[] \<notin> set ms"
  shows "capture_burst room (m # ms) = Inr []"
proof -
  have "dropWhile (\<lambda>m. m \<noteq> []) ms = []" using assms(2) by (auto simp: dropWhile_eq_Nil_conv)
  then have gone: "drop 1 (dropWhile (\<lambda>m. m \<noteq> []) ms) = []" by (simp only: drop_Nil)
  show ?thesis by (subst capture_burst.simps(2), subst gone) (simp add: assms(1))
qed

definition whole_event :: "zmq_frame option \<times> zmq_frame option \<Rightarrow> bool" where
  "whole_event fs \<longleftrightarrow>
     (case fs of
        (Some f, Some g) \<Rightarrow> frame_more f \<and> 6 \<le> length (frame_data f) \<and> \<not> frame_more g
      | _ \<Rightarrow> False)"

lemma handle_event_text:
  "event_address st = Text t \<Longrightarrow> \<exists>line. handle_event classify getpeername event st = Inr line"
  by (cases "classify event") (simp_all add: handle_event_def)

lemma monitor_turn_whole:
  assumes "whole_event fs"
  shows "\<exists>line st'. monitor_turn classify getpeername True fs st = Inr (line, st') \<and> event_address st' = Dangling"
proof -
  obtain f g where fs: "fs = (Some f, Some g)" "frame_more f" "6 \<le> length (frame_data f)" "\<not> frame_more g"
    using assms by (auto simp: whole_event_def split: prod.splits option.splits)
  then obtain event v where got: "get_monitor_event True (fst fs) (snd fs) st =
      Inr (event, st\<lparr>event_value := v, event_address := Text (c_string (frame_data g))\<rparr>)"
    by (simp add: get_monitor_event_def Let_def)
  obtain line where "handle_event classify getpeername event
      (st\<lparr>event_value := v, event_address := Text (c_string (frame_data g))\<rparr>) = Inr line"
    using handle_event_text [of _ "c_string (frame_data g)"] by fastforce
  with got show ?thesis by (simp add: monitor_turn_def)
qed

lemma task_monitor_whole:
  assumes "list_all whole_event fss"
  shows "\<exists>lines. length lines = length fss \<and> task_monitor classify getpeername True fss st = Inr lines"
    and "event_address st = Dangling \<or> fss \<noteq> [] \<Longrightarrow> classify (- 1) = Other_event \<Longrightarrow>
      task_monitor classify getpeername True (fss @ (None, g) # rest) st = Inl Double_Free"
  using assms
proof (induction fss arbitrary: st)
  case Nil
  {
    case 1
    show ?case by simp
  next
    case 2
    then show ?case by (simp add: monitor_turn_def get_monitor_event_def handle_event_def)
  }
next
  case (Cons fs fss)
  have whole: "whole_event fs" "list_all whole_event fss" if "list_all whole_event (fs # fss)"
    using that by simp_all
  {
    case 1
    then obtain line st' where turn: "monitor_turn classify getpeername True fs st = Inr (line, st')"
      using monitor_turn_whole whole(1) by blast
    obtain ls where "length ls = length fss" "task_monitor classify getpeername True fss st' = Inr ls"
      using Cons.IH(1) [OF whole(2) [OF 1]] by blast
    with turn show ?case by (auto intro: exI [of _ "line # ls"])
  next
    case 2
    then obtain line st' where turn: "monitor_turn classify getpeername True fs st = Inr (line, st')"
      "event_address st' = Dangling"
      using monitor_turn_whole whole(1) by blast
    with Cons.IH(2) [OF _ _ whole(2) [OF 2(3)]] 2 show ?case by simp
  }
qed

text \<open>
  Monitoring prints a line for every event that arrives whole. The first receive that is interrupted after an event
  ends the program: the address is not changed, and it is freed for a second time.
\<close>

theorem monitor_interrupted:
  assumes "list_all whole_event fss" "fss \<noteq> []" "classify (- 1) = Other_event"
  shows "(\<exists>lines. task_monitor classify getpeername True fss st = Inr lines \<and> length lines = length fss) \<and>
    task_monitor classify getpeername True (fss @ (None, g) # rest) st = Inl Double_Free"
  using task_monitor_whole [OF assms(1)] assms(2,3) by blast

theorem monitor_interrupted_witness:
  "task_monitor (\<lambda>e. if e = 32 then Accepted else Other_event) (\<lambda>fd. Some (''10.0.0.1'', 4000)) True
     [(Some \<lparr>frame_data = [CHR 0x20, NUL, CHR 0x07, NUL, NUL, NUL], frame_more = True\<rparr>,
       Some \<lparr>frame_data = ''tcp://0.0.0.0:7000'', frame_more = False\<rparr>), (None, None)]
     \<lparr>event_value = 0, event_address = Dangling\<rparr> = Inl Double_Free"
  using monitor_interrupted [of "[(Some \<lparr>frame_data = [CHR 0x20, NUL, CHR 0x07, NUL, NUL, NUL], frame_more = True\<rparr>,
       Some \<lparr>frame_data = ''tcp://0.0.0.0:7000'', frame_more = False\<rparr>)]"
      "\<lambda>e. if e = 32 then Accepted else Other_event" "\<lambda>fd. Some (''10.0.0.1'', 4000)"
      "\<lparr>event_value = 0, event_address = Dangling\<rparr>" None "[]"]
  by (simp add: whole_event_def)

text \<open>The bridge goes on without a CAN interface, and hands the null pointer over.\<close>

lemma bridge_without_can:
  "bridge_main posix False [''spacebridge'', ''-c'', dev] =
     ([Socketcan_init (Some dev), Zmqhub_init (Some ''localhost''), Bridge_set_interfaces ''ZMQ'' None], Serves)"
proof -
  have "takes_argument (getopt_spec posix ''+hc:z:'') (CHR ''c'') = Some True"
    by (simp add: takes_argument_def getopt_spec_def char_at_def)
  then show ?thesis by (simp add: bridge_main_def getopt_def option_word_def char_at_def)
qed

end
