(* ===== verification/Proxy_Lossy.thy ===== *)
theory Proxy_Lossy
  imports Zmqproxy "HOL-Library.Multiset"
begin

text \<open>
  The simulation of a bad channel in \<open>src/zmqproxy.c\<close>: packets lost, corrupted or delayed, and a node whose radio is half
  duplex. Two threads work on it, the loop over the sockets and the one that sends what was delayed; their steps are
  events, so that every interleaving is a list of events.
\<close>

section \<open>State\<close>

record delayed_msg =
  delayed_text :: string
  timestamp_tx :: int
  delayed_hdx :: bool

text \<open>The two times of the half-duplex node, the queue, what the delay thread has taken out of it, and what has been sent
  to each side.\<close>

record lossy_state =
  hdx_powerup_start_ms :: int
  hdx_last_tx_ms :: int
  delay_queue :: "delayed_msg list"
  delay_taken :: "delayed_msg option"
  to_backend :: "string list"
  to_frontend :: "string list"

definition lossy_start :: lossy_state where
  "lossy_start =
     \<lparr>hdx_powerup_start_ms = 0, hdx_last_tx_ms = 0, delay_queue = [], delay_taken = None, to_backend = [],
      to_frontend = []\<rparr>"

abbreviation DELAY_QUEUE_LEN :: nat where "DELAY_QUEUE_LEN \<equiv> 1024"

text \<open>A full queue refuses; nobody looks at the result.\<close>

definition csp_queue_enqueue :: "delayed_msg \<Rightarrow> delayed_msg list \<Rightarrow> delayed_msg list" where
  "csp_queue_enqueue d q = (if length q < DELAY_QUEUE_LEN then q @ [d] else q)"

text \<open>What the random numbers decide for a packet, and which bit a corruption hits.\<close>

record dice =
  dice_corrupt :: bool
  dice_byte :: nat
  dice_bit :: nat
  dice_keep :: bool
  dice_delay :: bool

section \<open>A packet from the frontend\<close>

definition corrupted :: "dice \<Rightarrow> string \<Rightarrow> string" where
  "corrupted d msg =
     (if dice_corrupt d \<and> msg \<noteq> []
      then (let i = dice_byte d mod length msg
            in msg[i := char_of (flip_bit (dice_bit d mod 8) (of_char (msg ! i) :: nat))])
      else msg)"

text \<open>The half-duplex node: \<open>strip\<close> is how the library reads source and destination of a frame, \<open>room\<close> the space of a
  packet. The clock has a value for each place that reads it; times are compared as unsigned 32-bit numbers.\<close>

datatype hdx_verdict = Hdx_delayed | Hdx_dropped | Hdx_passes

definition hdx_filter ::
  "proxy_conf \<Rightarrow> (string \<Rightarrow> int \<times> int) \<Rightarrow> nat \<Rightarrow> (nat \<Rightarrow> int) \<Rightarrow> string \<Rightarrow> lossy_state \<Rightarrow> (hdx_verdict \<times> lossy_state) c_result"
where
  "hdx_filter conf strip room clock msg st =
     (if hdx_node conf = 0 then Inr (Hdx_passes, st)
      else if length msg > room then Inl Out_Of_Bounds
      else
        (let (src, dst) = strip msg
         in if src = hdx_node conf \<and> clock 0 > to_uint32 (hdx_last_tx_ms st + hdx_powerdown_delay conf) then
              (let st = (if hdx_powerup_start_ms st = 0 then st\<lparr>hdx_powerup_start_ms := to_int32 (clock 1)\<rparr> else st);
                   dmsg = \<lparr>delayed_text = msg,
                           timestamp_tx = to_uint32 (hdx_powerup_start_ms st + hdx_powerup_delay conf),
                           delayed_hdx = True\<rparr>
               in Inr (Hdx_delayed, st\<lparr>delay_queue := csp_queue_enqueue dmsg (delay_queue st)\<rparr>))
            else
              (let st = (if src = hdx_node conf then st\<lparr>hdx_last_tx_ms := to_int32 (clock 2)\<rparr> else st)
               in if dst = hdx_node conf \<and> to_uint32 (hdx_last_tx_ms st + hdx_powerdown_delay conf) > clock 3
                  then Inr (Hdx_dropped, st)
                  else Inr (Hdx_passes, st))))"

definition frontend_packet ::
  "proxy_conf \<Rightarrow> (string \<Rightarrow> int \<times> int) \<Rightarrow> nat \<Rightarrow> (nat \<Rightarrow> int) \<Rightarrow> dice \<Rightarrow> string \<Rightarrow> lossy_state \<Rightarrow> lossy_state c_result"
where
  "frontend_packet conf strip room clock d msg st =
     (case hdx_filter conf strip room clock msg st of
        Inl f \<Rightarrow> Inl f
      | Inr (Hdx_delayed, st) \<Rightarrow> Inr st
      | Inr (Hdx_dropped, st) \<Rightarrow> Inr st
      | Inr (Hdx_passes, st) \<Rightarrow>
          (let msg = corrupted d msg
           in if \<not> dice_keep d then Inr st
              else if dice_delay d then
                (let dmsg = \<lparr>delayed_text = msg, timestamp_tx = to_uint32 (clock 4 + delay_ms conf), delayed_hdx = False\<rparr>
                 in Inr (st\<lparr>delay_queue := csp_queue_enqueue dmsg (delay_queue st)\<rparr>))
              else Inr (st\<lparr>to_backend := to_backend st @ [msg]\<rparr>)))"

text \<open>Subscriptions go the other way as they are.\<close>

definition backend_packet :: "string \<Rightarrow> lossy_state \<Rightarrow> lossy_state" where
  "backend_packet msg st = st\<lparr>to_frontend := to_frontend st @ [msg]\<rparr>"

section \<open>The delay thread\<close>

definition delay_take :: "lossy_state \<Rightarrow> lossy_state" where
  "delay_take st =
     (case delay_queue st of
        [] \<Rightarrow> st
      | d # q \<Rightarrow> st\<lparr>delay_queue := q, delay_taken := Some d\<rparr>)"

text \<open>Send what was taken or put it back; whether it was sent. The clock is read once more when the packet is the
  half-duplex node's.\<close>

definition delay_decide :: "int \<Rightarrow> int \<Rightarrow> lossy_state \<Rightarrow> bool \<times> lossy_state" where
  "delay_decide now sent_at st =
     (case delay_taken st of
        None \<Rightarrow> (False, st)
      | Some d \<Rightarrow>
          if now > timestamp_tx d then
            (let st = st\<lparr>to_backend := to_backend st @ [delayed_text d], delay_taken := None\<rparr>
             in (True, if delayed_hdx d then st\<lparr>hdx_last_tx_ms := to_int32 sent_at, hdx_powerup_start_ms := 0\<rparr> else st))
          else (False, st\<lparr>delay_queue := csp_queue_enqueue d (delay_queue st), delay_taken := None\<rparr>))"

text \<open>A round of the thread up to its pause, when nothing else happens: it looks at as many packets as there are in the
  queue, and starts over after it has sent one. \<open>n\<close> numbers the readings of the clock.\<close>

function delay_round :: "(nat \<Rightarrow> int) \<Rightarrow> nat \<Rightarrow> nat \<Rightarrow> lossy_state \<Rightarrow> lossy_state" where
  "delay_round clock n left st =
     (if left = 0 \<or> delay_queue st = [] then st
      else
        (let (sent, st) = delay_decide (clock n) (clock (n + 1)) (delay_take st)
         in if sent then delay_round clock (n + 2) (length (delay_queue st)) st
            else delay_round clock (n + 1) (left - 1) st))"
  by pat_completeness auto
termination
proof (relation "measures [\<lambda>(clock, n, left, st). length (delay_queue st), \<lambda>(clock, n, left, st). left]")
  fix clock :: "nat \<Rightarrow> int" and n left :: nat and st st' :: lossy_state and r :: "bool \<times> lossy_state" and sent :: bool
  assume "\<not> (left = 0 \<or> delay_queue st = [])" "r = delay_decide (clock n) (clock (n + 1)) (delay_take st)"
    "(sent, st') = r" "sent"
  then show "((clock, n + 2, length (delay_queue st'), st'), clock, n, left, st)
      \<in> measures [\<lambda>(clock, n, left, st). length (delay_queue st), \<lambda>(clock, n, left, st). left]"
    by (cases "delay_queue st") (auto simp: delay_decide_def delay_take_def Let_def split: if_splits)
next
  fix clock :: "nat \<Rightarrow> int" and n left :: nat and st st' :: lossy_state and r :: "bool \<times> lossy_state" and sent :: bool
  assume "\<not> (left = 0 \<or> delay_queue st = [])" "r = delay_decide (clock n) (clock (n + 1)) (delay_take st)"
    "(sent, st') = r" "\<not> sent"
  then show "((clock, n + 1, left - 1, st'), clock, n, left, st)
      \<in> measures [\<lambda>(clock, n, left, st). length (delay_queue st), \<lambda>(clock, n, left, st). left]"
    by (cases "delay_queue st")
      (auto simp: delay_decide_def delay_take_def csp_queue_enqueue_def Let_def split: if_splits)
qed simp

declare delay_round.simps [simp del]

section \<open>Both threads\<close>

datatype lossy_event =
    Front_packet "nat \<Rightarrow> int" dice string
  | Back_packet string
  | Delay_take
  | Delay_decide int int

definition lossy_step ::
  "proxy_conf \<Rightarrow> (string \<Rightarrow> int \<times> int) \<Rightarrow> nat \<Rightarrow> lossy_event \<Rightarrow> lossy_state \<Rightarrow> lossy_state c_result" where
  "lossy_step conf strip room e st =
     (case e of
        Front_packet clock d msg \<Rightarrow> frontend_packet conf strip room clock d msg st
      | Back_packet msg \<Rightarrow> Inr (backend_packet msg st)
      | Delay_take \<Rightarrow> Inr (if delay_taken st = None then delay_take st else st)
      | Delay_decide now sent_at \<Rightarrow> Inr (snd (delay_decide now sent_at st)))"

fun lossy_run ::
  "proxy_conf \<Rightarrow> (string \<Rightarrow> int \<times> int) \<Rightarrow> nat \<Rightarrow> lossy_event list \<Rightarrow> lossy_state \<Rightarrow> lossy_state c_result" where
  "lossy_run conf strip room [] st = Inr st"
| "lossy_run conf strip room (e # es) st =
     (case lossy_step conf strip room e st of
        Inl f \<Rightarrow> Inl f
      | Inr st \<Rightarrow> lossy_run conf strip room es st)"

section \<open>Properties\<close>

text \<open>Nothing is made up: what is held or sent came in.\<close>

definition held :: "lossy_state \<Rightarrow> string multiset" where
  "held st = mset (to_backend st) + mset (map delayed_text (delay_queue st)) +
     (case delay_taken st of None \<Rightarrow> {#} | Some d \<Rightarrow> {#delayed_text d#})"

fun front_packets :: "lossy_event list \<Rightarrow> string multiset" where
  "front_packets [] = {#}"
| "front_packets (Front_packet clock d msg # es) = {#msg#} + front_packets es"
| "front_packets (e # es) = front_packets es"

definition uncorrupted :: "lossy_event \<Rightarrow> bool" where
  "uncorrupted e \<longleftrightarrow> (case e of Front_packet clock d msg \<Rightarrow> \<not> dice_corrupt d | _ \<Rightarrow> True)"

lemma enqueue_held:
  "mset (map delayed_text (csp_queue_enqueue d q)) \<subseteq># {#delayed_text d#} + mset (map delayed_text q)"
  by (simp add: csp_queue_enqueue_def)

lemma hdx_filter_held:
  assumes "hdx_filter conf strip room clock msg st = Inr (v, st')"
  shows "delay_taken st' = delay_taken st \<and> to_backend st' = to_backend st \<and>
    (if v = Hdx_delayed then held st' \<subseteq># {#msg#} + held st else held st' = held st)"
  using assms
  by (auto simp: hdx_filter_def held_def Let_def csp_queue_enqueue_def split_beta split: if_splits)

lemma frontend_packet_held:
  assumes "frontend_packet conf strip room clock d msg st = Inr st'" "\<not> dice_corrupt d"
  shows "held st' \<subseteq># {#msg#} + held st"
proof -
  obtain v st1 where f: "hdx_filter conf strip room clock msg st = Inr (v, st1)"
    using assms(1) by (auto simp: frontend_packet_def split: sum.splits)
  note h = hdx_filter_held [OF f]
  have 1: "corrupted d msg = msg" using assms(2) by (simp add: corrupted_def)
  show ?thesis
  proof (cases v)
    case Hdx_passes
    have "held st' \<subseteq># {#msg#} + held st1"
      using assms(1) f Hdx_passes 1
      by (auto simp: frontend_packet_def Let_def held_def csp_queue_enqueue_def split: if_splits)
    then show ?thesis using h Hdx_passes by simp
  qed (use assms(1) f h in \<open>auto simp: frontend_packet_def intro: subset_mset.order_trans\<close>)
qed

lemma delay_take_held: "delay_taken st = None \<Longrightarrow> held (delay_take st) = held st"
  by (simp add: delay_take_def held_def split: list.split)

lemma delay_decide_held: "held (snd (delay_decide now sent_at st)) \<subseteq># held st"
  by (auto simp: delay_decide_def held_def Let_def csp_queue_enqueue_def split: option.splits)

lemma lossy_step_held:
  assumes "lossy_step conf strip room e st = Inr st'" "uncorrupted e"
  shows "held st' \<subseteq># front_packets [e] + held st"
proof (cases e)
  case (Front_packet clock d msg)
  then show ?thesis using assms frontend_packet_held by (auto simp: lossy_step_def uncorrupted_def)
next
  case (Back_packet msg)
  then show ?thesis using assms by (auto simp: lossy_step_def backend_packet_def held_def)
next
  case Delay_take
  then show ?thesis using assms delay_take_held by (auto simp: lossy_step_def)
next
  case (Delay_decide now sent_at)
  then show ?thesis using assms delay_decide_held by (auto simp: lossy_step_def)
qed

lemma lossy_run_held:
  "lossy_run conf strip room es st = Inr st' \<Longrightarrow> list_all uncorrupted es \<Longrightarrow> held st' \<subseteq># front_packets es + held st"
proof (induction es arbitrary: st)
  case (Cons e es)
  then obtain st1 where 1: "lossy_step conf strip room e st = Inr st1" "lossy_run conf strip room es st1 = Inr st'"
    by (auto split: sum.splits)
  have "held st' \<subseteq># front_packets es + held st1" using Cons.IH [OF 1(2)] Cons.prems(2) by simp
  also have "\<dots> \<subseteq># front_packets es + (front_packets [e] + held st)"
    using lossy_step_held [OF 1(1)] Cons.prems(2) by simp
  also have "\<dots> = front_packets (e # es) + held st" by (cases e) (simp_all add: ac_simps)
  finally show ?case .
qed simp

text \<open>
  C21: However the two threads are interleaved and whatever is lost, delayed or held back for the half-duplex node, no
  packet is sent twice and none is made up: without corruption the packets sent, together with those that wait, are
  among those that came in, counted with repetitions.
\<close>

theorem lossy_never_duplicates:
  assumes "lossy_run conf strip room es lossy_start = Inr st" "list_all uncorrupted es"
  shows "mset (to_backend st) + mset (map delayed_text (delay_queue st)) \<subseteq># front_packets es"
proof -
  have "held st \<subseteq># front_packets es"
    using lossy_run_held [OF assms] by (simp add: lossy_start_def held_def)
  then show ?thesis unfolding held_def by (rule subset_mset.order_trans [rotated]) simp
qed

theorem lossy_never_duplicates_witness:
  "mset (to_backend (lossy_start\<lparr>to_backend := [''ab'']\<rparr>)) \<subseteq># {#''ab''#}"
proof -
  let ?keep = "\<lparr>dice_corrupt = False, dice_byte = 0, dice_bit = 0, dice_keep = True, dice_delay = False\<rparr>"
  have "lossy_run proxy_defaults (\<lambda>f. (1, 2)) 300 [Front_packet (\<lambda>i. 7) ?keep ''ab'', Delay_take] lossy_start =
      Inr (lossy_start\<lparr>to_backend := [''ab'']\<rparr>)"
    by (simp add: lossy_step_def frontend_packet_def hdx_filter_def proxy_defaults_def corrupted_def lossy_start_def
        delay_take_def)
  from lossy_never_duplicates [OF this] show ?thesis by (simp add: uncorrupted_def lossy_start_def)
qed

lemma delay_round_due:
  assumes "left \<le> length (delay_queue st)" "length (delay_queue st) \<le> DELAY_QUEUE_LEN"
    and "list_all (\<lambda>d. \<not> timestamp_tx d < now) (drop left (delay_queue st))"
  shows "mset (delay_queue (delay_round (\<lambda>n. now) n left st)) =
      filter_mset (\<lambda>d. \<not> timestamp_tx d < now) (mset (delay_queue st)) \<and>
    mset (to_backend (delay_round (\<lambda>n. now) n left st)) = mset (to_backend st) +
      image_mset delayed_text (filter_mset (\<lambda>d. timestamp_tx d < now) (mset (delay_queue st)))"
  using assms
proof (induction "\<lambda>n :: nat. now" n left st rule: delay_round.induct)
  case (1 n left st)
  show ?case
  proof (cases "left = 0 \<or> delay_queue st = []")
    case True
    then have "list_all (\<lambda>d. \<not> timestamp_tx d < now) (delay_queue st)" using "1.prems"(3) by auto
    then have "filter (\<lambda>d. \<not> timestamp_tx d < now) (delay_queue st) = delay_queue st"
      "filter (\<lambda>d. timestamp_tx d < now) (delay_queue st) = []"
      by (auto simp: list_all_iff filter_id_conv filter_empty_conv)
    then have "filter_mset (\<lambda>d. \<not> timestamp_tx d < now) (mset (delay_queue st)) = mset (delay_queue st)"
      "filter_mset (\<lambda>d. timestamp_tx d < now) (mset (delay_queue st)) = {#}"
      by (metis mset_filter, metis mset_filter mset.simps(1))
    then show ?thesis using True by (subst (1 2) delay_round.simps) simp
  next
    case False
    then obtain d q where q: "delay_queue st = d # q" by (cases "delay_queue st") auto
    obtain l where l: "left = Suc l" using False by (cases left) auto
    obtain sent st' where step: "delay_decide now now (delay_take st) = (sent, st')" by fastforce
    note unfold = delay_round.simps [of "\<lambda>n. now" n left st]
    show ?thesis
    proof (cases "timestamp_tx d < now")
      case True
      then have st': "sent" "delay_queue st' = q" "to_backend st' = to_backend st @ [delayed_text d]"
        using step q by (auto simp: delay_decide_def delay_take_def Let_def split: if_splits)
      have "mset (delay_queue (delay_round (\<lambda>n. now) (n + 2) (length (delay_queue st')) st')) =
          filter_mset (\<lambda>d. \<not> timestamp_tx d < now) (mset (delay_queue st')) \<and>
        mset (to_backend (delay_round (\<lambda>n. now) (n + 2) (length (delay_queue st')) st')) = mset (to_backend st') +
          image_mset delayed_text (filter_mset (\<lambda>d. timestamp_tx d < now) (mset (delay_queue st')))"
        using "1.hyps"(1) [OF False step [symmetric]] st' q "1.prems"(2) by simp
      then show ?thesis using unfold False step st' q True by simp
    next
      case False': False
      then have st': "\<not> sent" "delay_queue st' = q @ [d]" "to_backend st' = to_backend st"
        using step q "1.prems"(2) by (auto simp: delay_decide_def delay_take_def csp_queue_enqueue_def)
      have "list_all (\<lambda>d. \<not> timestamp_tx d < now) (drop l (q @ [d]))"
        using "1.prems"(1,3) q l False' by simp
      then have "mset (delay_queue (delay_round (\<lambda>n. now) (n + 1) (left - 1) st')) =
          filter_mset (\<lambda>d. \<not> timestamp_tx d < now) (mset (delay_queue st')) \<and>
        mset (to_backend (delay_round (\<lambda>n. now) (n + 1) (left - 1) st')) = mset (to_backend st') +
          image_mset delayed_text (filter_mset (\<lambda>d. timestamp_tx d < now) (mset (delay_queue st')))"
        using "1.hyps"(2) [OF False step [symmetric]] st' q l "1.prems"(1,2) by simp
      then show ?thesis using unfold False step st' q False' by simp
    qed
  qed
qed

text \<open>
  C24: A round of the delay thread ends, and in a round in which the clock stands still it sends every packet that is
  due, each once, and keeps every other one: the queue never holds back a packet whose time has passed.
\<close>

theorem delay_round_flushes:
  assumes "length (delay_queue st) \<le> DELAY_QUEUE_LEN"
  shows "(let st' = delay_round (\<lambda>n. now) 0 (length (delay_queue st)) st in
     mset (delay_queue st') = filter_mset (\<lambda>d. \<not> timestamp_tx d < now) (mset (delay_queue st)) \<and>
     mset (to_backend st') = mset (to_backend st) +
       image_mset delayed_text (filter_mset (\<lambda>d. timestamp_tx d < now) (mset (delay_queue st))))"
  using delay_round_due [OF order_refl assms, of now 0] by (simp add: Let_def)

abbreviation delayed_pair :: "string \<Rightarrow> string \<Rightarrow> lossy_state" where
  "delayed_pair a b \<equiv> lossy_start\<lparr>delay_queue :=
     [\<lparr>delayed_text = a, timestamp_tx = 5, delayed_hdx = True\<rparr>, \<lparr>delayed_text = b, timestamp_tx = 5, delayed_hdx = True\<rparr>]\<rparr>"

theorem delay_round_flushes_witness:
  "mset (to_backend (delay_round (\<lambda>n. 6) 0 2 (delayed_pair ''a'' ''b''))) = {#''a'', ''b''#}"
  using delay_round_flushes [of "delayed_pair ''a'' ''b''" 6] by (simp add: Let_def lossy_start_def numeral_2_eq_2)

text \<open>The order is not kept: when the clock ticks between the two looks, the second of two packets that are due together
  overtakes the first.\<close>

lemma delayed_packets_overtake:
  "to_backend (delay_round (\<lambda>n. 5 + int n) 0 2 (delayed_pair a b)) = [b, a]"
  by (simp add: delay_round.simps delay_decide_def delay_take_def csp_queue_enqueue_def lossy_start_def Let_def)

text \<open>While the half-duplex node is taken to transmit it hears nothing.\<close>

lemma hdx_deaf_while_sending:
  assumes "hdx_node conf \<noteq> 0" "strip msg = (src, hdx_node conf)" "src \<noteq> hdx_node conf" "length msg \<le> room"
    and "clock 3 < to_uint32 (hdx_last_tx_ms st + hdx_powerdown_delay conf)"
  shows "frontend_packet conf strip room clock d msg st = Inr st"
  using assms by (simp add: frontend_packet_def hdx_filter_def)

end
