(* ===== verification/Manual.thy ===== *)
theory Manual
  imports Walkdir Known_Hosts Slash_Base
begin

text \<open>
  The manual command of \<open>src/slash_apm.c\<close>: the documents found in a folder, the command given to the system for one of
  them, and the completion of their names in the line, which is an array of bytes here because the completion writes
  into it without regard to its end.
\<close>

section \<open>Documents\<close>

definition is_pdf :: "string \<Rightarrow> bool" where
  "is_pdf b \<longleftrightarrow>
     (let len = length b
      in len > 4 \<and> b ! (len - 1) = CHR ''f'' \<and> b ! (len - 2) = CHR ''d'' \<and> b ! (len - 3) = CHR ''p'' \<and>
         b ! (len - 4) = CHR ''.'')"

record manual_entry =
  pdf :: string
  full_path :: string

text \<open>New entries go to the head of the list.\<close>

definition manual_cb :: "string \<Rightarrow> string \<Rightarrow> manual_entry list \<Rightarrow> manual_entry list" where
  "manual_cb a b manuals = (if is_pdf b then \<lparr>pdf = b, full_path = a\<rparr> # manuals else manuals)"

definition doc_found_cb :: "string \<Rightarrow> string \<Rightarrow> string list \<Rightarrow> string list" where
  "doc_found_cb a b printed = (if is_pdf b then printed @ [a] else printed)"

abbreviation doc_folder :: string where "doc_folder \<equiv> ''/usr/share/si-csh''"

text \<open>The walks over the folder and not below it. The flag for an interrupt is an uninitialised variable in the code, so
  it can have any value; it is a field of \<open>env\<close>.\<close>

definition all_manuals :: "manual_entry list walk_env \<Rightarrow> manual_entry list c_result" where
  "all_manuals env =
     walkdir (env\<lparr>path_size := 256, path_cap := 256, dir_cb := (\<lambda>a b s. False), file_cb := (\<lambda>a b s. Inr (manual_cb a b s))\<rparr>) 1 doc_folder []"

definition list_manuals :: "string list walk_env \<Rightarrow> string list c_result" where
  "list_manuals env =
     walkdir (env\<lparr>path_size := 256, path_cap := 256, dir_cb := (\<lambda>a b s. False), file_cb := (\<lambda>a b s. Inr (doc_found_cb a b s))\<rparr>) 1 doc_folder []"

section \<open>Opening a document\<close>

text \<open>The command for the system, with \<open>wsl\<close> for the shell inside Windows; no argument is a null pointer, which prints as
  a mark. The array has 256 bytes and the size given is one less.\<close>

definition manual_command :: "bool \<Rightarrow> string option \<Rightarrow> string" where
  "manual_command wsl arg =
     (let nm = (case arg of None \<Rightarrow> ''(null)'' | Some a \<Rightarrow> a)
      in take 254
           (if wsl then
              ''/mnt/c/Windows/System32/WindowsPowerShell/v1.0/powershell.exe Start '' @ CHR 0x22 # replicate 4 (CHR 0x5C) @
              ''wsl$'' @ [CHR 0x5C] @ ''Ubuntu'' @ [CHR 0x5C] @ ''usr'' @ [CHR 0x5C] @ ''share'' @ [CHR 0x5C] @ ''si-csh'' @
              [CHR 0x5C] @ nm @ [CHR 0x22]
            else ''xdg-open /usr/share/si-csh/'' @ nm @ '' >/dev/null 2>/dev/null''))"

text \<open>What is printed, and the command run if any. The result of the command is ignored.\<close>

definition doc_cmd ::
  "bool \<Rightarrow> string list walk_env \<Rightarrow> unit optparse \<Rightarrow> string list \<Rightarrow> (slash_ret \<times> string list \<times> string option) c_result" where
  "doc_cmd wsl env parser argv =
     (let (argi, opts) = optparse_parse parser () argv
      in if argi \<noteq> - 1 then
           (if argc argv = 0 then
              (case list_manuals env of Inl f \<Rightarrow> Inl f | Inr printed \<Rightarrow> Inr (SLASH_SUCCESS, printed, None))
            else Inr (SLASH_SUCCESS, [], Some (manual_command wsl (if argc argv > 1 then Some (nth_arg argv 1) else None))))
         else Inr (SLASH_SUCCESS, [], None))"

section \<open>Completion\<close>

text \<open>The matches, in the order in which they are entered into the second list, at its head.\<close>

definition completion_manuals :: "string \<Rightarrow> manual_entry list \<Rightarrow> manual_entry list" where
  "completion_manuals arg manuals =
     rev (filter (\<lambda>m. strncmp_eq arg (pdf m) (min (length arg) (length (pdf m)))) manuals)"

fun manual_prefix ::
  "(string \<Rightarrow> string \<Rightarrow> nat) \<Rightarrow> manual_entry option \<Rightarrow> manual_entry list \<Rightarrow> nat \<times> manual_entry option
     \<Rightarrow> nat \<times> manual_entry option" where
  "manual_prefix slash_prefix_length prev [] acc = acc"
| "manual_prefix slash_prefix_length prev (cur # rest) (prefix_len, completion) =
     manual_prefix slash_prefix_length (Some cur) rest
       (case prev of
          None \<Rightarrow> (prefix_len, completion)
        | Some p \<Rightarrow>
            (let cur_prefix = slash_prefix_length (pdf p) (pdf cur)
             in if cur_prefix < prefix_len then (cur_prefix, Some cur) else (prefix_len, completion)))"

text \<open>\<open>strncpy\<close> into the line: the text up to \<open>n\<close> bytes, and zeros up to \<open>n\<close>.\<close>

definition strncpy_at :: "char list \<Rightarrow> nat \<Rightarrow> string \<Rightarrow> nat \<Rightarrow> char list c_result" where
  "strncpy_at buf off s n = write_at buf off (take n s @ replicate (n - length s) NUL)"

text \<open>The line is an array of \<open>line_size\<close> bytes and \<open>arg\<close> the offset of the word in it. The result is the array, the
  length the shell notes and the names printed. The element that was entered last stands for the completion until the
  pass over the list has found a better one.\<close>

definition manual_cmd_completer ::
  "(string \<Rightarrow> string \<Rightarrow> nat) \<Rightarrow> manual_entry list \<Rightarrow> char list \<Rightarrow> nat \<Rightarrow> nat \<Rightarrow> nat \<Rightarrow> (char list \<times> nat \<times> string list) c_result"
where
  "manual_cmd_completer slash_prefix_length manuals buffer line_size len arg =
     (let word = drop arg (c_string buffer);
          ms = completion_manuals word manuals;
          (prefix_len, completion) =
            manual_prefix slash_prefix_length None ms (nat INT32_MAX, if ms = [] then None else Some (hd ms))
      in case ms of
           [] \<Rightarrow> Inr (buffer, len, [])
         | [m] \<Rightarrow>
             (case strncpy_at buffer (length (c_string buffer) - length word) (pdf m) line_size of
                Inl f \<Rightarrow> Inl f
              | Inr buffer \<Rightarrow> Inr (buffer, length (c_string buffer), []))
         | _ \<Rightarrow>
             (case completion of
                None \<Rightarrow> Inl Null_Deref
              | Some m \<Rightarrow>
                  (case strncpy_at buffer arg (pdf m) prefix_len of
                     Inl f \<Rightarrow> Inl f
                   | Inr buffer \<Rightarrow> Inr (buffer, length (c_string buffer), map pdf ms))))"

section \<open>Properties\<close>

text \<open>The name of the command counts as an argument, so the list of documents is never shown: without an argument the
  system is told to open the mark of a null pointer, whatever the documents are.\<close>

lemma manual_without_argument:
  "doc_cmd False env (\<lambda>opts args. (0, opts)) [cmd] =
     Inr (SLASH_SUCCESS, [], Some ''xdg-open /usr/share/si-csh/(null) >/dev/null 2>/dev/null'')"
  by (simp add: doc_cmd_def optparse_parse_def manual_command_def)

text \<open>An argument is handed to the system's shell as it is.\<close>

lemma manual_argument_unquoted:
  assumes "length arg < 200"
  shows "doc_cmd False env (\<lambda>opts args. (0, opts)) [cmd, arg] =
     Inr (SLASH_SUCCESS, [], Some (''xdg-open /usr/share/si-csh/'' @ arg @ '' >/dev/null 2>/dev/null''))"
  using assms by (simp add: doc_cmd_def optparse_parse_def manual_command_def nth_arg_def)

text \<open>A word that only one document starts with is completed by a copy that is padded with zeros to the size of the
  line, from the word on: it ends behind the line by as much as stands in front of the word.\<close>

lemma manual_unique_overflows:
  assumes "length buffer = line_size" "c_string buffer = pre @ word" "pre \<noteq> []"
    and "completion_manuals word manuals = [m]"
  shows "manual_cmd_completer spl manuals buffer line_size len (length pre) = Inl Out_Of_Bounds"
proof -
  have "length (take line_size (pdf m) @ replicate (line_size - length (pdf m)) NUL) = line_size" by simp
  then have "strncpy_at buffer (length pre) (pdf m) line_size = Inl Out_Of_Bounds"
    using assms(1,3) by (simp add: strncpy_at_def write_at_def)
  then show ?thesis using assms(2,4) by (simp add: manual_cmd_completer_def)
qed

text \<open>With several documents the common part is copied without a terminator, so that what the line held before can show
  behind it.\<close>

lemma manual_completion_shows_old_text:
  "manual_cmd_completer (\<lambda>a b. 3) [\<lparr>pdf = ''csh1.pdf'', full_path = []\<rparr>, \<lparr>pdf = ''csh-.pdf'', full_path = []\<rparr>]
     (''m c'' @ NUL # ''zzz'' @ replicate 9 NUL) 16 3 2 =
   Inr (''m cshzz'' @ replicate 9 NUL, 7, [''csh-.pdf'', ''csh1.pdf''])"
proof -
  let ?buf = "''m c'' @ NUL # ''zzz'' @ replicate 9 NUL"
  let ?a = "\<lparr>pdf = ''csh1.pdf'', full_path = []\<rparr>" and ?b = "\<lparr>pdf = ''csh-.pdf'', full_path = []\<rparr>"
  have word: "drop 2 (c_string ?buf) = ''c''" by code_simp
  have ms: "completion_manuals ''c'' [?a, ?b] = [?b, ?a]" by code_simp
  have copy: "strncpy_at ?buf 2 ''csh1.pdf'' 3 = Inr (''m cshzz'' @ replicate 9 NUL)" by code_simp
  have len: "length (c_string (''m cshzz'' @ replicate 9 NUL)) = 7" by code_simp
  show ?thesis
    unfolding manual_cmd_completer_def word ms Let_def using copy len by simp
qed

end
