(* ===== verification/Eth_Cmds.thy ===== *)
theory Eth_Cmds
  imports Slash_Base
begin

text \<open>
  The Ethernet commands of \<open>src/slash_eth.c\<close>: switching the debugging on and off, and the check of every interface with a
  raw socket. The system calls are a trace; which of them succeed is an argument.
\<close>

section \<open>Debugging\<close>

record eth_debug_state =
  eth_debug :: bool
  csp_dbg_packet_print :: int

definition eth_debug_toggle :: "eth_debug_state \<Rightarrow> slash_ret \<times> eth_debug_state" where
  "eth_debug_toggle st =
     (let st = st\<lparr>eth_debug := \<not> eth_debug st\<rparr>
      in (SLASH_SUCCESS, st\<lparr>csp_dbg_packet_print := (if eth_debug st then 2 else 0)\<rparr>))"

section \<open>Checking an interface\<close>

abbreviation IFNAMSIZ :: nat where "IFNAMSIZ \<equiv> 16"

datatype eth_call =
    Open_socket
  | Get_index string
  | Get_address string
  | Reuse_address
  | Bind_to_device string
  | Bind_socket
  | Close_socket

text \<open>The name goes into a structure of \<open>IFNAMSIZ\<close> bytes; the system gets it as it is for the binding, with a length of
  one less than that. The last binding is not checked.\<close>

definition eth_init_check :: "(eth_call \<Rightarrow> bool) \<Rightarrow> string \<Rightarrow> int \<times> eth_call list" where
  "eth_init_check ok device =
     (let ifr_name = take (IFNAMSIZ - 1) device; calls = [Open_socket]
      in if \<not> ok Open_socket then (- 1, calls)
         else let calls = calls @ [Get_index ifr_name]
         in if \<not> ok (Get_index ifr_name) then (- 2, calls)
         else let calls = calls @ [Get_address ifr_name]
         in if \<not> ok (Get_address ifr_name) then (- 3, calls)
         else let calls = calls @ [Reuse_address]
         in if \<not> ok Reuse_address then (- 4, calls @ [Close_socket])
         else let calls = calls @ [Bind_to_device device]
         in if \<not> ok (Bind_to_device device) then (- 5, calls @ [Close_socket])
         else (0, calls @ [Bind_socket, Close_socket]))"

text \<open>The addresses of the system: the name of the interface of each, and whether it has an address. The result is the
  number in the list, the name and the code of each check. Nothing is listed if the system refuses.\<close>

fun eth_addresses :: "(eth_call \<Rightarrow> bool) \<Rightarrow> nat \<Rightarrow> (string \<times> bool) list \<Rightarrow> (nat \<times> string \<times> int) list \<times> eth_call list" where
  "eth_addresses ok i [] = ([], [])"
| "eth_addresses ok i ((name, has_address) # rest) =
     (if has_address then
        (let (ret, calls) = eth_init_check ok name; (found, more_calls) = eth_addresses ok (i + 1) rest
         in ((i + 1, name, ret) # found, calls @ more_calls))
      else eth_addresses ok i rest)"

definition eth_list_interfaces ::
  "(eth_call \<Rightarrow> bool) \<Rightarrow> (string \<times> bool) list option \<Rightarrow> (nat \<times> string \<times> int) list \<times> eth_call list" where
  "eth_list_interfaces ok addresses =
     (case addresses of None \<Rightarrow> ([], []) | Some as \<Rightarrow> eth_addresses ok 0 as)"

definition eth_info ::
  "(eth_call \<Rightarrow> bool) \<Rightarrow> (string \<times> bool) list option \<Rightarrow> slash_ret \<times> (nat \<times> string \<times> int) list \<times> eth_call list" where
  "eth_info ok addresses = (SLASH_SUCCESS, eth_list_interfaces ok addresses)"

section \<open>Lemmas\<close>

text \<open>Two toggles restore the debugging, and the packets are printed exactly while it is on.\<close>

lemma eth_debug_toggle_twice:
  "eth_debug (snd (eth_debug_toggle (snd (eth_debug_toggle st)))) = eth_debug st \<and>
   csp_dbg_packet_print (snd (eth_debug_toggle st)) = (if eth_debug st then 0 else 2)"
  by (simp add: eth_debug_toggle_def Let_def)

text \<open>A socket that was opened is closed, but for the two errors that ask for index and address.\<close>

lemma eth_init_check_closes:
  assumes "ok Open_socket"
  shows "Close_socket \<in> set (snd (eth_init_check ok device)) \<longleftrightarrow> fst (eth_init_check ok device) \<notin> {- 2, - 3}"
  using assms by (auto simp: eth_init_check_def Let_def)

text \<open>Every address is reported once, in order, with numbers that start at 1.\<close>

lemma eth_addresses_numbers:
  "map fst (fst (eth_addresses ok i as)) = [i + 1..<i + 1 + length (filter snd as)] \<and>
   map (fst \<circ> snd) (fst (eth_addresses ok i as)) = map fst (filter snd as)"
proof (induction as arbitrary: i)
  case (Cons a as)
  have "[i + 1..<i + 1 + Suc n] = (i + 1) # [Suc i + 1..<Suc i + 1 + n]" for n by (simp add: upt_conv_Cons)
  then show ?case using Cons.IH [of "i + 1"] Cons.IH [of i] by (cases a) (simp add: split_beta del: upt_Suc)
qed simp

end
