(* ===== verification/Shell_Hooks.thy ===== *)
theory Shell_Hooks
  imports Python_Loader Loki "HOL-Library.Sublist"
begin

text \<open>
  The hooks around the execution of a line of \<open>src/slash_hooks.c\<close>: the line goes to the log, then the interpreter is prepared;
  after the command, what the interpreter has left behind is cleared.
\<close>

section \<open>The hooks\<close>






section \<open>Properties\<close>











end
