(* ===== verification/Metric_Threads.thy ===== *)
theory Metric_Threads
  imports Metrics
begin

text \<open>
  The two threads of the metric exporters: \<open>vm_push\<close> of \<open>src/victoria_metrics.c\<close> from the test of the connection to its
  clean-up, and \<open>prometheus_exporter\<close> of \<open>src/prometheus.c\<close>, one connection after the other. What the HTTP library and the
  sockets are asked to do is a trace, what they answer is an argument.
\<close>

section \<open>The push thread\<close>

datatype curl_call =
    Ssl_verify_off
  | Set_verbose
  | Set_write_callback
  | Set_login string string
  | Set_url string
  | Set_fields string
  | Set_headers string
  | Fail_on_error
  | Perform
  | Curl_cleanup
  | Free_headers

text \<open>Whether the library starts, and the code of the answer to the test, \<open>None\<close> if there is none.\<close>

record vm_net =
  curl_starts :: bool
  test_answer :: "int option"

definition vm_login :: "vm_args \<Rightarrow> curl_call list" where
  "vm_login args =
     (case vm_username args of
        None \<Rightarrow> []
      | Some u \<Rightarrow> (case vm_password args of None \<Rightarrow> [] | Some p \<Rightarrow> [Set_login u p]))"

definition vm_setup :: "vm_net \<Rightarrow> string \<Rightarrow> vm_args \<Rightarrow> bool \<Rightarrow> curl_call list \<times> bool" where
  "vm_setup net hostname args run =
     (if \<not> curl_starts net then ([], False)
      else
        (let calls = (if vm_skip_verify args \<noteq> 0 then [Ssl_verify_off] else []) @
               (if vm_verbose args \<noteq> 0 then [Set_verbose] else [Set_write_callback]) @
               vm_login args @ [Set_url (vm_test_url args), Set_fields ''query=test42'', Perform];
             run = (case test_answer net of None \<Rightarrow> False | Some response_code \<Rightarrow>
                          if response_code \<noteq> 200 then False else run)
         in (calls @ [Set_url (vm_push_url hostname args), Set_headers ''Content-Type: text/plain''], run)))"

text \<open>
  What comes between the turns of the loop, or is one. All threads of the shell share the flag \<open>vm_running\<close>: \<open>vm stop\<close>
  clears it, \<open>vm start\<close> sets it after it has created the thread, at any time from then on. A turn that finds the flag
  cleared leaves the loop for good. Without a handle of the library a push does nothing and fails.
\<close>

datatype loop_event = Line_added string | Flag_cleared | Flag_set | Loop_turn push_outcome

record vm_loop_state =
  loop_flag :: bool
  loop_left :: bool
  loop_buffer :: string
  loop_calls :: "curl_call list"

fun vm_loop_step :: "vm_net \<Rightarrow> vm_loop_state \<Rightarrow> loop_event \<Rightarrow> vm_loop_state" where
  "vm_loop_step net st (Line_added line) = st\<lparr>loop_buffer := vm_add (loop_buffer st) line\<rparr>"
| "vm_loop_step net st Flag_cleared = st\<lparr>loop_flag := False\<rparr>"
| "vm_loop_step net st Flag_set = st\<lparr>loop_flag := True\<rparr>"
| "vm_loop_step net st (Loop_turn outcome) =
     (if loop_left st then st
      else if \<not> loop_flag st then st\<lparr>loop_left := True\<rparr>
      else if loop_buffer st = [] then st
      else st\<lparr>loop_buffer := fst (vm_push_turn (if curl_starts net then outcome else Push_failed 0) (loop_buffer st)),
              loop_calls := loop_calls st @ [Set_fields (loop_buffer st), Fail_on_error, Perform]\<rparr>)"

definition vm_free_args :: "vm_args \<Rightarrow> vm_args" where
  "vm_free_args args = args\<lparr>vm_username := None, vm_password := None, vm_server_ip := None, vm_api_root := None\<rparr>"

text \<open>The thread from its start until it has ended, or until the events are used up while it is in the loop; \<open>run\<close> is the
  flag when the test ends.\<close>

definition vm_push ::
  "vm_net \<Rightarrow> string \<Rightarrow> vm_args \<Rightarrow> bool \<Rightarrow> string \<Rightarrow> loop_event list \<Rightarrow> vm_loop_state \<times> vm_args" where
  "vm_push net hostname args run buffer events =
     (let (calls, run) = vm_setup net hostname args run;
          st = foldl (vm_loop_step net)
            \<lparr>loop_flag = run, loop_left = False, loop_buffer = buffer, loop_calls = calls\<rparr> events
      in if \<not> loop_left st then (st, args)
         else (st\<lparr>loop_calls := loop_calls st @ (if curl_starts net then [Curl_cleanup, Free_headers] else [])\<rparr>,
               vm_free_args args))"

section \<open>Starting again\<close>

text \<open>All threads share the flag: \<open>vm stop\<close> only clears it, a thread looks at it once a second. The threads in the order
  of their creation, and what they do.\<close>

record vm_system =
  flag :: bool
  threads :: "pusher list"

inductive vm_system_step :: "vm_system \<Rightarrow> vm_system \<Rightarrow> bool" where
  start: "\<not> flag st \<Longrightarrow> vm_system_step st (st\<lparr>flag := True, threads := threads st @ [Testing]\<rparr>)"
| stop: "flag st \<Longrightarrow> vm_system_step st (st\<lparr>flag := False\<rparr>)"
| tested: "i < length (threads st) \<Longrightarrow> threads st ! i = Testing \<Longrightarrow>
    vm_system_step st (st\<lparr>flag := flag st \<and> ok, threads := (threads st)[i := Looping]\<rparr>)"
| left: "i < length (threads st) \<Longrightarrow> threads st ! i = Looping \<Longrightarrow> \<not> flag st \<Longrightarrow>
    vm_system_step st (st\<lparr>threads := (threads st)[i := Ended]\<rparr>)"

section \<open>The scrape\<close>

text \<open>What is handed to \<open>send\<close>, and how many bytes of it reach the client; nothing looks at the result.\<close>

datatype conn_call = Conn_send string nat | Conn_shutdown | Conn_close

abbreviation prometheus_header :: string where
  "prometheus_header \<equiv>
     ''HTTP/1.1 200 OK;'' @ [CR, NL] @ ''Content-Type: text/plain;'' @ [CR, NL, CR, NL]"

text \<open>One connection: what was received, at most 1024 bytes, \<open>None\<close> if receiving failed, and what the two sends manage.
  The array for the request is not initialised; \<open>stale\<close> is what stands in it.\<close>

record connection =
  received :: "string option"
  header_sent :: nat
  body_sent :: nat

definition prometheus_exporter :: "string \<Rightarrow> connection \<Rightarrow> string \<Rightarrow> conn_call list \<times> string" where
  "prometheus_exporter stale conn prometheus_buf =
     (if received conn = Some [] then ([Conn_close], prometheus_buf)
      else
        (let text = (case received conn of None \<Rightarrow> stale | Some r \<Rightarrow> r @ drop (length r) stale)
         in if \<not> strncmp_eq text ''GET /metrics'' 12 then ([Conn_close], prometheus_buf)
            else ([Conn_send prometheus_header (header_sent conn),
                   Conn_send (prometheus_dump prometheus_buf) (body_sent conn), Conn_shutdown, Conn_close],
                  prometheus_clear prometheus_buf)))"

section \<open>Properties\<close>

lemma vm_loop_stays_stopped:
  "\<not> loop_flag st \<Longrightarrow> Flag_set \<notin> set events \<Longrightarrow>
   loop_calls (foldl (vm_loop_step net) st events) = loop_calls st"
proof (induction events arbitrary: st)
  case (Cons e events)
  then have "\<not> loop_flag (vm_loop_step net st e)" "loop_calls (vm_loop_step net st e) = loop_calls st"
    by (cases e; simp)+
  then show ?case using Cons by simp
qed simp

text \<open>The bodies of the pushes in a trace of the loop.\<close>

fun pushes :: "string list \<Rightarrow> curl_call list" where
  "pushes [] = []"
| "pushes (b # bs) = Set_fields b # Fail_on_error # Perform # pushes bs"

lemma pushes_append [simp]: "pushes (bs @ cs) = pushes bs @ pushes cs"
  by (induction bs rule: pushes.induct) simp_all

lemma vm_loop_pushes:
  "\<exists>bs. loop_calls (foldl (vm_loop_step net) st events) = loop_calls st @ pushes bs \<and> [] \<notin> set bs"
proof (induction events arbitrary: st)
  case Nil
  then show ?case by (simp add: exI [of _ "[]"])
next
  case (Cons e events)
  obtain bs where bs: "loop_calls (vm_loop_step net st e) = loop_calls st @ pushes bs" "[] \<notin> set bs"
  proof (cases "\<exists>out. e = Loop_turn out \<and> loop_flag st \<and> \<not> loop_left st \<and> loop_buffer st \<noteq> []")
    case True
    then show ?thesis using that [of "[loop_buffer st]"] by auto
  next
    case False
    then show ?thesis using that [of "[]"] by (cases e) auto
  qed
  obtain cs where "loop_calls (foldl (vm_loop_step net) (vm_loop_step net st e) events) = loop_calls (vm_loop_step net st e) @ pushes cs"
    "[] \<notin> set cs"
    using Cons.IH by blast
  with bs show ?case by (auto intro!: exI [of _ "bs @ cs"])
qed

text \<open>
  C27: A push, which is never empty and goes to the address for pushes, is made only after the server has answered the
  test with 200 while the flag was set, or after \<open>vm start\<close> has set the flag behind the end of the test: then a thread
  whose test failed pushes all the same, which is the race of the two. A thread that ends has freed what it was given,
  the login included; one that has not ended has freed nothing.
\<close>

theorem vm_push_only_after_test:
  assumes "vm_push net hostname args run buffer events = (st, args')"
  shows "\<exists>prep bs fin. loop_calls st = prep @ pushes bs @ fin \<and> [] \<notin> set bs \<and>
    (bs \<noteq> [] \<longrightarrow> run \<and> curl_starts net \<and> test_answer net = Some 200 \<or> Flag_set \<in> set events) \<and>
    (if curl_starts net
     then \<exists>pre. prep = pre @ [Set_url (vm_push_url hostname args), Set_headers ''Content-Type: text/plain'']
     else prep = []) \<and>
    (if \<not> loop_left st then fin = [] \<and> args' = args
     else fin = (if curl_starts net then [Curl_cleanup, Free_headers] else []) \<and> args' = vm_free_args args)"
proof -
  obtain prep run' where s: "vm_setup net hostname args run = (prep, run')" by fastforce
  let ?st = "\<lparr>loop_flag = run', loop_left = False, loop_buffer = buffer, loop_calls = prep\<rparr>"
  let ?final = "foldl (vm_loop_step net) ?st events"
  obtain bs where bs: "loop_calls ?final = prep @ pushes bs" "[] \<notin> set bs"
    using vm_loop_pushes [of net ?st events] by auto
  have none: "bs = []" if "\<not> run'" "Flag_set \<notin> set events"
    using vm_loop_stays_stopped [of ?st events net] that bs by (cases bs) auto
  have ok: "run \<and> curl_starts net \<and> test_answer net = Some 200" if run'
    using s that by (auto simp: vm_setup_def Let_def split: if_splits option.splits)
  have prep: "if curl_starts net
      then \<exists>pre. prep = pre @ [Set_url (vm_push_url hostname args), Set_headers ''Content-Type: text/plain'']
      else prep = []"
    using s by (auto simp: vm_setup_def Let_def)
  let ?fin = "if \<not> loop_left ?final \<or> \<not> curl_starts net then [] else [Curl_cleanup, Free_headers]"
  have "loop_calls st = prep @ pushes bs @ ?fin \<and> loop_left st = loop_left ?final \<and>
      args' = (if loop_left st then vm_free_args args else args)"
    using assms bs(1) by (auto simp: vm_push_def s Let_def split: if_splits)
  moreover have "bs \<noteq> [] \<longrightarrow> run \<and> curl_starts net \<and> test_answer net = Some 200 \<or> Flag_set \<in> set events"
    using none ok by blast
  ultimately show ?thesis using bs(2) prep
    by (intro exI [of _ prep] exI [of _ bs] exI [of _ ?fin]) simp
qed

definition demo_vm_args :: vm_args where
  "demo_vm_args = \<lparr>vm_use_ssl = 0, vm_port = 8428, vm_skip_verify = 0, vm_verbose = 1, vm_api_root = Some ''http://h/'',
     vm_username = Some ''u'', vm_password = Some ''p'', vm_server_ip = None\<rparr>"

abbreviation "demo_vm_events \<equiv>
  [Line_added ''a 1'', Loop_turn (Push_failed 0), Line_added ''b 2'', Loop_turn Push_ok, Flag_cleared, Loop_turn Push_ok]"

lemma demo_vm_push:
  "vm_push \<lparr>curl_starts = True, test_answer = Some 200\<rparr> ''sat'' demo_vm_args True [] demo_vm_events =
    (\<lparr>loop_flag = False, loop_left = True, loop_buffer = [],
      loop_calls = [Set_verbose, Set_login ''u'' ''p'', Set_url ''http://h/prometheus/api/v1/query'',
        Set_fields ''query=test42'', Perform, Set_url ''http://h/api/v1/import/prometheus?extra_label=instance=sat'',
        Set_headers ''Content-Type: text/plain'', Set_fields ''a 1'', Fail_on_error, Perform,
        Set_fields ''a 1b 2'', Fail_on_error, Perform, Curl_cleanup, Free_headers]\<rparr>, vm_free_args demo_vm_args)"
proof -
  have "vm_add [] ''a 1'' = ''a 1''" "vm_add ''a 1'' ''b 2'' = ''a 1b 2''"
    by (simp_all add: vm_add_def Let_def)
  then show ?thesis
    by (simp add: vm_push_def vm_setup_def demo_vm_args_def vm_login_def vm_test_url_def vm_push_url_def vm_url_def
        vm_push_turn_def vm_free_args_def)
qed

theorem vm_push_only_after_test_witness:
  "\<exists>prep bs. loop_calls (fst (vm_push \<lparr>curl_starts = True, test_answer = Some 200\<rparr> ''sat'' demo_vm_args True []
      demo_vm_events)) = prep @ pushes bs @ [Curl_cleanup, Free_headers]"
proof -
  obtain st args' where run: "vm_push \<lparr>curl_starts = True, test_answer = Some 200\<rparr> ''sat'' demo_vm_args True []
      demo_vm_events = (st, args')" by fastforce
  then have "loop_left st" by (auto simp: demo_vm_push)
  then show ?thesis using vm_push_only_after_test [OF run] unfolding run by auto
qed

text \<open>The race: the server refuses the test, the flag is set afterwards, and the lines are pushed.\<close>

lemma vm_push_after_failed_test:
  "Set_fields ''a 1'' \<in> set (loop_calls (fst (vm_push \<lparr>curl_starts = True, test_answer = Some 401\<rparr> hostname args False ''a 1''
     [Flag_set, Loop_turn Push_ok])))"
  by (simp add: vm_push_def vm_setup_def vm_push_turn_def Let_def)

text \<open>
  Stopping and starting the client again within the second for which the thread sleeps leaves the old thread running
  beside the new one, any number of times; all of them push from the same buffer.
\<close>

theorem vm_restart_adds_threads:
  "vm_system_step\<^sup>*\<^sup>* \<lparr>flag = False, threads = []\<rparr> \<lparr>flag = True, threads = replicate (Suc n) Looping\<rparr>"
proof (induction n)
  case 0
  have "vm_system_step \<lparr>flag = False, threads = []\<rparr> \<lparr>flag = True, threads = [Testing]\<rparr>"
    using vm_system_step.start [of "\<lparr>flag = False, threads = []\<rparr>"] by simp
  moreover have "vm_system_step \<lparr>flag = True, threads = [Testing]\<rparr> \<lparr>flag = True, threads = [Looping]\<rparr>"
    using vm_system_step.tested [of 0 "\<lparr>flag = True, threads = [Testing]\<rparr>" True] by simp
  ultimately show ?case by simp
next
  case (Suc n)
  let ?old = "replicate (Suc n) Looping"
  have "vm_system_step \<lparr>flag = True, threads = ?old\<rparr> \<lparr>flag = False, threads = ?old\<rparr>"
    using vm_system_step.stop [of "\<lparr>flag = True, threads = ?old\<rparr>"] by simp
  moreover have "vm_system_step \<lparr>flag = False, threads = ?old\<rparr> \<lparr>flag = True, threads = ?old @ [Testing]\<rparr>"
    using vm_system_step.start [of "\<lparr>flag = False, threads = ?old\<rparr>"] by simp
  moreover have "vm_system_step \<lparr>flag = True, threads = ?old @ [Testing]\<rparr> \<lparr>flag = True, threads = ?old @ [Looping]\<rparr>"
    using vm_system_step.tested [of "Suc n" "\<lparr>flag = True, threads = ?old @ [Testing]\<rparr>" True]
    by (simp add: nth_append list_update_append del: replicate.simps)
  moreover have "?old @ [Looping] = replicate (Suc (Suc n)) Looping"
    by (simp add: replicate_append_same)
  ultimately show ?case using Suc by (metis (no_types, lifting) rtranclp.rtrancl_into_rtrancl)
qed

text \<open>Scrapes one after the other, with lines between them; the calls of each connection are kept apart.\<close>

datatype scrape_event = Scrape_line string | Scrape string connection

fun scrape_step :: "string \<times> conn_call list list \<Rightarrow> scrape_event \<Rightarrow> string \<times> conn_call list list" where
  "scrape_step (buf, conns) (Scrape_line line) = (prometheus_add buf line, conns)"
| "scrape_step (buf, conns) (Scrape stale conn) =
     (let (calls, buf) = prometheus_exporter stale conn buf in (buf, conns @ [calls]))"

text \<open>The metrics handed to the second \<open>send\<close> of a connection, and what the client gets of them.\<close>

definition conn_body :: "conn_call list \<Rightarrow> string" where
  "conn_body calls = (case calls of Conn_send header h # Conn_send body n # cs \<Rightarrow> body | _ \<Rightarrow> [])"

definition conn_got :: "conn_call list \<Rightarrow> string" where
  "conn_got calls = (case calls of Conn_send header h # Conn_send body n # cs \<Rightarrow> take n body | _ \<Rightarrow> [])"

fun scrape_accepted :: "string \<times> conn_call list list \<Rightarrow> scrape_event list \<Rightarrow> string" where
  "scrape_accepted st [] = []"
| "scrape_accepted st (e # es) =
     (case e of
        Scrape_line l \<Rightarrow> (if length (fst st) + length l < BUFFER_SIZE then l else [])
      | Scrape stale conn \<Rightarrow> []) @ scrape_accepted (scrape_step st e) es"

text \<open>A connection for which \<open>send\<close> delivers as much as a full buffer.\<close>

fun sends_whole :: "scrape_event \<Rightarrow> bool" where
  "sends_whole (Scrape_line line) = True"
| "sends_whole (Scrape stale conn) = (BUFFER_SIZE \<le> body_sent conn)"

lemma exporter_conserves:
  assumes "prometheus_exporter stale conn buf = (calls, buf')" "length buf < BUFFER_SIZE"
  shows "conn_body calls @ buf' = buf" "prefix (conn_got calls) (conn_body calls)" "length buf' < BUFFER_SIZE"
    "BUFFER_SIZE \<le> body_sent conn \<Longrightarrow> conn_got calls = conn_body calls"
  using assms
  by (auto simp: prometheus_exporter_def conn_body_def conn_got_def prometheus_dump_def prometheus_clear_def take_is_prefix
      Let_def split: if_splits)

lemma scrapes_conserve:
  assumes "length buf < BUFFER_SIZE" "list_all2 prefix (map conn_got conns) (map conn_body conns)"
  shows "case foldl scrape_step (buf, conns) es of (buf', conns') \<Rightarrow>
     concat (map conn_body conns') @ buf' = concat (map conn_body conns) @ buf @ scrape_accepted (buf, conns) es \<and>
     length buf' < BUFFER_SIZE \<and> list_all2 prefix (map conn_got conns') (map conn_body conns') \<and>
     (list_all sends_whole es \<longrightarrow> map conn_got conns = map conn_body conns \<longrightarrow>
        map conn_got conns' = map conn_body conns')"
  using assms
proof (induction es arbitrary: buf conns)
  case (Cons e es)
  show ?case
  proof (cases e)
    case (Scrape_line l)
    note IH = Cons.IH [OF prom_sink.add_bounded [OF Cons.prems(1), of l] Cons.prems(2)]
    have line: "prometheus_add buf l = buf @ (if length buf + length l < BUFFER_SIZE then l else [])"
      by (simp add: prometheus_add_def)
    show ?thesis using IH [unfolded split_beta] unfolding Scrape_line split_beta by (simp add: line)
  next
    case (Scrape stale conn)
    obtain calls buf' where e: "prometheus_exporter stale conn buf = (calls, buf')" by fastforce
    note k = exporter_conserves [OF e Cons.prems(1)]
    have "list_all2 prefix (map conn_got (conns @ [calls])) (map conn_body (conns @ [calls]))"
      using Cons.prems(2) k(2) by (simp add: list_all2_appendI)
    note IH = Cons.IH [OF k(3) this]
    have k1: "conn_body calls @ buf' @ r = buf @ r" for r using k(1) by (metis append.assoc)
    have step: "scrape_step (buf, conns) e = (buf', conns @ [calls])" by (simp add: Scrape e)
    obtain buf'' conns'' where run: "foldl scrape_step (buf', conns @ [calls]) es = (buf'', conns'')" by fastforce
    have acc: "scrape_accepted (buf, conns) (e # es) = scrape_accepted (buf', conns @ [calls]) es"
      using step by (simp add: Scrape)
    have whole: "list_all sends_whole (e # es) \<longleftrightarrow> BUFFER_SIZE \<le> body_sent conn \<and> list_all sends_whole es"
      by (simp add: Scrape)
    have all: "foldl scrape_step (buf, conns) (e # es) = (buf'', conns'')" using step run by simp
    have "map conn_got conns'' = map conn_body conns''"
      if "list_all sends_whole (e # es)" "map conn_got conns = map conn_body conns"
      using IH run that k(4) whole by (simp add: list_all_def del: map_eq_conv)
    then show ?thesis using IH unfolding all acc run prod.case by (simp add: k1 del: map_eq_conv)
  qed
qed simp

text \<open>
  C36: As long as no line is added during one, scrapes take every line once: what was handed to the clients' connections,
  followed by what is in the buffer, is exactly the lines that found room, in their order, whatever else connects. Each
  client gets a beginning of what was handed over for it; what \<open>send\<close> does not deliver is lost, since its result is
  ignored and the buffer cleared. If it always delivers the whole, the clients have got all of it.
\<close>

theorem scrapes_exactly_once:
  "case foldl scrape_step ([], []) es of (buf, conns) \<Rightarrow>
     concat (map conn_body conns) @ buf = scrape_accepted ([], []) es \<and> length buf < BUFFER_SIZE \<and>
     list_all2 prefix (map conn_got conns) (map conn_body conns) \<and>
     (list_all sends_whole es \<longrightarrow> concat (map conn_got conns) @ buf = scrape_accepted ([], []) es)"
proof -
  obtain buf conns where "foldl scrape_step ([], []) es = (buf, conns)" by fastforce
  moreover from this scrapes_conserve [of "[]" "[]" es]
  have "list_all sends_whole es \<longrightarrow> concat (map conn_got conns) = concat (map conn_body conns)" by (simp del: map_eq_conv)
  ultimately show ?thesis using scrapes_conserve [of "[]" "[]" es] by (simp del: map_eq_conv)
qed

text \<open>One line, and a scrape that gets all of it.\<close>

theorem scrapes_exactly_once_witness:
  "case foldl scrape_step ([], [])
      [Scrape_line ''a'', Scrape [] \<lparr>received = Some ''GET /metrics HTTP/1.1'', header_sent = 50, body_sent = BUFFER_SIZE\<rparr>]
   of (buf, conns) \<Rightarrow> concat (map conn_got conns) @ buf = ''a''"
  using scrapes_exactly_once [of "[Scrape_line ''a'',
    Scrape [] \<lparr>received = Some ''GET /metrics HTTP/1.1'', header_sent = 50, body_sent = BUFFER_SIZE\<rparr>]"]
  by (simp add: split_beta)

text \<open>A client that gets none of what was sent takes the metrics away.\<close>

lemma scrape_short_send_loses:
  "received conn = Some ''GET /metrics HTTP/1.1'' \<Longrightarrow> body_sent conn = 0 \<Longrightarrow>
   conn_got (fst (prometheus_exporter [] conn buf)) @ snd (prometheus_exporter [] conn buf) = []"
  by (simp add: prometheus_exporter_def strncmp_eq_def conn_got_def prometheus_clear_def)

lemma prefix_iff_take: "prefix p r \<longleftrightarrow> take (length p) r = p"
  by (metis append_eq_conv_conj prefix_def)

text \<open>
  A request of twelve bytes or more is answered exactly if it starts as a request for the metrics does. A shorter one, or
  none at all, is judged by what the request before it has left in the array: after a scrape it takes the metrics away.
\<close>

theorem scrape_request_decides:
  "(length r \<ge> 12 \<longrightarrow> conn_body (fst (prometheus_exporter stale (conn\<lparr>received := Some r\<rparr>) buf)) =
      (if prefix ''GET /metrics'' r then buf else [])) \<and>
   (prefix ''GET /metrics'' stale \<and> r \<noteq> [] \<and> prefix r ''GET /metrics'' \<longrightarrow>
      snd (prometheus_exporter stale (conn\<lparr>received := Some r\<rparr>) buf) = [] \<and>
      snd (prometheus_exporter stale (conn\<lparr>received := None\<rparr>) buf) = [])"
proof (intro conjI impI, goal_cases)
  case 1
  have "strncmp_eq (r @ drop (length r) stale) ''GET /metrics'' 12 \<longleftrightarrow> prefix ''GET /metrics'' r"
    using 1 prefix_iff_take [of "''GET /metrics''" r] by (auto simp: strncmp_eq_def eval_nat_numeral)
  moreover have "r \<noteq> []" using 1 by auto
  ultimately show ?case by (simp add: prometheus_exporter_def conn_body_def prometheus_dump_def)
next
  case 2
  then obtain rest where r: "''GET /metrics'' = r @ rest" unfolding prefix_def by blast
  from 2 obtain t where s: "stale = ''GET /metrics'' @ t" unfolding prefix_def by blast
  have "r @ drop (length r) stale = r @ rest @ t" unfolding s r by simp
  then have "take 12 (r @ drop (length r) stale) = ''GET /metrics''" unfolding append_assoc [symmetric] r [symmetric] by simp
  then show ?case using 2 by (simp add: prometheus_exporter_def prometheus_clear_def strncmp_eq_def)
next
  case 3
  then show ?case by (auto simp: prefix_def prometheus_exporter_def prometheus_clear_def strncmp_eq_def)
qed

theorem scrape_request_decides_witness:
  "snd (prometheus_exporter ''GET /metrics HTTP/1.1'' \<lparr>received = Some ''G'', header_sent = 50, body_sent = 3\<rparr> ''a 1'') = [] \<and>
   conn_body (fst (prometheus_exporter [] \<lparr>received = Some ''GET /metrics HTTP/1.1'', header_sent = 50, body_sent = 3\<rparr> ''a 1''))
     = ''a 1''"
  using scrape_request_decides [of "''G''" "''GET /metrics HTTP/1.1''" "\<lparr>received = None, header_sent = 50, body_sent = 3\<rparr>" "''a 1''"]
    scrape_request_decides [of "''GET /metrics HTTP/1.1''" "[]" "\<lparr>received = None, header_sent = 50, body_sent = 3\<rparr>" "''a 1''"]
  by simp

end
