(* ===== verification/Ftp_Roundtrip.thy ===== *)
theory Ftp_Roundtrip
  imports Vmem_Ftp
begin

text \<open>
  Transfers of \<open>src/vmem_client_slash_ftp.c\<close> against a node with a memory: an upload that breaks off is run again from the
  offset the command suggested, and what was uploaded is downloaded again. The node is the library's contract: an upload
  stores the bytes that arrive, a download gives the bytes that are stored.
\<close>

section \<open>The memory of a node\<close>

definition store_bytes :: "(int \<Rightarrow> char) \<Rightarrow> int \<Rightarrow> string \<Rightarrow> int \<Rightarrow> char" where
  "store_bytes mem a d = (\<lambda>x. if a \<le> x \<and> x < a + int (length d) then d ! nat (x - a) else mem x)"

definition read_bytes :: "(int \<Rightarrow> char) \<Rightarrow> int \<Rightarrow> nat \<Rightarrow> string" where
  "read_bytes mem a n = map (\<lambda>i. mem (a + int i)) [0..<n]"

text \<open>
  A run of an upload: the bytes it stores and the bytes it reports as sent. What the library reports includes packets
  that are still on their way when the transfer breaks off, so it may be more than what arrived, by at most the window
  of the transport; only an upload that is reported whole has arrived whole.
\<close>

record upload_run =
  run_stored :: nat
  run_sent :: nat

definition window_bytes :: "ftp_world \<Rightarrow> ftp_state \<Rightarrow> int" where
  "window_bytes w st = to_uint32 ((rdp_window (rdp_dfl (ftp_rdp st)) + 1) * fw_MTU w)"

definition run_fair :: "ftp_world \<Rightarrow> ftp_state \<Rightarrow> upload_run \<Rightarrow> bool" where
  "run_fair w st k \<longleftrightarrow> int (run_sent k) \<le> int (run_stored k) + window_bytes w st"

definition sending :: "upload_run \<Rightarrow> ftp_world \<Rightarrow> ftp_world" where
  "sending k w = w\<lparr>fw_upload := \<lambda>a d. int (min (run_sent k) (length d))\<rparr>"

definition stored_part :: "upload_run \<Rightarrow> string \<Rightarrow> string" where
  "stored_part k d = (if length d \<le> run_sent k then d else take (run_stored k) d)"

text \<open>What is stored, by the calls of a command.\<close>

fun store_calls :: "upload_run \<Rightarrow> (int \<Rightarrow> char) \<Rightarrow> ftp_call list \<Rightarrow> int \<Rightarrow> char" where
  "store_calls k mem [] = mem"
| "store_calls k mem (Vmem_upload n a d # tr) = store_calls k (store_bytes mem a (stored_part k d)) tr"
| "store_calls k mem (c # tr) = store_calls k mem tr"

text \<open>Running \<open>upload\<close> until it succeeds or the runs are used up, each time with the offset it suggested; the result is the
  return value of the last run and the memory.\<close>

fun upload_runs ::
  "ftp_world \<Rightarrow> slash_defaults \<Rightarrow> string \<Rightarrow> string \<Rightarrow> upload_run list \<Rightarrow> int \<Rightarrow> ftp_state \<Rightarrow> (int \<Rightarrow> char)
     \<Rightarrow> (slash_ret \<times> ftp_state \<times> (int \<Rightarrow> char)) c_result"
where
  "upload_runs w dfl path addr [] offset st mem = Inr (SLASH_EIO, st, mem)"
| "upload_runs w dfl path addr (k # ks) offset st mem =
     (case vmem_client_slash_upload (sending k w) dfl (\<lambda>opts args. (0, opts\<lparr>ul_offset := offset\<rparr>)) st
             [''upload'', path, addr] of
        Inl f \<Rightarrow> Inl f
      | Inr (ret, st, tr, suggestion) \<Rightarrow>
          (let mem = store_calls k mem tr
           in case suggestion of
                None \<Rightarrow> Inr (ret, st, mem)
              | Some offset \<Rightarrow> upload_runs w dfl path addr ks offset st mem))"

section \<open>Properties\<close>

lemma store_bytes_read:
  "read_bytes (store_bytes mem a d) a (length d) = d"
  by (auto simp: read_bytes_def store_bytes_def intro!: nth_equalityI)

text \<open>The memory holds the first \<open>n\<close> bytes of \<open>d\<close>.\<close>

definition holds :: "(int \<Rightarrow> char) \<Rightarrow> int \<Rightarrow> string \<Rightarrow> nat \<Rightarrow> bool" where
  "holds mem a d n \<longleftrightarrow> (\<forall>i < n. mem (a + int i) = d ! i)"

lemma holds_read: "holds mem a d (length d) \<Longrightarrow> read_bytes mem a (length d) = d"
  by (auto simp: holds_def read_bytes_def intro!: nth_equalityI)

lemma holds_store:
  assumes "holds mem a d n" "n \<le> length d"
  shows "holds (store_bytes mem (a + int n) (take k (drop n d))) a d (min (n + k) (length d))"
proof -
  have "n + nat (int i - int n) = i" if "n \<le> i" for i using that by simp
  then show ?thesis
    using assms by (auto simp: holds_def store_bytes_def nth_append min_def split: if_splits)
qed

lemma holds_stored:
  assumes "holds mem a d n" "n \<le> length d"
  shows "holds (store_bytes mem (a + int n) (stored_part k (drop n d))) a d
    (if length d \<le> n + run_sent k then length d else min (n + run_stored k) (length d))"
proof (cases "length d \<le> n + run_sent k")
  case True
  have "drop n d = take (length d) (drop n d)" by simp
  then have "store_bytes mem (a + int n) (drop n d) = store_bytes mem (a + int n) (take (length d) (drop n d))" by simp
  with True show ?thesis using holds_store [OF assms, of "length d"] by (auto simp: stored_part_def min_def split: if_splits)
next
  case False
  then show ?thesis using holds_store [OF assms, of "run_stored k"] by (auto simp: stored_part_def)
qed

lemma length_stored: "length (stored_part k d) \<le> length d"
  by (simp add: stored_part_def)

lemma upload_step:
  assumes "snd (strtoul 16 addr) = []" "ftp_files st path = Some content" "n \<le> length content" "256 \<le> length content"
    and "fst (strtoul 16 addr) + int (length content) < 18446744073709551616" "int (length content) < 4294967296"
    and "fw_TIMEDOUT w < 0" "fw_NOBUFS w < 0" "run_fair w st k"
  shows "\<exists>ret st' suggestion.
    vmem_client_slash_upload (sending k w) dfl (\<lambda>opts args. (0, opts\<lparr>ul_offset := int n\<rparr>)) st [''upload'', path, addr] =
      Inr (ret, st', [Vmem_upload (slash_dfl_node dfl) (fst (strtoul 16 addr) + int n) (drop n content)], suggestion) \<and>
    ftp_files st' = ftp_files st \<and> rdp_dfl (ftp_rdp st') = rdp_dfl (ftp_rdp st) \<and>
    (case suggestion of
       None \<Rightarrow> ret = SLASH_SUCCESS \<and> length content \<le> n + run_sent k
     | Some off \<Rightarrow> n + run_sent k < length content \<and> 0 \<le> off \<and> off \<le> int (n + run_stored k) \<and> off \<le> int (n + run_sent k))"
proof -
  obtain address where a: "strtoul 16 addr = (address, [])" using assms(1) by (cases "strtoul 16 addr") auto
  let ?w = "sending k w"
  let ?opts = "\<lparr>ul_node = slash_dfl_node dfl, ul_timeout = slash_dfl_timeout dfl, ul_version = 1, ul_offset = int n,
      ul_rdp = rdp_dfl (ftp_rdp st)\<rparr>"
  let ?st = "st\<lparr>ftp_rdp := rdp_opt_set (rdp_opt_add (rdp_dfl (ftp_rdp st)) (ftp_rdp st))\<rparr>"
  have run: "vmem_client_slash_upload ?w dfl (\<lambda>opts args. (0, opts\<lparr>ul_offset := int n\<rparr>)) st [''upload'', path, addr] =
      upload_file ?w ?opts content address ?st"
    using assms(2) a by (simp add: vmem_client_slash_upload_def optparse_parse_def nth_arg_def)
  have addr64: "add64 address (int n) = address + int n"
    using assms(3,5) a strtoul_nonneg [of 16 addr] by (simp add: add64_id)
  have win: "rdp_window (rdp_cur (ftp_rdp ?st)) = rdp_window (rdp_dfl (ftp_rdp st))"
    by (simp add: rdp_opt_set_def rdp_opt_add_def)
  have dfl: "rdp_dfl (rdp_opt_reset (ftp_rdp ?st)) = rdp_dfl (ftp_rdp st)"
    by (simp add: rdp_opt_reset_def rdp_opt_set_def rdp_opt_add_def)
  define off where "off = suggested_offset ?w (rdp_window (rdp_dfl (ftp_rdp st))) (int n) (int (run_sent k))"
  have sug: "0 \<le> off \<and> off \<le> int (n + run_stored k) \<and> off \<le> int (n + run_sent k)" if "n + run_sent k < length content"
  proof -
    have room: "to_uint32 ((rdp_window (rdp_dfl (ftp_rdp st)) + 1) * fw_MTU ?w) = window_bytes w st"
      by (simp add: window_bytes_def sending_def)
    have sent: "to_uint32 (int n + int (run_sent k)) = int n + int (run_sent k)"
      using that assms(6) by (intro to_uint32_id) auto
    have pos: "0 \<le> window_bytes w st" by (simp add: window_bytes_def to_uint32_bounds)
    have "off = (if int n + int (run_sent k) > window_bytes w st then int n + int (run_sent k) - window_bytes w st else 0)"
      using that assms(6) pos
      unfolding off_def suggested_offset_def room sent Let_def by (auto intro!: to_uint32_id)
    then show ?thesis using assms(9) pos by (auto simp: run_fair_def)
  qed
  have count: "fw_upload ?w (address + int n) (drop n content) = int (min (run_sent k) (length content - n))"
    "fw_TIMEDOUT ?w < 0" "fw_NOBUFS ?w < 0"
    using assms(7,8) by (simp_all add: sending_def)
  show ?thesis
  proof (cases "n + run_sent k < length content")
    case True
    then have "min (run_sent k) (length content - n) = run_sent k" "run_sent k \<noteq> length content - n" by auto
    then have "upload_file ?w ?opts content address ?st =
        Inr (SLASH_EIO, ?st\<lparr>ftp_rdp := rdp_opt_reset (ftp_rdp ?st)\<rparr>,
          [Vmem_upload (slash_dfl_node dfl) (address + int n) (drop n content)], Some off)"
      using addr64 count assms(4) win True unfolding upload_file_def Let_def off_def by auto
    then show ?thesis unfolding run using a sug [OF True] True dfl by simp
  next
    case False
    then have "min (run_sent k) (length content - n) = length content - n" by auto
    then have "upload_file ?w ?opts content address ?st =
        Inr (SLASH_SUCCESS, ?st\<lparr>ftp_rdp := rdp_opt_reset (ftp_rdp ?st)\<rparr>,
          [Vmem_upload (slash_dfl_node dfl) (address + int n) (drop n content)], None)"
      using addr64 count assms(4) unfolding upload_file_def Let_def by auto
    then show ?thesis unfolding run using a False dfl by simp
  qed
qed

lemma store_outside: "x < a \<or> a + int (length d) \<le> x \<Longrightarrow> store_bytes mem a d x = mem x"
  by (auto simp: store_bytes_def)

lemma holds_less: "holds mem a d n \<Longrightarrow> m \<le> n \<Longrightarrow> holds mem a d m"
  by (simp add: holds_def)

lemma upload_runs_complete:
  assumes "snd (strtoul 16 addr) = []" "256 \<le> length content"
    and "fst (strtoul 16 addr) + int (length content) < 18446744073709551616" "int (length content) < 4294967296"
    and "fw_TIMEDOUT w < 0" "fw_NOBUFS w < 0" "\<exists>k \<in> set ks. length content \<le> run_sent k"
    and "ftp_files st path = Some content" "n \<le> length content" "holds mem (fst (strtoul 16 addr)) content n"
    and "list_all (run_fair w st) ks"
  shows "\<exists>st' mem'. upload_runs w dfl path addr ks (int n) st mem = Inr (SLASH_SUCCESS, st', mem') \<and>
    ftp_files st' = ftp_files st \<and> holds mem' (fst (strtoul 16 addr)) content (length content) \<and>
    (\<forall>x. x < fst (strtoul 16 addr) \<or> fst (strtoul 16 addr) + int (length content) \<le> x \<longrightarrow> mem' x = mem x)"
  using assms(7-11)
proof (induction ks arbitrary: n st mem)
  case (Cons k ks)
  let ?a = "fst (strtoul 16 addr)"
  let ?mem = "store_bytes mem (?a + int n) (stored_part k (drop n content))"
  obtain ret st' suggestion where
    run: "vmem_client_slash_upload (sending k w) dfl (\<lambda>opts args. (0, opts\<lparr>ul_offset := int n\<rparr>)) st [''upload'', path, addr] =
      Inr (ret, st', [Vmem_upload (slash_dfl_node dfl) (?a + int n) (drop n content)], suggestion)"
    and files: "ftp_files st' = ftp_files st" "rdp_dfl (ftp_rdp st') = rdp_dfl (ftp_rdp st)"
    and s: "case suggestion of None \<Rightarrow> ret = SLASH_SUCCESS \<and> length content \<le> n + run_sent k
      | Some off \<Rightarrow> n + run_sent k < length content \<and> 0 \<le> off \<and> off \<le> int (n + run_stored k) \<and> off \<le> int (n + run_sent k)"
    using upload_step [OF assms(1) Cons.prems(2,3) assms(2-6), of k dfl] Cons.prems(5) by auto
  note h = holds_stored [OF Cons.prems(4,3), of k]
  have out: "?mem x = mem x" if "x < ?a \<or> ?a + int (length content) \<le> x" for x
    using that Cons.prems(3) length_stored [of k "drop n content"] by (intro store_outside) auto
  show ?case
  proof (cases suggestion)
    case None
    then show ?thesis using run files s h out by simp
  next
    case (Some off)
    then have off: "n + run_sent k < length content" "0 \<le> off" "off \<le> int (n + run_stored k)" "off \<le> int (n + run_sent k)"
      using s by simp_all
    have later: "\<exists>k \<in> set ks. length content \<le> run_sent k" using Cons.prems(1) off(1) by auto
    have "holds ?mem ?a content (nat off)"
      using off by (intro holds_less [OF h]) (auto simp: nat_le_iff)
    moreover have "nat off \<le> length content" using off by linarith
    moreover have "ftp_files st' path = Some content" using Cons.prems(2) files by simp
    moreover have "list_all (run_fair w st') ks"
      using Cons.prems(5) files(2) by (simp add: list_all_iff run_fair_def window_bytes_def)
    ultimately obtain st2 mem2 where "upload_runs w dfl path addr ks (int (nat off)) st' ?mem = Inr (SLASH_SUCCESS, st2, mem2)"
      "ftp_files st2 = ftp_files st'" "holds mem2 ?a content (length content)"
      "\<forall>x. x < ?a \<or> ?a + int (length content) \<le> x \<longrightarrow> mem2 x = ?mem x"
      using Cons.IH [OF later] by blast
    then show ?thesis using run Some off(2) files out by simp
  qed
qed simp

text \<open>
  C8: What was uploaded comes back: an upload of a file of at least 256 bytes (the head of a shorter one is read beyond its
  end) and at most 2147483647 that breaks off any number of times, though each run may report as sent up to a window of
  the transport more than was stored, and each time is run again from the offset the command suggested, leaves exactly
  the file in the node's memory and the memory around it as it was, as soon as one run goes through; a download of as
  many bytes from the address, to a name of less than 124 characters for which there is no status file yet, then gives
  the file, and no status file stays behind.
\<close>

theorem upload_download_roundtrip:
  assumes "snd (strtoul 16 addr) = []" "256 \<le> length content" "int (length content) \<le> INT32_MAX"
    and "fst (strtoul 16 addr) + int (length content) < 18446744073709551616"
    and "fw_TIMEDOUT w < 0" "fw_NOBUFS w < 0" "list_all (run_fair w st) ks" "\<exists>k \<in> set ks. length content \<le> run_sent k"
    and "ftp_files st path = Some content" "length copy < 124" "ftp_files st (copy @ ''stat'') = None"
  shows "\<exists>st' mem'. upload_runs w dfl path addr ks 0 st mem = Inr (SLASH_SUCCESS, st', mem') \<and>
    (\<forall>x. x < fst (strtoul 16 addr) \<or> fst (strtoul 16 addr) + int (length content) \<le> x \<longrightarrow> mem' x = mem x) \<and>
    (\<exists>st'' tr. download_of w dfl (\<lambda>opts args. (0, opts))
        (read_bytes mem' (fst (strtoul 16 addr)) (length content)) addr copy (length content) st' = Inr (SLASH_SUCCESS, st'', tr) \<and>
      ftp_files st'' copy = Some content \<and> ftp_files st'' (copy @ ''stat'') = None)"
proof -
  have l: "int (length content) < 4294967296" using assms(3) by simp
  have "holds mem (fst (strtoul 16 addr)) content 0" by (simp add: holds_def)
  then obtain st' mem' where up: "upload_runs w dfl path addr ks (int 0) st mem = Inr (SLASH_SUCCESS, st', mem')"
    "ftp_files st' = ftp_files st" "holds mem' (fst (strtoul 16 addr)) content (length content)"
    "\<forall>x. x < fst (strtoul 16 addr) \<or> fst (strtoul 16 addr) + int (length content) \<le> x \<longrightarrow> mem' x = mem x"
    using upload_runs_complete [OF assms(1,2,4) l assms(5,6,8,9), of 0 mem dfl] assms(7) by auto
  have h: "halfway content copy 0 (ftp_files st')" using assms(11) up(2) by (simp add: halfway_def)
  have "0 < length content" using assms(2) by auto
  with download_of_serving [OF h _ assms(10,3,1,4-6) refl, of dfl "length content"] up holds_read [OF up(3)]
  show ?thesis by fastforce
qed

text \<open>The first run reports 207 bytes of which 7 are stored, the second goes through.\<close>

theorem upload_download_roundtrip_witness:
  "\<exists>st' mem'. upload_runs (demo_ftp\<lparr>fw_MTU := 192\<rparr>) \<lparr>slash_dfl_node = 5, slash_dfl_timeout = 1000\<rparr> ''a'' ''1000''
      [\<lparr>run_stored = 7, run_sent = 207\<rparr>, \<lparr>run_stored = 300, run_sent = 300\<rparr>] 0
      (no_files\<lparr>ftp_files := [''a'' \<mapsto> replicate 300 CHR ''x'']\<rparr>) (\<lambda>x. NUL) = Inr (SLASH_SUCCESS, st', mem') \<and>
    (\<forall>x. x < 4096 \<or> 4096 + 300 \<le> x \<longrightarrow> mem' x = NUL)"
proof -
  let ?w = "demo_ftp\<lparr>fw_MTU := 192\<rparr>"
  let ?st = "no_files\<lparr>ftp_files := [''a'' \<mapsto> replicate 300 CHR ''x'']\<rparr>"
  let ?ks = "[\<lparr>run_stored = 7, run_sent = 207\<rparr>, \<lparr>run_stored = 300, run_sent = 300\<rparr>]"
  have n: "strtoul 16 ''1000'' = (4096, [])" by code_simp
  have "window_bytes ?w ?st = 768" by (simp add: window_bytes_def rdp_defaults_def to_uint32_eq)
  then have "list_all (run_fair ?w ?st) ?ks" by (simp add: run_fair_def)
  with n show ?thesis
    using upload_download_roundtrip [where w = ?w and addr = "''1000''" and path = "''a''" and ks = ?ks
        and dfl = "\<lparr>slash_dfl_node = 5, slash_dfl_timeout = 1000\<rparr>" and content = "replicate 300 CHR ''x''"
        and st = ?st and mem = "\<lambda>x. NUL" and copy = "''b''"]
    by auto
qed

end
