(* ===== verification/Sniffer_Thread.thy ===== *)
theory Sniffer_Thread
  imports Sniffer_Log
begin

text \<open>
  The thread of \<open>src/param_sniffer.c\<close>: every packet on the network goes to the housekeeping sniffer of
  \<open>src/hk_param_sniffer.c\<close> and, if it is not one of its packets, to the sniffer of pull responses; both log the values they find.
\<close>

section \<open>The thread\<close>






section \<open>Properties\<close>

subsection \<open>Lines that fit\<close>




















subsection \<open>No faults\<close>











end
