(* ===== verification/Spec2Isabelle.thy ===== *)
theory Spec2Isabelle
  imports Environment Known_Hosts Run_Environment Require_Version Slash_Utils Param_Parse Param_Cmds
    Param_Queue Env_Var_Cmds Node_Cmds Walkdir Spaceboot Apm Hk_Sniffer Vmem_Ftp Csp_Cmds Csp_Init
    Ring_Clients Shell_Main Loki Metrics Sniffer_Log Locks List_Cmds
    Zmqproxy Proxy_Lossy Manual Eth_Cmds Python_Loader Shell_Hooks Metric_Threads Ftp_Roundtrip
    Sniffer_Thread
begin

text \<open>
  A model of \<open>csh\<close>, the command shell for nodes on a CSP network (C sources under \<open>src/src/\<close>), and the
  theorems that make its parts correct.

  The program. The \<open>slash\<close> library reads a line, passes it to the hook of \<open>main.c\<close>, which expands
  \<open>$(NAME)\<close> with the variable store (\<open>environment.c\<close>), splits it into \<open>argv\<close> and calls a command handler. The
  handlers parse their options with \<open>optparse\<close> and call the libraries for CSP, parameters and remote memory.
  Completion handlers rewrite the line buffer. State that outlives a command: the variable store, the table of
  host names (\<open>known_hosts.c\<close>, which also writes a variable per host), the global parameter queue of the
  \<open>cmd\<close> commands (\<open>param_slash.c\<close>), the default node and timeout, the list of extension modules
  (\<open>slash_apm.c\<close>).

  The theories, in the order of their imports:
  \<^item> \<open>Csh_Prelude\<close>: faults (\<open>Out_Of_Bounds\<close>, \<open>Null_Deref\<close>, \<open>Assert_Failed\<close>, \<open>Double_Free\<close>) and \<open>'a c_result\<close>, the
    result of code that can have one; the wrap-around of C integers; C strings in buffers; lists.
  \<^item> \<open>C_Strings\<close>: the functions of the C library the shell parses with (\<open>strtol\<close>, \<open>strtok\<close>, \<open>sscanf\<close>, \<open>strstr\<close>,
    decimal output), with the round trip between numbers and their decimal text.
  \<^item> \<open>Slash_Base\<close>: result codes, option parser, arguments, traces of library calls.
  \<^item> \<open>Environment\<close> (\<open>environment.c\<close>): the store is a map, and the expansion of a line over a growing buffer agrees
    with a reference function and never leaves the buffer.
  \<^item> \<open>Known_Hosts\<close> (\<open>known_hosts.c\<close>), \<open>Node_Cmds\<close> (\<open>slash_nodes_cmds.c\<close>): the table of hosts with its invariant, the
    saved file, name resolution, completion of host names, and the commands on it.
  \<^item> \<open>Run_Environment\<close> (\<open>slash_run_environment.c\<close>): the variables of a running script.
  \<^item> \<open>Env_Var_Cmds\<close> (\<open>slash_env_var_cmds.c\<close>): the \<open>var\<close> commands and the completion of variable names.
  \<^item> \<open>Require_Version\<close> (\<open>require_version.c\<close>, \<open>require_version_cmd.c\<close>): versions and constraints.
  \<^item> \<open>Slash_Utils\<close> (\<open>slash_utils.c\<close>, \<open>url_utils.c\<close>, \<open>base16.c\<close>): addresses, lengths, hexadecimal data.
  \<^item> \<open>Param_Parse\<close>, \<open>Param_Cmds\<close>, \<open>Param_Queue\<close> (\<open>param_slash.c\<close>): slices and offsets, \<open>get\<close> and \<open>set\<close>, the queue
    commands and \<open>pull\<close>.
  \<^item> \<open>Walkdir\<close> (\<open>walkdir.c\<close>), \<open>Spaceboot\<close> (\<open>spaceboot_slash.c\<close>), \<open>Apm\<close> (\<open>slash_apm.c\<close>): the directory walk and its two
    clients, firmware upload and module loading.
  \<^item> \<open>Getopt\<close>: the C library's \<open>getopt\<close>, with \<open>POSIXLY_CORRECT\<close> set or not, for the main programs.
  \<^item> \<open>Shell_Main\<close> (\<open>main.c\<close>): the start of the shell, its two scripts, the variables for them and the interpreter,
    batch mode, the prompt; scripts and commands may end the process.
  \<^item> \<open>Csp_Init\<close> (\<open>csp_init_cmd.c\<close>): the set-up commands over the list of interfaces; any sequence of them is a step
    relation, and its reachable states have distinct names.
  \<^item> \<open>Csp_Cmds\<close> (\<open>slash_csp.c\<close>, \<open>csp_scan.c\<close>): the requests to a node, identification and the scan, which fill the table
    of hosts.
  \<^item> \<open>Vmem_Ftp\<close> (\<open>vmem_client_slash_ftp.c\<close>, \<open>csh_defaults.c\<close>): downloads that resume from a status file, uploads, checksums.
    \<open>Ftp_Roundtrip\<close>: both against the memory of a node.
  \<^item> \<open>Ring_Clients\<close> (\<open>stdbuf_client.c\<close>, \<open>stdbuf_mon.c\<close>, \<open>resbuf_dump.c\<close>): reading the ring buffers of a node.
  \<^item> \<open>Hk_Sniffer\<close> (\<open>hk_param_sniffer.c\<close>, part of \<open>param_sniffer.c\<close>): the tables of epochs and the housekeeping packets.
  \<^item> \<open>Loki\<close> (\<open>loki.c\<close>): the log client, from the output of the shell to the documents it posts.
  \<^item> \<open>Metrics\<close> (\<open>victoria_metrics.c\<close>, \<open>prometheus.c\<close>): the buffers of metric lines, pushing and scraping, and the start of the
    push thread. \<open>Metric_Threads\<close>: the push thread as a whole, from the test of the connection to its clean-up, starting it
    again, and the connections of a scrape.
  \<^item> \<open>Sniffer_Log\<close> (\<open>param_sniffer.c\<close>, \<open>vts.c\<close>): from a packet with parameters to the metric lines in every sink.
    \<open>Sniffer_Thread\<close>: both sniffers over all packets of the network.
  \<^item> \<open>Locks\<close> (\<open>lock.c\<close>): deadlines and mutual exclusion.
  \<^item> \<open>List_Cmds\<close> (\<open>param_list_slash.c\<close>, \<open>param_list_store_slash.c\<close>, \<open>vmem_client_slash.c\<close>, \<open>vmem_dynfile.c\<close>, \<open>nav.c\<close>,
    \<open>sleep_slash.c\<close>): commands that are a call of a library, and the parameters the program declares
    (\<open>csp_debug_param.c\<close>, \<open>serial.c\<close>).
  \<^item> \<open>Zmqproxy\<close>, \<open>Proxy_Lossy\<close> (\<open>zmqproxy.c\<close>): the start of the proxy and the order of its calls, the log and the monitoring
    of connections; the simulated bad channel of the build with \<open>ZMQ_PROXY_LOSSY\<close>. The bridge (\<open>spacebridge.c\<close>).
  \<^item> \<open>Manual\<close> (the manual command of \<open>slash_apm.c\<close>), \<open>Eth_Cmds\<close> (\<open>slash_eth.c\<close>): opening documents; checking interfaces.
  \<^item> \<open>Python_Loader\<close> (\<open>python_loader.c\<close>, \<open>apm load\<close> of \<open>slash_apm.c\<close>): the hooks around a command, the search path, the
    modules \<open>apm load\<close> imports, that command in both builds, the \<open>python\<close> command; every call of the interpreter is an
    argument or an element of a trace, and code that asks to exit ends the process. \<open>Shell_Hooks\<close>
    (\<open>slash_hooks.c\<close>): what happens around the execution of a line.

  Conventions. Each definition has the name of its function in the code; a helper is a part of the function its
  comment names. A C string is a \<open>string\<close> without NUL characters; a buffer is a list of characters whose length is
  its capacity, and every access beyond it is \<open>Inl Out_Of_Bounds\<close>. Allocation succeeds, except where a failing
  allocation is an argument. Effects outside the process are a trace of calls, and what they answer is an
  argument (a world). Diagnostics are left out, except where the output is what a command is for. Where code or a command in
  it can end the process, the result has no value or an exit code in its place. The target is
  64-bit Linux with glibc, little-endian.

  Interfaces. \<open>variable_store\<close> (Environment) states what the clients of the store rely on and is interpreted as
  \<open>env_store\<close>; \<open>host_table\<close> and its extension \<open>host_directory\<close> (Known_Hosts) state the table of names and are
  interpreted as \<open>hosts\<close>; \<open>metric_sink\<close> (Metrics) states what the sniffer relies on when it adds a line and is
  interpreted by both buffers, \<open>vm_sink\<close> and \<open>prom_sink\<close>. The lemmas that use only these laws are proved in the
  locales.

  Termination. A loop is a total function, over the arguments or characters left or with a measure on the index,
  except the three that may never end: the scan, the dump of a result buffer and the monitoring of a standard
  buffer are \<open>partial_function (option)\<close>, where \<open>None\<close> is a loop that never returns. Theorems say when they return.
  No definition has fuel.

  Threads. Step relations model code that runs concurrently: the start of the push thread (Metrics, Metric_Threads), a lock
  with any number of threads (Locks), and sequences of set-up commands (Csp_Init); the order of a scrape and of new
  lines (Metrics) and the two threads of the proxy (Proxy_Lossy) are lists of events.

  Not modelled: the terminal, sockets, the HTTP library, the Python interpreter and the other libraries themselves, which
  are arguments; what is only printed; reference counts of Python objects; the bodies of threads that do nothing but call a
  library for ever; code the preprocessor disables.
\<close>

section \<open>Properties that span components\<close>

text \<open>
  C23: A node that \<open>node add -n ADDR NAME\<close> enters can be used as a variable: in a command line with \<open>$(NAME)\<close> in it and no
  dollar sign in front of that, the reference is then expanded to the address in decimal, the text in front of it is kept,
  and the text behind it is expanded by itself (and kept if it has no dollar sign). The address is below 16384, the name
  below 50 characters without a closing parenthesis and without a dash in front, and memory is there.
\<close>

theorem node_name_expands:
  assumes "hosts_inv (hosts st)" "parses_node_option (hosts st) add_parser" "0 < a" "a < 16384"
    and "nul_free n" "length n < HOSTNAME_MAXLEN" "CHR '')'' \<notin> set n" "\<not> looks_like_option n"
    and "nul_free pre" "CHR ''$'' \<notin> set pre"
  shows "\<exists>st'. cmd_node_add True add_parser st [''node add'', ''-n'', show_nat a, n] = Inr (SLASH_SUCCESS, st') \<and>
    (\<forall>rest. (nul_free (expand_ref (host_env (hosts st')) rest) \<longrightarrow>
       (\<exists>buf. csh_expand_vars (\<lambda>_. True) junk (host_env (hosts st')) (pre @ ''$('' @ n @ '')'' @ rest) = Inr (Some buf) \<and>
         c_string buf = pre @ show_nat a @ expand_ref (host_env (hosts st')) rest)) \<and>
      (CHR ''$'' \<notin> set rest \<longrightarrow> expand_ref (host_env (hosts st')) rest = rest))"
proof -
  let ?h = "added (hosts st) (known_hosts_del (known_hosts (hosts st)) (int a)) (int a) n"
  have "csh_getvar (host_env ?h) n = Some (show_nat a)"
    using assms(1,5,6) by (simp add: added_def host_clip_short hosts_inv_def env_store.get_put show_int_def)
  note expand = expand_reference [OF assms(10,7) this assms(9) nul_free_show_nat]
  have "expand_ref (host_env ?h) rest = rest" if "CHR ''$'' \<notin> set rest" for rest
    using expand_ref_literal [OF that, of "host_env ?h" "[]"] by simp
  then show ?thesis using cmd_node_add_stores(1) [OF assms(1-4,8)] expand by simp
qed

theorem node_name_expands_witness:
  "\<exists>st'. cmd_node_add True demo_node_parser no_nodes [''node add'', ''-n'', show_nat 5, ''obc''] =
      Inr (SLASH_SUCCESS, st') \<and>
    (\<exists>buf. csh_expand_vars (\<lambda>_. True) NUL (host_env (hosts st')) (''ping '' @ ''$('' @ ''obc'' @ '')'' @ '' 100'') = Inr (Some buf) \<and>
      c_string buf = ''ping '' @ show_nat 5 @ '' 100'')"
proof -
  have "nul_free ''obc''" "nul_free ''ping ''" "nul_free '' 100''" by code_simp+
  moreover have "parses_node_option (hosts no_nodes) demo_node_parser"
    by (simp add: parses_node_option_def looks_like_option_def)
  ultimately obtain st' where st': "cmd_node_add True demo_node_parser no_nodes [''node add'', ''-n'', show_nat 5, ''obc''] =
      Inr (SLASH_SUCCESS, st')"
    and ex: "\<forall>rest. (nul_free (expand_ref (host_env (hosts st')) rest) \<longrightarrow>
       (\<exists>buf. csh_expand_vars (\<lambda>_. True) NUL (host_env (hosts st')) (''ping '' @ ''$('' @ ''obc'' @ '')'' @ rest) = Inr (Some buf) \<and>
         c_string buf = ''ping '' @ show_nat 5 @ expand_ref (host_env (hosts st')) rest)) \<and>
      (CHR ''$'' \<notin> set rest \<longrightarrow> expand_ref (host_env (hosts st')) rest = rest)"
    using node_name_expands [of no_nodes demo_node_parser 5 "''obc''" "''ping ''" NUL]
    by (auto simp: hosts_inv_def env_inv_def looks_like_option_def)
  have "expand_ref (host_env (hosts st')) '' 100'' = '' 100''"
    using expand_ref_literal [of "'' 100''" "host_env (hosts st')" "[]"] by simp
  with ex have "\<exists>buf. csh_expand_vars (\<lambda>_. True) NUL (host_env (hosts st'))
      (''ping '' @ ''$('' @ ''obc'' @ '')'' @ '' 100'') = Inr (Some buf) \<and> c_string buf = ''ping '' @ show_nat 5 @ '' 100''"
    using \<open>nul_free '' 100''\<close> by metis
  with st' show ?thesis by blast
qed

text \<open>
  A script can name its neighbours: inside a \<open>run\<close> of a file that resolves to \<open>dir/base\<close>, a line with
  \<open>$(__FILE_DIR__)\<close> in front of a text without references is expanded to \<open>dir\<close> and that text.
\<close>

theorem run_directory_expands:
  assumes "realpath filename = Some (dir @ CHR ''/'' # base)" "CHR ''/'' \<notin> set base" "nul_free dir"
    and "nul_free pre" "CHR ''$'' \<notin> set pre" "nul_free rest" "CHR ''$'' \<notin> set rest"
  shows "\<exists>inner ctx buf. slash_on_run_pre_hook alloc realpath env filename = Inr (inner, ctx) \<and>
    csh_expand_vars (\<lambda>_. True) junk inner (pre @ ''$('' @ ENV_FILE_DIR @ '')'' @ rest) = Inr (Some buf) \<and>
    c_string buf = pre @ dir @ rest"
proof -
  obtain inner ctx where pre: "slash_on_run_pre_hook alloc realpath env filename = Inr (inner, ctx)"
    and dir: "csh_getvar inner ENV_FILE_DIR = Some dir"
    using pre_hook_gets [of realpath filename dir base, OF assms(1,2)] by blast
  have "expand_ref inner rest = rest" using expand_ref_literal [OF assms(7), of inner "[]"] by simp
  then show ?thesis
    using expand_reference [OF assms(5) _ dir assms(4,3), of rest junk] assms(6) pre by simp
qed

theorem run_directory_expands_witness:
  "\<exists>inner ctx buf. slash_on_run_pre_hook True (\<lambda>f. Some (''/home/u'' @ CHR ''/'' # f)) [] ''init.csh'' = Inr (inner, ctx) \<and>
    csh_expand_vars (\<lambda>_. True) NUL inner (''run '' @ ''$('' @ ENV_FILE_DIR @ '')'' @ ''/hosts.csh'') = Inr (Some buf) \<and>
    c_string buf = ''run '' @ ''/home/u'' @ ''/hosts.csh''"
  by (rule run_directory_expands [where base = "''init.csh''"]) simp_all

text \<open>
  C17: From the packet to the metrics server: when the sniffer sees a packed, non-empty array of numbers (integers, floats
  or doubles) of a parameter that is not streamed to the simulator, each of whose lines has fewer than 1000 bytes (the
  code does not check that), and the push client's buffer has room for them, then the next push that succeeds, however
  many fail before it, sends what was in the buffer, followed by one line per number in order, and leaves the buffer
  empty.
\<close>

theorem sniffed_values_reach_server:
  assumes "kind_of lib (param_type_of param) \<noteq> Log_other" "\<not> check_vts st (param_node param) (param_id param)"
    and "map (expect_text lib (param_type_of param)) vs = map Some ts" "vs \<noteq> []"
    and "lines_fit param (log_time now_ms timestamp) (nat (max 0 offset)) ts"
    and "sink_vm s = Some buffer"
    and "length buffer + length (concat (value_lines param (log_time now_ms timestamp) (nat (max 0 offset)) ts)) < BUFFER_SIZE"
  shows "\<exists>s' buffer' got. param_sniffer_log lib now_ms param offset timestamp (Tok_array (length vs) # map Tok vs @ rest) s st =
       Inr (s', st, [], rest) \<and> sink_vm s' = Some buffer' \<and>
     foldl vm_event_step (buffer', []) (map (\<lambda>n. Vm_turn (Push_failed n)) fails @ [Vm_turn Push_ok]) =
       ([], got @ [(True, buffer @ concat (value_lines param (log_time now_ms timestamp) (nat (max 0 offset)) ts))])"
proof -
  let ?lines = "value_lines param (log_time now_ms timestamp) (nat (max 0 offset)) ts"
  have vm: "sink_vm (foldl emit s ?lines) = Some (buffer @ concat ?lines)"
    using assms(6) vm_sink.adds_fit [OF assms(7)] by (simp add: sink_vm_emit)
  obtain t ts' where "ts = t # ts'" using assms(3,4) by (cases ts) auto
  then have "concat ?lines \<noteq> []" by (simp add: metric_line_def)
  then have "buffer @ concat ?lines \<noteq> []" by simp
  from pushed_after_failures [OF this, of "[]" fails] show ?thesis
    using param_sniffer_log_numbers [OF assms(1-3,5)] vm by auto
qed

theorem sniffed_values_reach_server_witness:
  "\<exists>s' buffer' got. param_sniffer_log Sniffer_Log.demo_lib 0 temp_param 3 (1, 0) [Tok_array 1, Tok 21]
       \<lparr>sink_vm = Some ''x'', sink_prometheus = None, sink_file = None\<rparr> no_vts = Inr (s', no_vts, [], []) \<and>
     sink_vm s' = Some buffer' \<and>
     foldl vm_event_step (buffer', []) [Vm_turn (Push_failed 4), Vm_turn Push_ok] =
       ([], got @ [(True, ''x'' @ metric_line ''temp'' 5 3 ''21'' 1000)])"
proof -
  have t: "log_time 0 (1, 0) = 1000" by (simp add: log_time_def)
  have "length (show_nat 1000) \<le> 4" "length (show_nat 5) \<le> 1" "length (show_nat 3) \<le> 1"
    by (rule length_show_nat_le; simp)+
  then have len: "length (metric_line ''temp'' 5 3 ''21'' 1000) < 1000"
    by (simp add: metric_line_def quoted_def)
  have lines: "value_lines temp_param 1000 3 [''21''] = [metric_line ''temp'' 5 3 ''21'' 1000]" by simp
  have vals: "map (expect_text Sniffer_Log.demo_lib (param_type_of temp_param)) [21] = map Some [''21'']" by code_simp
  have i: "nat (max 0 3) = 3" by simp
  have "\<exists>s' buffer' got. param_sniffer_log Sniffer_Log.demo_lib 0 temp_param 3 (1, 0) (Tok_array (length [21 :: nat]) # map Tok [21] @ [])
       \<lparr>sink_vm = Some ''x'', sink_prometheus = None, sink_file = None\<rparr> no_vts = Inr (s', no_vts, [], []) \<and>
     sink_vm s' = Some buffer' \<and>
     foldl vm_event_step (buffer', []) (map (\<lambda>n. Vm_turn (Push_failed n)) [4] @ [Vm_turn Push_ok]) =
       ([], got @ [(True, ''x'' @ concat (value_lines temp_param (log_time 0 (1, 0)) (nat (max 0 3)) [''21'']))])"
  proof (rule sniffed_values_reach_server [OF _ _ vals])
    show "lines_fit temp_param (log_time 0 (1, 0)) (nat (max 0 3)) [''21'']"
      using len unfolding t i lines_fit_def lines by simp
    show "length ''x'' + length (concat (value_lines temp_param (log_time 0 (1, 0)) (nat (max 0 3)) [''21''])) < BUFFER_SIZE"
      using len unfolding t i lines by simp
  qed (simp_all add: check_vts_def)
  then show ?thesis unfolding t i lines by (simp del: vm_event_step.simps)
qed

end
